(* ===== verification/Prelude.thy ===== *)
theory Prelude
  imports Main "HOL-Library.Word"
begin

unbundle bit_operations_syntax

text \<open>
  Shared vocabulary of the development: the machine integer types of the code, its errors, the two
  monads every operation is written in (a pure result and a result with state), and the operations
  of \<open>std::vector\<close> the code uses.  An access outside a vector is undefined behaviour in C++, so it
  is a value of the error type here: a theorem that an operation returns also says that the
  operation stays inside its buffers.
\<close>

section \<open>Machine integers\<close>

type_synonym u8 = "8 word"
type_synonym u16 = "16 word"
type_synonym u32 = "32 word"
type_synonym bytes = "u8 list"

lemma unat_u8_lt [simp]: "unat (x :: u8) < 256"
proof -
  have "unat x < 2 ^ LENGTH(8)" by (rule unsigned_less)
  then show ?thesis by simp
qed

lemma unat_u16_lt [simp]: "unat (x :: u16) < 65536"
proof -
  have "unat x < 2 ^ LENGTH(16)" by (rule unsigned_less)
  then show ?thesis by simp
qed

lemma unat_u32_lt [simp]: "unat (x :: u32) < 4294967296"
proof -
  have "unat x < 2 ^ LENGTH(32)" by (rule unsigned_less)
  then show ?thesis by simp
qed

lemma unat_of_nat_u16: "n < 65536 \<Longrightarrow> unat (of_nat n :: u16) = n"
  by (simp add: unat_of_nat take_bit_eq_mod)

section \<open>Errors\<close>

text \<open>The kinds of undefined behaviour that code of the repository can run into.\<close>

datatype undefined_behaviour =
    OutOfBounds          \<comment> \<open>index or iterator outside its vector\<close>
  | IndeterminateRead    \<comment> \<open>a variable that was never given a value is read\<close>
  | NullDereference      \<comment> \<open>an empty \<open>std::shared_ptr\<close> is dereferenced\<close>

text \<open>
  The exceptions: \<open>std::runtime_error\<close> with its message, the library's own
  \<open>suika::error::ArpResolveException\<close> (lib/Error.h, a subclass of \<open>std::runtime_error\<close>),
  \<open>std::length_error\<close> from a vector asked for an impossible size and \<open>std::out_of_range\<close> from
  \<open>std::vector::at\<close> (the last two are not runtime errors).
\<close>

datatype error =
    RuntimeError string
  | ArpResolveException string
  | LengthError
  | OutOfRange
  | Undefined undefined_behaviour
  | Hang                 \<comment> \<open>not an exception: a loop of the call never ends\<close>

text \<open>What a handler \<open>catch (const std::runtime_error &)\<close> catches.\<close>

fun is_runtime_error :: "error \<Rightarrow> bool" where
  "is_runtime_error (RuntimeError _) = True"
| "is_runtime_error (ArpResolveException _) = True"
| "is_runtime_error _ = False"

text \<open>A thrown exception, as opposed to undefined behaviour.\<close>

fun is_exception :: "error \<Rightarrow> bool" where
  "is_exception (Undefined _) = False"
| "is_exception Hang = False"
| "is_exception _ = True"

type_synonym 'a result = "error + 'a"

named_theorems vec_simps \<open>facts on vector accesses\<close>
named_theorems wire \<open>byte-level layout of the packet accessors\<close>
named_theorems frame_intros \<open>what an operation leaves alone, compositionally\<close>
named_theorems blind_intros \<open>what an operation does not look at, compositionally\<close>

section \<open>The result monad\<close>

definition bindE :: "'a result \<Rightarrow> ('a \<Rightarrow> 'b result) \<Rightarrow> 'b result" where
  "bindE m f = (case m of Inl e \<Rightarrow> Inl e | Inr x \<Rightarrow> f x)"

lemma bindE_simps [simp]:
  "bindE (Inl e) f = Inl e"
  "bindE (Inr x) f = f x"
  by (simp_all add: bindE_def)

lemma bindE_Inr_right [simp]: "bindE m Inr = m"
  by (cases m) simp_all

lemma bindE_assoc: "bindE (bindE m f) g = bindE m (\<lambda>x. bindE (f x) g)"
  by (cases m) simp_all

lemma bindE_eq_Inr_iff: "bindE m f = Inr y \<longleftrightarrow> (\<exists>x. m = Inr x \<and> f x = Inr y)"
  by (cases m) simp_all

lemma bindE_eq_Inl_iff:
  "bindE m f = Inl e \<longleftrightarrow> m = Inl e \<or> (\<exists>x. m = Inr x \<and> f x = Inl e)"
  by (cases m) auto

lemma bindE_InrE [elim]:
  assumes "bindE m f = Inr y"
  obtains x where "m = Inr x" and "f x = Inr y"
  using assms by (auto simp: bindE_eq_Inr_iff)

lemma bindE_cong [fundef_cong]:
  "m = m' \<Longrightarrow> (\<And>x. m' = Inr x \<Longrightarrow> f x = f' x) \<Longrightarrow> bindE m f = bindE m' f'"
  by (cases m') simp_all

text \<open>A check that throws.\<close>

definition guardE :: "bool \<Rightarrow> error \<Rightarrow> unit result" where
  "guardE b e = (if b then Inr () else Inl e)"

lemma guardE_simps [simp]:
  "guardE True e = Inr ()"
  "guardE False e = Inl e"
  "guardE b e = Inr u \<longleftrightarrow> b"
  by (simp_all add: guardE_def)

section \<open>The effect monad\<close>

text \<open>
  A stateful operation takes the state and returns the outcome with the state it leaves.  The state
  is returned on an exception too: what the code did before it threw is not undone.
\<close>

type_synonym ('s, 'a) eff = "'s \<Rightarrow> 'a result \<times> 's"

definition retM :: "'a \<Rightarrow> ('s, 'a) eff" where
  "retM x = (\<lambda>s. (Inr x, s))"

definition throwM :: "error \<Rightarrow> ('s, 'a) eff" where
  "throwM e = (\<lambda>s. (Inl e, s))"

definition bindM :: "('s, 'a) eff \<Rightarrow> ('a \<Rightarrow> ('s, 'b) eff) \<Rightarrow> ('s, 'b) eff" where
  "bindM m f = (\<lambda>s. case m s of (Inl e, t) \<Rightarrow> (Inl e, t) | (Inr x, t) \<Rightarrow> f x t)"

definition liftM :: "'a result \<Rightarrow> ('s, 'a) eff" where
  "liftM r = (\<lambda>s. (r, s))"

definition getM :: "('s \<Rightarrow> 'a) \<Rightarrow> ('s, 'a) eff" where
  "getM f = (\<lambda>s. (Inr (f s), s))"

definition putM :: "('s \<Rightarrow> 's) \<Rightarrow> ('s, unit) eff" where
  "putM f = (\<lambda>s. (Inr (), f s))"

lemma eff_simps [simp]:
  "retM x s = (Inr x, s)"
  "throwM e s = (Inl e, s)"
  "liftM r s = (r, s)"
  "getM f s = (Inr (f s), s)"
  "putM g s = (Inr (), g s)"
  by (simp_all add: retM_def throwM_def liftM_def getM_def putM_def)

lemma bindM_apply:
  "bindM m f s = (case m s of (Inl e, t) \<Rightarrow> (Inl e, t) | (Inr x, t) \<Rightarrow> f x t)"
  by (simp add: bindM_def)

lemma bindM_simps [simp]:
  "bindM (retM x) f = f x"
  "bindM (throwM e) f = throwM e"
  "bindM (liftM (Inr x)) f = f x"
  "bindM (liftM (Inl e)) f = throwM e"
  "bindM (getM g) f s = f (g s) s"
  "bindM (putM h) k s = k () (h s)"
  by (simp_all add: bindM_def fun_eq_iff)

lemma bindM_Inr: "m s = (Inr x, t) \<Longrightarrow> bindM m f s = f x t"
  by (simp add: bindM_def)

lemma bindM_Inl: "m s = (Inl e, t) \<Longrightarrow> bindM m f s = (Inl e, t)"
  by (simp add: bindM_def)

lemma bindM_Pair [simp]:
  "bindM (Pair (Inr x)) f = f x"
  "bindM (Pair (Inl e)) f = throwM e"
  by (simp_all add: bindM_def fun_eq_iff)

text \<open>A lookup in the state that can fail.\<close>

lemma bindM_peek:
  "bindM (\<lambda>w. (f w, w)) g w = (case f w of Inl e \<Rightarrow> (Inl e, w) | Inr x \<Rightarrow> g x w)"
  by (simp add: bindM_apply)

lemma bindM_assoc: "bindM (bindM m f) g = bindM m (\<lambda>x. bindM (f x) g)"
  by (auto simp: bindM_def fun_eq_iff split: prod.splits sum.splits)

lemma bindM_const_ret [simp]: "bindM (bindM m (\<lambda>_. retM x)) (\<lambda>_. retM y) = bindM m (\<lambda>_. retM y)"
  by (auto simp: bindM_def retM_def fun_eq_iff split: prod.splits sum.splits)

lemma bindM_eq_Inr_iff:
  "bindM m f s = (Inr y, u) \<longleftrightarrow> (\<exists>x t. m s = (Inr x, t) \<and> f x t = (Inr y, u))"
  by (auto simp: bindM_def split: prod.splits sum.splits)

lemma bindM_liftM_apply:
  "bindM (liftM r) f s = (case r of Inl e \<Rightarrow> (Inl e, s) | Inr x \<Rightarrow> f x s)"
  by (cases r) simp_all

text \<open>
  \<open>keeps I m\<close>: whatever the outcome, \<open>m\<close> takes a state with \<open>I\<close> to a state with \<open>I\<close>.
  The rules in \<open>frame_intros\<close> prove it along the structure of an operation.
\<close>

definition keeps :: "('s \<Rightarrow> bool) \<Rightarrow> ('s, 'a) eff \<Rightarrow> bool" where
  "keeps I m \<longleftrightarrow> (\<forall>s. I s \<longrightarrow> I (snd (m s)))"

lemma keepsD: "keeps I m \<Longrightarrow> I s \<Longrightarrow> I (snd (m s))"
  by (simp add: keeps_def)

lemma keepsD': "keeps I m \<Longrightarrow> I s \<Longrightarrow> m s = (r, t) \<Longrightarrow> I t"
  by (metis keepsD snd_conv)

lemma keepsI: "(\<And>s. I s \<Longrightarrow> I (snd (m s))) \<Longrightarrow> keeps I m"
  by (simp add: keeps_def)

lemma keeps_pure [frame_intros]:
  "keeps I (retM x)" "keeps I (throwM e)" "keeps I (liftM r)" "keeps I (getM g)"
  by (simp_all add: keeps_def)

lemma keeps_putM [frame_intros]: "(\<And>s. I s \<Longrightarrow> I (h s)) \<Longrightarrow> keeps I (putM h)"
  by (simp add: keeps_def)

lemma keeps_bindM [frame_intros]:
  "keeps I m \<Longrightarrow> (\<And>x. keeps I (f x)) \<Longrightarrow> keeps I (bindM m f)"
  by (fastforce simp: keeps_def bindM_def split: prod.splits sum.splits dest: spec)

lemma keeps_if [frame_intros]: "keeps I m \<Longrightarrow> keeps I n \<Longrightarrow> keeps I (if b then m else n)"
  by simp

lemma keeps_case_option [frame_intros]:
  "keeps I m \<Longrightarrow> (\<And>x. keeps I (f x)) \<Longrightarrow> keeps I (case v of None \<Rightarrow> m | Some x \<Rightarrow> f x)"
  by (cases v) simp_all

lemma keeps_case_sum [frame_intros]:
  "(\<And>x. keeps I (f x)) \<Longrightarrow> (\<And>x. keeps I (g x)) \<Longrightarrow>
    keeps I (case v of Inl x \<Rightarrow> f x | Inr x \<Rightarrow> g x)"
  by (cases v) simp_all

text \<open>
  \<open>blind f m\<close>: the change \<open>f\<close> of the state makes no difference to \<open>m\<close>, which commutes with it.
\<close>

definition blind :: "('s \<Rightarrow> 's) \<Rightarrow> ('s, 'a) eff \<Rightarrow> bool" where
  "blind f m \<longleftrightarrow> (\<forall>s. m (f s) = (fst (m s), f (snd (m s))))"

lemma blindD: "blind f m \<Longrightarrow> m (f s) = (fst (m s), f (snd (m s)))"
  by (simp add: blind_def)

lemma blind_pure [blind_intros]:
  "blind f (retM x)" "blind f (throwM e)" "blind f (liftM r)"
  by (simp_all add: blind_def)

lemma blind_getM [blind_intros]: "(\<And>s. g (f s) = g s) \<Longrightarrow> blind f (getM g)"
  by (simp add: blind_def)

lemma blind_putM [blind_intros]: "(\<And>s. h (f s) = f (h s)) \<Longrightarrow> blind f (putM h)"
  by (simp add: blind_def)

lemma blind_peek [blind_intros]: "(\<And>s. g (f s) = g s) \<Longrightarrow> blind f (\<lambda>s. (g s, s))"
  by (simp add: blind_def)

lemma blind_bindM [blind_intros]:
  "blind f m \<Longrightarrow> (\<And>x. blind f (k x)) \<Longrightarrow> blind f (bindM m k)"
  by (auto simp: blind_def bindM_def split_beta split: sum.split)

lemma blind_if [blind_intros]: "blind f m \<Longrightarrow> blind f n \<Longrightarrow> blind f (if b then m else n)"
  by simp

lemma blind_case_option [blind_intros]:
  "blind f m \<Longrightarrow> (\<And>x. blind f (k x)) \<Longrightarrow> blind f (case v of None \<Rightarrow> m | Some x \<Rightarrow> k x)"
  by (cases v) simp_all

section \<open>Vectors\<close>

text \<open>\<open>xs[i]\<close>, read and assigned, \<open>xs.resize(n, v)\<close>, and \<open>std::copy\<close> out of and into a vector.\<close>

definition vec_at :: "'a list \<Rightarrow> nat \<Rightarrow> 'a result" where
  "vec_at xs i = (if i < length xs then Inr (xs ! i) else Inl (Undefined OutOfBounds))"

definition vec_set :: "'a list \<Rightarrow> nat \<Rightarrow> 'a \<Rightarrow> 'a list result" where
  "vec_set xs i v = (if i < length xs then Inr (xs[i := v]) else Inl (Undefined OutOfBounds))"

definition vec_resize :: "'a list \<Rightarrow> nat \<Rightarrow> 'a \<Rightarrow> 'a list" where
  "vec_resize xs n v = take n xs @ replicate (n - length xs) v"

text \<open>\<open>std::copy (xs.begin() + i, xs.begin() + i + n, _)\<close>: the elements read.\<close>

definition copy_from :: "'a list \<Rightarrow> nat \<Rightarrow> nat \<Rightarrow> 'a list result" where
  "copy_from xs i n =
     (if i + n \<le> length xs then Inr (take n (drop i xs)) else Inl (Undefined OutOfBounds))"

text \<open>\<open>std::copy (src.begin(), src.end(), dst.begin() + i)\<close>: the destination written.\<close>

definition copy_into :: "'a list \<Rightarrow> nat \<Rightarrow> 'a list \<Rightarrow> 'a list result" where
  "copy_into dst i src =
     (if i + length src \<le> length dst
      then Inr (take i dst @ src @ drop (i + length src) dst)
      else Inl (Undefined OutOfBounds))"

lemma vec_at_in [vec_simps]: "i < length xs \<Longrightarrow> vec_at xs i = Inr (xs ! i)"
  by (simp add: vec_at_def)

lemma vec_at_out [vec_simps]: "length xs \<le> i \<Longrightarrow> vec_at xs i = Inl (Undefined OutOfBounds)"
  by (simp add: vec_at_def)

lemma vec_set_in [vec_simps]: "i < length xs \<Longrightarrow> vec_set xs i v = Inr (xs[i := v])"
  by (simp add: vec_set_def)

lemma vec_set_out [vec_simps]: "length xs \<le> i \<Longrightarrow> vec_set xs i v = Inl (Undefined OutOfBounds)"
  by (simp add: vec_set_def)

lemma vec_set_Inr_iff:
  "vec_set xs i v = Inr ys \<longleftrightarrow> i < length xs \<and> ys = xs[i := v]"
  by (auto simp: vec_set_def)

lemma length_vec_resize [simp]: "length (vec_resize xs n v) = n"
  by (simp add: vec_resize_def)

lemma vec_resize_grow: "length xs \<le> n \<Longrightarrow> vec_resize xs n v = xs @ replicate (n - length xs) v"
  by (simp add: vec_resize_def)

lemma vec_resize_same [simp]: "vec_resize xs (length xs) v = xs"
  by (simp add: vec_resize_def)

lemma copy_into_all: "length src = length dst \<Longrightarrow> copy_into dst 0 src = Inr src"
  by (simp add: copy_into_def)

lemma copy_into_append:
  "length mid = length src \<Longrightarrow> copy_into (pre @ mid @ post) (length pre) src = Inr (pre @ src @ post)"
  by (simp add: copy_into_def)

lemma copy_into_length: "copy_into dst i src = Inr d \<Longrightarrow> length d = length dst"
  by (auto simp: copy_into_def split: if_splits)

lemma nth_update_in: "j < length xs \<Longrightarrow> xs[i := x] ! j = (if i = j then x else xs ! j)"
  by (auto simp: nth_list_update)

text \<open>A loop that reads \<open>n\<close> elements one by one from index \<open>i\<close>.\<close>

fun vec_read_loop :: "'a list \<Rightarrow> nat \<Rightarrow> nat \<Rightarrow> 'a list result" where
  "vec_read_loop xs i 0 = Inr []"
| "vec_read_loop xs i (Suc n) =
     bindE (vec_at xs i) (\<lambda>x. bindE (vec_read_loop xs (Suc i) n) (\<lambda>ys. Inr (x # ys)))"

lemma vec_read_loop_in: "i + n \<le> length xs \<Longrightarrow> vec_read_loop xs i n = Inr (take n (drop i xs))"
  by (induction n arbitrary: i) (auto simp: vec_at_def Cons_nth_drop_Suc [symmetric])

lemma vec_read_loop_out:
  "length xs < i + n \<Longrightarrow> 0 < n \<Longrightarrow> vec_read_loop xs i n = Inl (Undefined OutOfBounds)"
proof (induction n arbitrary: i)
  case 0
  then show ?case by simp
next
  case (Suc n)
  then show ?case by (cases "n = 0") (auto simp: vec_at_def)
qed

lemma vec_read_loop_cases:
  "vec_read_loop xs i n = Inl (Undefined OutOfBounds) \<or>
   (\<exists>ys. vec_read_loop xs i n = Inr ys \<and> length ys = n \<and> (0 < n \<longrightarrow> i + n \<le> length xs))"
  using vec_read_loop_in [of i n xs] vec_read_loop_out [of xs i n]
  by (cases "i + n \<le> length xs"; cases n) auto

lemma vec_read_loop_append:
  "length pre = i \<Longrightarrow> length v = n \<Longrightarrow> vec_read_loop (pre @ v @ post) i n = Inr v"
  by (simp add: vec_read_loop_in)

lemma vec_read_loop_length: "vec_read_loop xs i n = Inr ys \<Longrightarrow> length ys = n"
  by (induction n arbitrary: i ys) (auto simp: bindE_eq_Inr_iff)

end
