(* ===== verification/ArpCache.thy ===== *)
theory ArpCache
  imports Prelude
begin

text \<open>
  lib/ArpCache.h: the cache of hardware addresses, a vector searched from the front.  Its contract
  for the ARP code is the locale \<open>address_cache\<close>.
\<close>

record CacheData =
  protocolAddress :: u32
  hardwareAddress :: bytes

type_synonym ArpCache = "CacheData list"

definition cache_select :: "ArpCache \<Rightarrow> u32 \<Rightarrow> CacheData option" where
  "cache_select cache pa = find (\<lambda>c. protocolAddress c = pa) cache"

definition cache_create :: "ArpCache \<Rightarrow> CacheData \<Rightarrow> ArpCache" where
  "cache_create cache c =
     (case cache_select cache (protocolAddress c) of Some d \<Rightarrow> cache | None \<Rightarrow> cache @ [c])"

locale address_cache =
  fixes sel :: "'c \<Rightarrow> 'k \<Rightarrow> 'e option"
    and create :: "'c \<Rightarrow> 'e \<Rightarrow> 'c"
    and key :: "'e \<Rightarrow> 'k"
  assumes sel_key: "sel m k = Some e \<Longrightarrow> key e = k"
    and create_hit: "sel m (key e) = Some d \<Longrightarrow> create m e = m"
    and create_miss: "sel m (key e) = None \<Longrightarrow> sel (create m e) (key e) = Some e"
    and create_other: "k \<noteq> key e \<Longrightarrow> sel (create m e) k = sel m k"
begin

lemma sel_create:
  "sel (create m e) k = (if k = key e \<and> sel m k = None then Some e else sel m k)"
  using create_hit [of m e] create_miss [of m e] create_other [of k e m]
  by (cases "sel m (key e)") auto

lemma create_keeps: "sel m k = Some d \<Longrightarrow> sel (create m e) k = Some d"
  by (simp add: sel_create)

lemma create_known: "sel (create m e) (key e) \<noteq> None"
  by (cases "sel m (key e)") (auto simp: sel_create)

text \<open>An entry stays as it is, whatever is offered to the cache later.\<close>

lemma creates_keep: "sel m k = Some d \<Longrightarrow> sel (foldl create m es) k = Some d"
  by (induction es arbitrary: m) (auto simp: create_keeps)

lemma creates_known: "e \<in> set es \<Longrightarrow> sel (foldl create m es) (key e) \<noteq> None"
proof (induction es arbitrary: m)
  case Nil
  then show ?case by simp
next
  case (Cons x es)
  show ?case
  proof (cases "x = e")
    case True
    obtain d where "sel (create m e) (key e) = Some d" using create_known by blast
    then have "sel (foldl create (create m e) es) (key e) = Some d" by (rule creates_keep)
    with True show ?thesis by simp
  qed (use Cons in simp)
qed

text \<open>With no entry yet, the first one offered for the key is the one that stays.\<close>

lemma creates_first:
  assumes "sel m (key e) = None"
  shows "sel (foldl create m (e # es)) (key e) = Some e"
  using assms by (simp add: creates_keep create_miss)

end

lemma cache_select_key: "cache_select m k = Some e \<Longrightarrow> protocolAddress e = k"
  by (auto simp: cache_select_def find_Some_iff)

lemma cache_select_append:
  "cache_select (m @ [e]) k =
     (case cache_select m k of Some d \<Rightarrow> Some d | None \<Rightarrow> if protocolAddress e = k then Some e else None)"
  by (induction m) (simp_all add: cache_select_def)

interpretation arp: address_cache cache_select cache_create protocolAddress
  by unfold_locales
    (auto simp: cache_create_def cache_select_append dest: cache_select_key split: option.splits)

text \<open>No two entries for one protocol address.\<close>

definition cache_distinct :: "ArpCache \<Rightarrow> bool" where
  "cache_distinct cache \<longleftrightarrow> distinct (map protocolAddress cache)"

lemma cache_select_None_iff: "cache_select m k = None \<longleftrightarrow> k \<notin> protocolAddress ` set m"
  by (auto simp: cache_select_def find_None_iff)

lemma cache_create_distinct: "cache_distinct m \<Longrightarrow> cache_distinct (cache_create m e)"
  using cache_select_None_iff [of m "protocolAddress e"]
  by (auto simp: cache_distinct_def cache_create_def split: option.splits)

text \<open>
  The cache keeps the first hardware address it is offered for a protocol address: whatever is
  offered later, for this address or another, the entry stays, and the cache never has two entries
  for one address.
\<close>

theorem first_mapping_stays:
  assumes "cache_select cache (protocolAddress c) = None" "cache_distinct cache"
  shows "cache_select (foldl cache_create cache (c # cs)) (protocolAddress c) = Some c \<and>
         cache_distinct (foldl cache_create cache (c # cs))"
proof -
  have "cache_distinct m \<Longrightarrow> cache_distinct (foldl cache_create m es)" for m es
    by (induction es arbitrary: m) (simp_all add: cache_create_distinct)
  then show ?thesis using assms arp.creates_first [of cache c cs] by blast
qed

theorem first_mapping_stays_witness:
  "cache_select (foldl cache_create [] [\<lparr>protocolAddress = 1, hardwareAddress = [2]\<rparr>, \<lparr>protocolAddress = 1, hardwareAddress = [3]\<rparr>]) 1 =
     Some \<lparr>protocolAddress = 1, hardwareAddress = [2]\<rparr>"
  using first_mapping_stays [of "[]" "\<lparr>protocolAddress = 1, hardwareAddress = [2]\<rparr>" "[\<lparr>protocolAddress = 1, hardwareAddress = [3]\<rparr>]"]
  by (simp add: cache_select_def cache_distinct_def)

end
