(* ===== verification/BinaryPayload.thy ===== *)
theory BinaryPayload
  imports Prelude
begin

unbundle bit_operations_syntax

text \<open>
  lib/BinaryPayload.h: a packet is a \<open>std::vector<std::uint8_t>\<close> with big-endian reads and writes
  at a byte offset.  The struct has the one field \<open>data\<close>, so a payload is its byte list.  The
  accessors of every packet class are these operations at a fixed offset; the contract of such a
  pair of accessors is the locale \<open>payload_field\<close>, interpreted below for the three widths.
\<close>

section \<open>The operations\<close>

text \<open>\<open>write(b, offset)\<close>.\<close>

definition write_byte :: "bytes \<Rightarrow> u8 \<Rightarrow> nat \<Rightarrow> bytes result" where
  "write_byte data b offset = vec_set data offset b"

definition readUint8 :: "bytes \<Rightarrow> nat \<Rightarrow> u8 result" where
  "readUint8 data offset = vec_at data offset"

definition readUint16 :: "bytes \<Rightarrow> nat \<Rightarrow> u16 result" where
  "readUint16 data offset =
     bindE (vec_at data offset) (\<lambda>b0.
     bindE (vec_at data (offset + 1)) (\<lambda>b1.
     Inr (push_bit 8 (ucast b0) OR ucast b1)))"

definition readUint32 :: "bytes \<Rightarrow> nat \<Rightarrow> u32 result" where
  "readUint32 data offset =
     bindE (vec_at data offset) (\<lambda>b0.
     bindE (vec_at data (offset + 1)) (\<lambda>b1.
     bindE (vec_at data (offset + 2)) (\<lambda>b2.
     bindE (vec_at data (offset + 3)) (\<lambda>b3.
     Inr (push_bit 24 (ucast b0) OR push_bit 16 (ucast b1) OR push_bit 8 (ucast b2) OR ucast b3)))))"

text \<open>
  \<open>readVector(offset, len)\<close>: \<open>len\<close> is an \<open>int\<close>; a negative one becomes a huge \<open>size_t\<close> in the
  vector's constructor, which throws \<open>std::length_error\<close>.
\<close>

definition readVector :: "bytes \<Rightarrow> nat \<Rightarrow> int \<Rightarrow> bytes result" where
  "readVector data offset len =
     (if len < 0 then Inl LengthError else copy_from data offset (nat len))"

definition writeUint8 :: "bytes \<Rightarrow> u8 \<Rightarrow> nat \<Rightarrow> bytes result" where
  "writeUint8 data v offset = write_byte data v offset"

definition writeUint16 :: "bytes \<Rightarrow> u16 \<Rightarrow> nat \<Rightarrow> bytes result" where
  "writeUint16 data v offset =
     bindE (write_byte data (ucast (drop_bit 8 v)) offset) (\<lambda>data.
     write_byte data (ucast v) (offset + 1))"

definition writeUint32 :: "bytes \<Rightarrow> u32 \<Rightarrow> nat \<Rightarrow> bytes result" where
  "writeUint32 data v offset =
     bindE (write_byte data (ucast (drop_bit 24 v)) offset) (\<lambda>data.
     bindE (write_byte data (ucast (drop_bit 16 v)) (offset + 1)) (\<lambda>data.
     bindE (write_byte data (ucast (drop_bit 8 v)) (offset + 2)) (\<lambda>data.
     write_byte data (ucast v) (offset + 3))))"

text \<open>\<open>writeVector(vec, offset)\<close>: the loop assigns one element at a time.\<close>

fun writeVector :: "bytes \<Rightarrow> bytes \<Rightarrow> nat \<Rightarrow> bytes result" where
  "writeVector data [] offset = Inr data"
| "writeVector data (v # vec) offset =
     bindE (vec_set data offset v) (\<lambda>data. writeVector data vec (offset + 1))"

lemmas payload_op_defs =
  write_byte_def readUint8_def readUint16_def readUint32_def
  writeUint8_def writeUint16_def writeUint32_def

section \<open>Bytes and words\<close>

lemma word16_bytes:
  "push_bit 8 (ucast (ucast (drop_bit 8 v) :: u8)) OR ucast (ucast v :: u8) = (v :: u16)"
  by (rule bit_word_eqI) (auto simp: bit_simps not_less)

lemma word32_bytes:
  "push_bit 24 (ucast (ucast (drop_bit 24 v) :: u8)) OR push_bit 16 (ucast (ucast (drop_bit 16 v) :: u8))
     OR push_bit 8 (ucast (ucast (drop_bit 8 v) :: u8)) OR ucast (ucast v :: u8) = (v :: u32)"
proof (rule bit_word_eqI)
  fix n assume n: "n < LENGTH(32)"
  have "n < 8 \<or> (\<exists>m < 8. n = 8 + m) \<or> (\<exists>m < 8. n = 16 + m) \<or> (\<exists>m < 8. n = 24 + m)"
    using n by simp presburger
  then show "bit (push_bit 24 (ucast (ucast (drop_bit 24 v) :: u8)) OR push_bit 16 (ucast (ucast (drop_bit 16 v) :: u8))
     OR push_bit 8 (ucast (ucast (drop_bit 8 v) :: u8)) OR ucast (ucast v :: u8) :: u32) n = bit v n"
    by (elim disjE exE conjE) (simp_all add: bit_simps)
qed

text \<open>The bytes of a word in network order, and the words they spell.\<close>

definition be16 :: "u16 \<Rightarrow> bytes" where
  "be16 v = [ucast (drop_bit 8 v), ucast v]"

definition be32 :: "u32 \<Rightarrow> bytes" where
  "be32 v = [ucast (drop_bit 24 v), ucast (drop_bit 16 v), ucast (drop_bit 8 v), ucast v]"

lemma be16_join: "be16 (push_bit 8 (ucast hi) OR ucast lo) = [hi, lo]"
proof -
  have "\<not> bit (lo :: u8) (8 + n)" for n
    using bit_imp_le_length [of lo "8 + n"] by auto
  then show ?thesis
    unfolding be16_def by (auto intro!: bit_word_eqI simp: bit_simps)
qed

lemma be32_join:
  "be32 (push_bit 24 (ucast b0) OR push_bit 16 (ucast b1) OR push_bit 8 (ucast b2) OR ucast b3)
     = [b0, b1, b2, b3]"
proof -
  have "\<not> bit (b :: u8) (8 + n)" "\<not> bit (b :: u8) (16 + n)" "\<not> bit (b :: u8) (24 + n)" for b n
    using bit_imp_le_length [of b "8 + n"] bit_imp_le_length [of b "16 + n"]
      bit_imp_le_length [of b "24 + n"] by auto
  then show ?thesis
    unfolding be32_def by (auto intro!: bit_word_eqI simp: bit_simps)
qed

lemma be16_ex: "\<exists>v. [x, y] = be16 v"
  by (metis be16_join)

lemma be32_ex: "\<exists>v. [x, y, z, w] = be32 v"
  by (metis be32_join)

lemma length_be [simp]: "length (be16 v) = 2" "length (be32 w) = 4"
  by (simp_all add: be16_def be32_def)

lemma list_update_middle:
  "length pre = n \<Longrightarrow> (pre @ x # post)[n := v] = pre @ v # post"
  by auto

lemma nth_middle: "length pre = n \<Longrightarrow> (pre @ x # post) ! n = x"
  by auto

lemma readUint8_wire [wire]: "length pre = n \<Longrightarrow> readUint8 (pre @ b # post) n = Inr b"
  by (simp add: payload_op_defs vec_at_def nth_middle)

lemma readUint16_wire [wire]: "length pre = n \<Longrightarrow> readUint16 (pre @ be16 v @ post) n = Inr v"
  using nth_middle [of "pre @ [ucast (drop_bit 8 v)]" "Suc n" "ucast v" post]
  by (simp add: payload_op_defs vec_at_def be16_def nth_middle word16_bytes)

lemma writeUint8_wire [wire]:
  "length pre = n \<Longrightarrow> writeUint8 (pre @ x # post) v n = Inr (pre @ v # post)"
  by (simp add: payload_op_defs vec_set_def list_update_middle)

lemma writeUint16_wire [wire]:
  "length pre = n \<Longrightarrow> length old = 2 \<Longrightarrow>
    writeUint16 (pre @ old @ post) v n = Inr (pre @ be16 v @ post)"
  by (auto simp: payload_op_defs vec_set_def be16_def length_Suc_conv numeral_2_eq_2 list_update_append)

lemma readUint32_wire [wire]: "length pre = n \<Longrightarrow> readUint32 (pre @ be32 v @ post) n = Inr v"
  by (simp add: payload_op_defs vec_at_def be32_def nth_append word32_bytes)

lemma writeUint32_wire [wire]:
  "length pre = n \<Longrightarrow> length old = 4 \<Longrightarrow>
    writeUint32 (pre @ old @ post) v n = Inr (pre @ be32 v @ post)"
  by (auto simp: payload_op_defs vec_set_def be32_def length_Suc_conv eval_nat_numeral list_update_append)

lemma writeVector_wire [wire]:
  "length pre = n \<Longrightarrow> length old = length vec \<Longrightarrow>
    writeVector (pre @ old @ post) vec n = Inr (pre @ vec @ post)"
proof (induction vec arbitrary: pre old n)
  case Nil
  then show ?case by simp
next
  case (Cons v vec)
  then obtain x old' where old: "old = x # old'" "length old' = length vec"
    by (auto simp: length_Suc_conv)
  have "writeVector ((pre @ [v]) @ old' @ post) vec (n + 1) = Inr ((pre @ [v]) @ vec @ post)"
    using Cons.prems old by (intro Cons.IH) auto
  with Cons.prems old show ?case
    by (simp add: vec_set_def list_update_middle)
qed

lemma writeVector_copy:
  assumes "n + length vec \<le> length data"
  shows "writeVector data vec n = copy_into data n vec"
proof -
  let ?pre = "take n data" and ?old = "take (length vec) (drop n data)"
    and ?post = "drop (n + length vec) data"
  have "data = ?pre @ ?old @ ?post"
    by (metis append_take_drop_id add.commute drop_drop)
  moreover have "writeVector (?pre @ ?old @ ?post) vec n = Inr (?pre @ vec @ ?post)"
    using assms by (intro writeVector_wire) auto
  ultimately show ?thesis
    using assms by (simp add: copy_into_def)
qed

lemma writeVector_overflow:
  "vec \<noteq> [] \<Longrightarrow> length data < n + length vec \<Longrightarrow> writeVector data vec n = Inl (Undefined OutOfBounds)"
proof (induction vec arbitrary: data n)
  case Nil
  then show ?case by simp
next
  case (Cons v vec)
  show ?case
  proof (cases "n < length data")
    case True
    with Cons.prems have "vec \<noteq> []" by (cases vec) auto
    with Cons True show ?thesis by (simp add: vec_set_def)
  qed (simp add: vec_set_def)
qed

lemma readVector_wire [wire]:
  "length pre = n \<Longrightarrow> len = int (length v) \<Longrightarrow> readVector (pre @ v @ post) n len = Inr v"
  by (simp add: readVector_def copy_from_def)

section \<open>The contract of a field accessor\<close>

text \<open>
  A getter and a setter of the bytes \<open>lo\<close> to \<open>hi\<close>: both are defined exactly when the payload
  reaches \<open>hi\<close>, the getter reads only those bytes, the setter writes only those and keeps the size,
  and what is written is read back.
\<close>

locale payload_field =
  fixes get :: "bytes \<Rightarrow> 'v result"
    and set_field :: "bytes \<Rightarrow> 'v \<Rightarrow> bytes result"
    and lo :: nat and hi :: nat
  assumes get_short: "length d < hi \<Longrightarrow> get d = Inl (Undefined OutOfBounds)"
    and set_short: "length d < hi \<Longrightarrow> set_field d v = Inl (Undefined OutOfBounds)"
    and get_total: "hi \<le> length d \<Longrightarrow> \<exists>v. get d = Inr v"
    and set_total: "hi \<le> length d \<Longrightarrow> \<exists>e. set_field d v = Inr e"
    and set_len: "set_field d v = Inr e \<Longrightarrow> length e = length d"
    and get_set: "set_field d v = Inr e \<Longrightarrow> get e = Inr v"
    and set_outside: "set_field d v = Inr e \<Longrightarrow> i < lo \<or> hi \<le> i \<Longrightarrow> e ! i = d ! i"
    and get_inside: "length d = length e \<Longrightarrow> (\<And>i. lo \<le> i \<Longrightarrow> i < hi \<Longrightarrow> d ! i = e ! i) \<Longrightarrow> get d = get e"
begin

lemma get_defined_iff: "(\<exists>v. get d = Inr v) \<longleftrightarrow> hi \<le> length d"
proof
  assume "\<exists>v. get d = Inr v"
  then show "hi \<le> length d" using get_short [of d] by (cases "length d < hi") auto
qed (rule get_total)

lemma set_defined_iff: "(\<exists>e. set_field d v = Inr e) \<longleftrightarrow> hi \<le> length d"
proof
  assume "\<exists>e. set_field d v = Inr e"
  then show "hi \<le> length d" using set_short [of d v] by (cases "length d < hi") auto
qed (rule set_total)

text \<open>Writing one field does not change another one that lies outside it.\<close>

lemma frame_get:
  assumes set: "set_field d v = Inr e"
    and local: "\<And>a b. length a = length b \<Longrightarrow> (\<And>i. lo' \<le> i \<Longrightarrow> i < hi' \<Longrightarrow> a ! i = b ! i) \<Longrightarrow> get' a = get' b"
    and apart: "hi' \<le> lo \<or> hi \<le> lo'"
  shows "get' e = get' d"
proof (rule local)
  show "length e = length d" using set by (rule set_len)
  show "e ! i = d ! i" if "lo' \<le> i" "i < hi'" for i
    using set apart that by (intro set_outside) auto
qed

end

text \<open>Two accessors with disjoint bytes do not see each other's writes.\<close>

locale disjoint_fields =
  f: payload_field get set_field lo hi + g: payload_field get' set_field' lo' hi'
  for get :: "bytes \<Rightarrow> 'v result" and set_field lo hi
    and get' :: "bytes \<Rightarrow> 'w result" and set_field' lo' hi' +
  assumes apart: "hi \<le> lo' \<or> hi' \<le> lo"
begin

lemma get_after_other_set:
  assumes "set_field' d w = Inr e"
  shows "get e = get d"
proof (rule g.frame_get [OF assms])
  show "get a = get b" if "length a = length b" "\<And>i. lo \<le> i \<Longrightarrow> i < hi \<Longrightarrow> a ! i = b ! i" for a b
    using that by (rule f.get_inside)
qed (use apart in blast)

lemma other_get_after_set:
  assumes "set_field d v = Inr e"
  shows "get' e = get' d"
proof (rule f.frame_get [OF assms])
  show "get' a = get' b" if "length a = length b" "\<And>i. lo' \<le> i \<Longrightarrow> i < hi' \<Longrightarrow> a ! i = b ! i" for a b
    using that by (rule g.get_inside)
qed (use apart in blast)

lemma both_read_back:
  "set_field d v = Inr e \<Longrightarrow> set_field' e w = Inr e' \<Longrightarrow> get e' = Inr v \<and> get' e' = Inr w"
  using get_after_other_set [of e w e'] f.get_set [of d v e] g.get_set [of e w e'] by simp

end

lemma readUint16_eq:
  "readUint16 d off =
     (if off + 2 \<le> length d then Inr (push_bit 8 (ucast (d ! off)) OR ucast (d ! (off + 1)))
      else Inl (Undefined OutOfBounds))"
  by (auto simp: readUint16_def vec_at_def)

lemma readUint32_eq:
  "readUint32 d off =
     (if off + 4 \<le> length d
      then Inr (push_bit 24 (ucast (d ! off)) OR push_bit 16 (ucast (d ! (off + 1)))
                  OR push_bit 8 (ucast (d ! (off + 2))) OR ucast (d ! (off + 3)))
      else Inl (Undefined OutOfBounds))"
  by (auto simp: readUint32_def vec_at_def)

lemma writeUint16_eq:
  "writeUint16 d v off =
     (if off + 2 \<le> length d then Inr (d[off := ucast (drop_bit 8 v), off + 1 := ucast v])
      else Inl (Undefined OutOfBounds))"
  by (auto simp: payload_op_defs vec_set_def)

lemma writeUint32_eq:
  "writeUint32 d v off =
     (if off + 4 \<le> length d
      then Inr (d[off := ucast (drop_bit 24 v), off + 1 := ucast (drop_bit 16 v),
                  off + 2 := ucast (drop_bit 8 v), off + 3 := ucast v])
      else Inl (Undefined OutOfBounds))"
  by (auto simp: payload_op_defs vec_set_def)

lemmas payload_op_eqs = readUint16_eq readUint32_eq writeUint16_eq writeUint32_eq

interpretation u8f: payload_field "\<lambda>d. readUint8 d off" "\<lambda>d v. writeUint8 d v off" off "off + 1"
  for off :: nat
  by unfold_locales (auto simp: payload_op_defs vec_at_def vec_set_def split: if_splits)

interpretation u16f: payload_field "\<lambda>d. readUint16 d off" "\<lambda>d v. writeUint16 d v off" off "off + 2"
  for off :: nat
proof unfold_locales
  fix d e :: bytes and v :: u16
  assume "writeUint16 d v off = Inr e"
  then show "readUint16 e off = Inr v"
    by (auto simp: payload_op_eqs word16_bytes split: if_splits)
qed (auto simp: payload_op_eqs split: if_splits)

interpretation u32f: payload_field "\<lambda>d. readUint32 d off" "\<lambda>d v. writeUint32 d v off" off "off + 4"
  for off :: nat
proof unfold_locales
  fix d e :: bytes and v :: u32
  assume "writeUint32 d v off = Inr e"
  then show "readUint32 e off = Inr v"
    by (simp add: payload_op_eqs split: if_splits) (clarsimp simp: word32_bytes)
qed (auto simp: payload_op_eqs split: if_splits)

interpretation u16_u16: disjoint_fields
  "\<lambda>d. readUint16 d off" "\<lambda>d v. writeUint16 d v off" off "off + 2"
  "\<lambda>d. readUint16 d (off + 2 + k)" "\<lambda>d v. writeUint16 d v (off + 2 + k)" "off + 2 + k" "off + 2 + k + 2"
  for off k :: nat
  by unfold_locales auto

end
