(* ===== verification/StdText.thy ===== *)
theory StdText
  imports Prelude
begin

text \<open>
  The parts of the C++ standard library's text handling that the code uses: \<open>std::format\<close> with
  \<open>{}\<close> and \<open>{:02x}\<close> / \<open>{:04x}\<close> on unsigned integers, \<open>std::views::split\<close> on one character and
  \<open>std::from_chars\<close>, each with the lemma that parsing undoes printing.
\<close>

section \<open>Printing numbers\<close>

definition digit_char :: "nat \<Rightarrow> char" where
  "digit_char d = (if d < 10 then char_of (48 + d) else char_of (87 + d))"

fun nat_str :: "nat \<Rightarrow> nat \<Rightarrow> string" where
  "nat_str b n =
     (if n < b \<or> b < 2 then [digit_char n] else nat_str b (n div b) @ [digit_char (n mod b)])"

declare nat_str.simps [simp del]

text \<open>\<open>std::format("{}", n)\<close> and the zero-padded hexadecimal of a given width.\<close>

definition fmt_dec :: "nat \<Rightarrow> string" where
  "fmt_dec n = nat_str 10 n"

definition fmt_hex :: "nat \<Rightarrow> nat \<Rightarrow> string" where
  "fmt_hex width n = (let s = nat_str 16 n in replicate (width - length s) CHR ''0'' @ s)"

section \<open>Splitting and parsing\<close>

fun split_aux :: "char \<Rightarrow> string \<Rightarrow> string list" where
  "split_aux sep [] = [[]]"
| "split_aux sep (c # cs) =
     (if c = sep then [] # split_aux sep cs
      else (case split_aux sep cs of [] \<Rightarrow> [[c]] | w # ws \<Rightarrow> (c # w) # ws))"

text \<open>\<open>str | std::views::split(sep)\<close>: an empty string has no part, a trailing separator an empty one.\<close>

definition views_split :: "char \<Rightarrow> string \<Rightarrow> string list" where
  "views_split sep s = (if s = [] then [] else split_aux sep s)"

definition digit_val :: "nat \<Rightarrow> char \<Rightarrow> nat option" where
  "digit_val b c =
     (let k = of_char c :: nat;
          v = (if 48 \<le> k \<and> k \<le> 57 then k - 48
               else if 97 \<le> k \<and> k \<le> 122 then k - 87
               else if 65 \<le> k \<and> k \<le> 90 then k - 55 else b)
      in if v < b then Some v else None)"

text \<open>The longest prefix of digits, as digit values.\<close>

fun digits_prefix :: "nat \<Rightarrow> string \<Rightarrow> nat list" where
  "digits_prefix b [] = []"
| "digits_prefix b (c # cs) =
     (case digit_val b c of None \<Rightarrow> [] | Some d \<Rightarrow> d # digits_prefix b cs)"

definition digits_value :: "nat \<Rightarrow> nat list \<Rightarrow> nat" where
  "digits_value b ds = foldl (\<lambda>a d. a * b + d) 0 ds"

text \<open>
  \<open>std::from_chars\<close> into an unsigned variable of 32 bits and into an \<open>int\<close>: \<open>None\<close> is an error
  code (no digit, or out of range), on which the variable keeps the value it had.  Characters
  after the digits are left unread.
\<close>

definition from_chars_u32 :: "nat \<Rightarrow> string \<Rightarrow> u32 option" where
  "from_chars_u32 b s =
     (let ds = digits_prefix b s; v = digits_value b ds
      in if ds = [] \<or> 2 ^ 32 \<le> v then None else Some (of_nat v))"

definition from_chars_int :: "nat \<Rightarrow> string \<Rightarrow> int option" where
  "from_chars_int b s =
     (let neg = (s \<noteq> [] \<and> hd s = CHR ''-'');
          ds = digits_prefix b (if neg then tl s else s);
          v = (if neg then - int (digits_value b ds) else int (digits_value b ds))
      in if ds = [] \<or> v < - (2 ^ 31) \<or> 2 ^ 31 \<le> v then None else Some v)"

section \<open>Parsing undoes printing\<close>

lemma digit_val_char: "d < b \<Longrightarrow> b \<le> 16 \<Longrightarrow> digit_val b (digit_char d) = Some d"
  by (simp add: digit_val_def digit_char_def Let_def)

definition all_digits :: "nat \<Rightarrow> string \<Rightarrow> bool" where
  "all_digits b s \<longleftrightarrow> (\<forall>c \<in> set s. digit_val b c \<noteq> None)"

lemma digits_prefix_append:
  "all_digits b s \<Longrightarrow> digits_prefix b (s @ t) = digits_prefix b s @ digits_prefix b t"
  by (induction s) (auto simp: all_digits_def)

lemma nat_str_step: "b \<le> n \<Longrightarrow> 2 \<le> b \<Longrightarrow> nat_str b n = nat_str b (n div b) @ [digit_char (n mod b)]"
  by (simp add: nat_str.simps [of b n])

lemma nat_str_small: "n < b \<Longrightarrow> nat_str b n = [digit_char n]"
  by (simp add: nat_str.simps [of b n])

lemma nat_str_nonempty [simp]: "nat_str b n \<noteq> []"
  by (subst nat_str.simps) simp

lemma nat_str_parse:
  assumes "2 \<le> b" "b \<le> 16"
  shows "all_digits b (nat_str b n) \<and> digits_prefix b (nat_str b n) \<noteq> [] \<and>
         digits_value b (digits_prefix b (nat_str b n)) = n"
proof (induction n rule: less_induct)
  case (less n)
  show ?case
  proof (cases "n < b")
    case True
    then show ?thesis
      using assms by (simp add: nat_str_small all_digits_def digit_val_char digits_value_def)
  next
    case False
    have d: "digit_val b (digit_char (n mod b)) = Some (n mod b)"
      using assms by (intro digit_val_char) auto
    have "n div b < n" using False assms by (intro div_less_dividend) auto
    from less.IH [OF this] False assms d show ?thesis
      by (simp add: nat_str_step digits_prefix_append)
         (auto simp: all_digits_def digits_value_def)
  qed
qed

lemma length_nat_str_le: "n < b ^ k \<Longrightarrow> 0 < k \<Longrightarrow> 2 \<le> b \<Longrightarrow> length (nat_str b n) \<le> k"
proof (induction k arbitrary: n)
  case (Suc k)
  show ?case
  proof (cases "n < b \<or> k = 0")
    case True
    then show ?thesis using Suc.prems by (auto simp: nat_str_small)
  next
    case False
    have "n div b < b ^ k"
      using Suc.prems by (simp add: less_mult_imp_div_less mult.commute)
    with Suc False show ?thesis by (simp add: nat_str_step)
  qed
qed simp

lemma from_chars_u32_dec: "n < 2 ^ 32 \<Longrightarrow> from_chars_u32 10 (fmt_dec n) = Some (of_nat n)"
  using nat_str_parse [of 10 n] by (simp add: from_chars_u32_def fmt_dec_def Let_def)

lemma digits_value_zeros: "digits_value b (replicate k 0 @ ds) = digits_value b ds"
  by (induction k) (simp_all add: digits_value_def)

lemma fmt_hex_parse:
  "all_digits 16 (fmt_hex w n) \<and> digits_prefix 16 (fmt_hex w n) \<noteq> [] \<and>
   digits_value 16 (digits_prefix 16 (fmt_hex w n)) = n"
proof -
  have z: "digit_val 16 CHR ''0'' = Some 0"
    by (simp add: digit_val_def)
  have zero: "all_digits 16 (replicate k CHR ''0'')"
    "digits_prefix 16 (replicate k CHR ''0'') = replicate k 0" for k
    by (induction k) (simp_all add: all_digits_def z)
  then show ?thesis
    using nat_str_parse [of 16 n]
    by (simp add: fmt_hex_def Let_def digits_prefix_append digits_value_zeros)
       (auto simp: all_digits_def z)
qed

lemma not_minus_if_digits: "all_digits b s \<Longrightarrow> b \<le> 16 \<Longrightarrow> s \<noteq> [] \<Longrightarrow> hd s \<noteq> CHR ''-''"
  by (cases s) (auto simp: all_digits_def digit_val_def)

lemma fmt_hex_nonempty [simp]: "fmt_hex w n \<noteq> []"
  by (simp add: fmt_hex_def Let_def)

lemma from_chars_int_hex: "n < 2 ^ 31 \<Longrightarrow> from_chars_int 16 (fmt_hex w n) = Some (int n)"
  using fmt_hex_parse [of w n] not_minus_if_digits [of 16 "fmt_hex w n"]
  by (simp add: from_chars_int_def Let_def)

text \<open>Joining digit strings with a separator and splitting them again.\<close>

lemma split_aux_plain: "sep \<notin> set w \<Longrightarrow> split_aux sep w = [w]"
  by (induction w) auto

lemma split_aux_join: "sep \<notin> set w \<Longrightarrow> split_aux sep (w @ sep # t) = w # split_aux sep t"
  by (induction w) auto

lemma all_digits_no_sep:
  "all_digits b s \<Longrightarrow> digit_val b sep = None \<Longrightarrow> sep \<notin> set s"
  by (auto simp: all_digits_def)

lemma dot_notin_dec [simp]: "CHR ''.'' \<notin> set (fmt_dec n)"
  using nat_str_parse [of 10 n]
  by (intro all_digits_no_sep [of 10]) (auto simp: fmt_dec_def digit_val_def)

lemma colon_notin_hex [simp]: "CHR '':'' \<notin> set (fmt_hex w n)"
  using fmt_hex_parse [of w n] by (intro all_digits_no_sep [of 16]) (auto simp: digit_val_def)

end
