(* ===== verification/EtherFrame.thy ===== *)
theory EtherFrame
  imports BinaryPayload StdText
begin

unbundle bit_operations_syntax

text \<open>
  lib/EtherFrame.h and the address functions of lib/EtherDevice.cpp: Ethernet frames as payloads of
  a 14-byte header and a body, and hardware addresses as text.  A \<open>std::array\<close> of six bytes is a
  byte list of length six.
\<close>

section \<open>Constants\<close>

definition ETHER_ADDR_LEN :: nat where "ETHER_ADDR_LEN = 6"
definition IP_ADDR_LEN :: nat where "IP_ADDR_LEN = 4"
definition ETHER_TYPE_IP :: u16 where "ETHER_TYPE_IP = 0x0800"
definition ETHER_TYPE_ARP :: u16 where "ETHER_TYPE_ARP = 0x0806"

definition EtherFrame_headerSize :: nat where "EtherFrame_headerSize = ETHER_ADDR_LEN * 2 + 2"
definition frameMaxSize :: nat where "frameMaxSize = 1514"
definition frameMinSize :: nat where "frameMinSize = 60"
definition payloadMaxSize :: nat where "payloadMaxSize = frameMaxSize - EtherFrame_headerSize"
definition payloadMinSize :: nat where "payloadMinSize = frameMinSize - EtherFrame_headerSize"

lemmas ether_consts =
  ETHER_ADDR_LEN_def IP_ADDR_LEN_def ETHER_TYPE_IP_def ETHER_TYPE_ARP_def
  EtherFrame_headerSize_def frameMaxSize_def frameMinSize_def

section \<open>Addresses as text\<close>

text \<open>\<open>addressToString\<close>: six two-digit hexadecimal numbers with colons.\<close>

definition hex2 :: "u8 \<Rightarrow> string" where
  "hex2 b = fmt_hex 2 (unat b)"

definition addressToString :: "bytes \<Rightarrow> string result" where
  "addressToString addr =
     bindE (vec_at addr 0) (\<lambda>a0. bindE (vec_at addr 1) (\<lambda>a1. bindE (vec_at addr 2) (\<lambda>a2.
     bindE (vec_at addr 3) (\<lambda>a3. bindE (vec_at addr 4) (\<lambda>a4. bindE (vec_at addr 5) (\<lambda>a5.
     Inr (hex2 a0 @ '':'' @ hex2 a1 @ '':'' @ hex2 a2 @ '':'' @ hex2 a3 @ '':'' @ hex2 a4 @ '':'' @ hex2 a5)))))))"

text \<open>\<open>stringToAddress\<close>: the loop over the parts writes into an array of six zero bytes.\<close>

fun address_parts_loop :: "string \<Rightarrow> string list \<Rightarrow> nat \<Rightarrow> bytes \<Rightarrow> bytes result" where
  "address_parts_loop str [] idx ar = Inr ar"
| "address_parts_loop str (w # ws) idx ar =
     (let value = from_chars_int 16 w
      in if ETHER_ADDR_LEN \<le> idx then Inl (RuntimeError (''invalid format '' @ str))
         else case value of
           None \<Rightarrow> Inl (Undefined IndeterminateRead)
         | Some v \<Rightarrow>
             bindE (vec_set ar idx (word_of_int v)) (\<lambda>ar. address_parts_loop str ws (idx + 1) ar))"

definition stringToAddress :: "string \<Rightarrow> bytes result" where
  "stringToAddress str =
     address_parts_loop str (views_split CHR '':'' str) 0 (replicate ETHER_ADDR_LEN 0)"

section \<open>Frames\<close>

text \<open>The constructors: a copy of the data, and a header of zeros.\<close>

definition EtherFrame_of :: "bytes \<Rightarrow> bytes result" where
  "EtherFrame_of d = copy_into (replicate (length d) 0) 0 d"

definition EtherFrame_new :: bytes where
  "EtherFrame_new = replicate EtherFrame_headerSize 0"

definition readEtherAddr :: "bytes \<Rightarrow> nat \<Rightarrow> bytes result" where
  "readEtherAddr data offset = vec_read_loop data offset ETHER_ADDR_LEN"

definition writeEtherAddr :: "bytes \<Rightarrow> bytes \<Rightarrow> nat \<Rightarrow> bytes result" where
  "writeEtherAddr data addr offset =
     bindE (guardE (length addr = ETHER_ADDR_LEN) (RuntimeError ''invalid ether address length'')) (\<lambda>_.
     let data = (if length data < offset + ETHER_ADDR_LEN
                 then vec_resize data (offset + ETHER_ADDR_LEN) 0 else data)
     in writeVector data addr offset)"

definition dstAddr :: "bytes \<Rightarrow> bytes result" where
  "dstAddr data = readEtherAddr data 0"

definition setDstAddr :: "bytes \<Rightarrow> bytes \<Rightarrow> bytes result" where
  "setDstAddr data addr = writeEtherAddr data addr 0"

definition srcAddr :: "bytes \<Rightarrow> bytes result" where
  "srcAddr data = readEtherAddr data 6"

text \<open>The overload for an array copies it into a vector of six bytes first.\<close>

definition setSrcAddr :: "bytes \<Rightarrow> bytes \<Rightarrow> bytes result" where
  "setSrcAddr data addr =
     bindE (copy_into (replicate ETHER_ADDR_LEN 0) 0 addr) (\<lambda>addrVec. writeEtherAddr data addrVec 6)"

text \<open>The overload for a vector, which nothing calls, writes it as it is; and the private \<open>addressToString\<close>.\<close>

definition setSrcAddr_vector :: "bytes \<Rightarrow> bytes \<Rightarrow> bytes result" where
  "setSrcAddr_vector data addr = writeEtherAddr data addr 6"

definition EtherFrame_addressToString :: "bytes \<Rightarrow> string result" where
  "EtherFrame_addressToString addr =
     bindE (vec_at addr 0) (\<lambda>a0. bindE (vec_at addr 1) (\<lambda>a1. bindE (vec_at addr 2) (\<lambda>a2.
     bindE (vec_at addr 3) (\<lambda>a3. bindE (vec_at addr 4) (\<lambda>a4. bindE (vec_at addr 5) (\<lambda>a5.
     Inr (hex2 a0 @ '':'' @ hex2 a1 @ '':'' @ hex2 a2 @ '':'' @ hex2 a3 @ '':'' @ hex2 a4 @ '':'' @ hex2 a5)))))))"

definition etherType :: "bytes \<Rightarrow> u16 result" where
  "etherType data = readUint16 data 12"

definition setEtherType :: "bytes \<Rightarrow> u16 \<Rightarrow> bytes result" where
  "setEtherType data type = writeUint16 data type 12"

definition body :: "bytes \<Rightarrow> bytes result" where
  "body data = (let len = int (length data) - 14 in readVector data 14 len)"

definition setBody :: "bytes \<Rightarrow> bytes \<Rightarrow> bytes result" where
  "setBody data b =
     bindE (writeVector (vec_resize data (length b + EtherFrame_headerSize) 0) b EtherFrame_headerSize) (\<lambda>data.
     Inr (if length data < frameMinSize then vec_resize data frameMinSize 0 else data))"

text \<open>\<open>info\<close>: the addresses are accumulated with a colon before every byte but the first.\<close>

definition hex_accumulate :: "bytes \<Rightarrow> string" where
  "hex_accumulate addr = foldl (\<lambda>acc x. if 0 < length acc then acc @ '':'' @ hex2 x else hex2 x) '''' addr"

definition EtherFrame_info :: "bytes \<Rightarrow> string result" where
  "EtherFrame_info data =
     bindE (srcAddr data) (\<lambda>src.
     bindE (dstAddr data) (\<lambda>dst.
     bindE (etherType data) (\<lambda>type.
     Inr (''src='' @ hex_accumulate src @ '', dst='' @ hex_accumulate dst @
          '', type='' @ fmt_hex 4 (unat type) @ '', size='' @ fmt_dec (length data)))))"

section \<open>Layout\<close>

text \<open>The frame as the wire has it.\<close>

definition ether_layout :: "bytes \<Rightarrow> bytes \<Rightarrow> u16 \<Rightarrow> bytes \<Rightarrow> bytes" where
  "ether_layout dst src type payload = dst @ src @ be16 type @ payload"

definition ether_pad :: "bytes \<Rightarrow> bytes" where
  "ether_pad payload = payload @ replicate (46 - length payload) 0"

lemma length_ether_layout [simp]:
  "length (ether_layout dst src type payload) = length dst + length src + 2 + length payload"
  by (simp add: ether_layout_def)

lemma drop_ether_layout: "length dst = 6 \<Longrightarrow> length src = 6 \<Longrightarrow> drop 14 (ether_layout dst src type payload) = payload"
  by (simp add: ether_layout_def be16_def)

text \<open>The two overloads agree on an address, and the two printers on everything.\<close>

lemma setSrcAddr_overloads: "length addr = 6 \<Longrightarrow> setSrcAddr_vector data addr = setSrcAddr data addr"
  by (simp add: setSrcAddr_vector_def setSrcAddr_def copy_into_all ether_consts)

lemma addressToString_overloads: "EtherFrame_addressToString = addressToString"
  by (simp add: fun_eq_iff EtherFrame_addressToString_def addressToString_def)

text \<open>The payload sizes are those of a padded and of the largest frame.\<close>

lemma payload_sizes: "payloadMinSize = 46" "payloadMaxSize = 1500"
  by (simp_all add: payloadMinSize_def payloadMaxSize_def ether_consts)

lemma EtherFrame_of_copy [simp]: "EtherFrame_of d = Inr d"
  by (simp add: EtherFrame_of_def copy_into_all)

lemma ether_read_layout [wire]:
  assumes "length dst = 6" "length src = 6"
  shows "dstAddr (ether_layout dst src type payload) = Inr dst"
    and "srcAddr (ether_layout dst src type payload) = Inr src"
    and "etherType (ether_layout dst src type payload) = Inr type"
    and "body (ether_layout dst src type payload) = Inr payload"
proof -
  show "dstAddr (ether_layout dst src type payload) = Inr dst"
    using vec_read_loop_append [of "[]" 0 dst 6] assms
    by (simp add: dstAddr_def readEtherAddr_def ether_layout_def ether_consts)
  show "srcAddr (ether_layout dst src type payload) = Inr src"
    using vec_read_loop_append [of dst 6 src 6] assms
    by (simp add: srcAddr_def readEtherAddr_def ether_layout_def ether_consts)
  show "etherType (ether_layout dst src type payload) = Inr type"
    using readUint16_wire [of "dst @ src" 12 type payload] assms
    by (simp add: etherType_def ether_layout_def)
  show "body (ether_layout dst src type payload) = Inr payload"
    using readVector_wire [of "dst @ src @ be16 type" 14 "int (length payload)" payload "[]"] assms
    by (simp add: body_def ether_layout_def)
qed

lemma writeEtherAddr_layout:
  "length addr = 6 \<Longrightarrow> length pre = n \<Longrightarrow> length old = 6 \<Longrightarrow>
    writeEtherAddr (pre @ old @ post) addr n = Inr (pre @ addr @ post)"
  using writeVector_wire [of pre n old addr post]
  by (simp add: writeEtherAddr_def ether_consts Let_def)

lemma ether_write_layout [wire]:
  assumes "length dst = 6" "length src = 6"
  shows "length a = 6 \<Longrightarrow> setDstAddr (ether_layout dst src type payload) a = Inr (ether_layout a src type payload)"
    and "length a = 6 \<Longrightarrow> setSrcAddr (ether_layout dst src type payload) a = Inr (ether_layout dst a type payload)"
    and "setEtherType (ether_layout dst src type payload) t = Inr (ether_layout dst src t payload)"
proof -
  show "setDstAddr (ether_layout dst src type payload) a = Inr (ether_layout a src type payload)"
    if "length a = 6"
    using writeEtherAddr_layout [of a "[]" 0 dst] assms that
    by (simp add: setDstAddr_def ether_layout_def)
  show "setSrcAddr (ether_layout dst src type payload) a = Inr (ether_layout dst a type payload)"
    if "length a = 6"
    using writeEtherAddr_layout [of a dst 6 src] assms that
    by (simp add: setSrcAddr_def ether_layout_def copy_into_all ether_consts)
  show "setEtherType (ether_layout dst src type payload) t = Inr (ether_layout dst src t payload)"
    using writeUint16_wire [of "dst @ src" 12 "be16 type" payload t] assms
    by (simp add: setEtherType_def ether_layout_def)
qed

lemma setBody_layout [wire]:
  assumes "length dst = 6" "length src = 6"
  shows "setBody (ether_layout dst src type []) b = Inr (ether_layout dst src type (ether_pad b))"
proof -
  let ?h = "dst @ src @ be16 type"
  have "vec_resize ?h (length b + 14) 0 = ?h @ replicate (length b) 0 @ []"
    using assms by (simp add: vec_resize_grow)
  then have "writeVector (vec_resize ?h (length b + 14) 0) b 14 = Inr (?h @ b)"
    using writeVector_wire [of ?h 14 "replicate (length b) 0" b "[]"] assms by simp
  then show ?thesis
    using assms
    by (auto simp: setBody_def ether_layout_def ether_consts vec_resize_grow ether_pad_def)
qed

lemma EtherFrame_new_layout: "EtherFrame_new = ether_layout (replicate 6 0) (replicate 6 0) 0 []"
  by (simp add: EtherFrame_new_def ether_layout_def be16_def ether_consts eval_nat_numeral)

lemma EtherFrame_info_total:
  "14 \<le> length data \<Longrightarrow> \<exists>s. EtherFrame_info data = Inr s"
  by (simp add: EtherFrame_info_def srcAddr_def dstAddr_def readEtherAddr_def vec_read_loop_in
      etherType_def readUint16_eq ether_consts)

text \<open>A frame of fewer than 14 bytes: reading its type already leaves the buffer.\<close>

lemma etherType_short: "length data < 14 \<Longrightarrow> etherType data = Inl (Undefined OutOfBounds)"
  by (simp add: etherType_def u16f.get_short)

lemma ether_layout_cases:
  assumes "14 \<le> length data"
  obtains dst src type payload where
    "data = ether_layout dst src type payload" "length dst = 6" "length src = 6"
proof -
  obtain type where t: "readUint16 data 12 = Inr type"
    using u16f.get_total [of 12 data] assms by auto
  have "be16 type = take 2 (drop 12 data)"
  proof -
    have "type = push_bit 8 (ucast (data ! 12)) OR ucast (data ! 13)"
      using t assms by (simp add: readUint16_eq)
    then have "be16 type = [data ! 12, data ! 13]"
      by (simp only: be16_join)
    also have "\<dots> = take 2 (drop 12 data)"
      using assms by (simp add: Cons_nth_drop_Suc [symmetric] eval_nat_numeral)
    finally show ?thesis .
  qed
  then have "data = ether_layout (take 6 data) (take 6 (drop 6 data)) type (drop 14 data)"
    unfolding ether_layout_def by (simp flip: take_add append_assoc)
  with assms show thesis by (intro that) auto
qed

section \<open>Address text round trip\<close>

lemma length_6_cases:
  assumes "length (addr :: 'a list) = 6"
  obtains a0 a1 a2 a3 a4 a5 where "addr = [a0, a1, a2, a3, a4, a5]"
  using assms by (auto simp: length_Suc_conv eval_nat_numeral)

lemma replicate_six: "replicate 6 x = [x, x, x, x, x, x]"
  by (simp add: eval_nat_numeral)

lemma from_chars_hex2 [simp]: "from_chars_int 16 (hex2 b) = Some (int (unat b))"
proof -
  have "unat b < 2147483648" using unat_u8_lt [of b] by linarith
  then show ?thesis by (simp add: hex2_def from_chars_int_hex)
qed

lemma views_split_hex:
  "views_split CHR '':'' (hex2 a0 @ '':'' @ hex2 a1 @ '':'' @ hex2 a2 @ '':'' @ hex2 a3 @ '':'' @ hex2 a4 @ '':'' @ hex2 a5)
     = [hex2 a0, hex2 a1, hex2 a2, hex2 a3, hex2 a4, hex2 a5]"
  by (simp add: views_split_def hex2_def split_aux_join split_aux_plain)

lemma mac_text_inverse:
  assumes "length addr = 6"
  shows "bindE (addressToString addr) stringToAddress = Inr addr"
proof -
  obtain a0 a1 a2 a3 a4 a5 where addr: "addr = [a0, a1, a2, a3, a4, a5]"
    using assms by (rule length_6_cases)
  show ?thesis
    using views_split_hex [of a0 a1 a2 a3 a4 a5]
    by (simp add: addr addressToString_def vec_at_def stringToAddress_def ether_consts vec_set_def
        replicate_six)
qed

text \<open>Parsing the text of a hardware address gives the address back.\<close>

theorem mac_text_roundtrip:
  assumes "length addr = 6"
  shows "bindE (addressToString addr) stringToAddress = Inr addr"
  using assms by (rule mac_text_inverse)

theorem mac_text_roundtrip_witness:
  "bindE (addressToString [0x00, 0x00, 0x5e, 0x00, 0x53, 0x01]) stringToAddress =
     Inr [0x00, 0x00, 0x5e, 0x00, 0x53, 0x01]"
  by (rule mac_text_roundtrip) simp

end
