(* ===== verification/IpUtils.thy ===== *)
theory IpUtils
  imports StdText
begin

unbundle bit_operations_syntax

text \<open>
  The address functions of lib/IpUtils.h: dotted-quad text to a 32-bit address and back, and an
  address as four bytes.
\<close>

text \<open>
  \<open>Ipv4strToUint32\<close>: the loop over the parts.  \<open>value\<close> is declared without an initial value, so a
  part that \<open>from_chars\<close> does not convert is read indeterminate; the part count is checked before
  the value is used, and only against more than four parts.
\<close>

fun ipv4_parts_loop :: "string \<Rightarrow> string list \<Rightarrow> nat \<Rightarrow> u32 \<Rightarrow> u32 result" where
  "ipv4_parts_loop str [] idx ret = Inr ret"
| "ipv4_parts_loop str (w # ws) idx ret =
     (let value = from_chars_u32 10 w
      in if 4 \<le> idx then Inl (RuntimeError (''invalid format '' @ str))
         else case value of
           None \<Rightarrow> Inl (Undefined IndeterminateRead)
         | Some v \<Rightarrow> ipv4_parts_loop str ws (idx + 1) (push_bit 8 ret OR v))"

definition Ipv4strToUint32 :: "string \<Rightarrow> u32 result" where
  "Ipv4strToUint32 str = ipv4_parts_loop str (views_split CHR ''.'' str) 0 0"

definition Uint32ToIpv4str :: "u32 \<Rightarrow> string" where
  "Uint32ToIpv4str addr =
     fmt_dec (unat (drop_bit 24 addr AND 255)) @ ''.'' @ fmt_dec (unat (drop_bit 16 addr AND 255)) @ ''.'' @
     fmt_dec (unat (drop_bit 8 addr AND 255)) @ ''.'' @ fmt_dec (unat (addr AND 255))"

definition Uint32ToVector :: "u32 \<Rightarrow> bytes" where
  "Uint32ToVector addr =
     [ucast (drop_bit 24 addr), ucast (drop_bit 16 addr), ucast (drop_bit 8 addr), ucast addr]"

section \<open>Correctness\<close>

lemma and_255: "(x :: u32) AND 255 = take_bit 8 x"
  by (simp add: take_bit_eq_mask mask_eq_exp_minus_1)

lemma octets_join:
  "push_bit 8 (push_bit 8 (push_bit 8 (take_bit 8 (drop_bit 24 a)) OR take_bit 8 (drop_bit 16 a))
     OR take_bit 8 (drop_bit 8 a)) OR take_bit 8 a = (a :: u32)"
proof (rule bit_word_eqI)
  fix n assume n: "n < LENGTH(32)"
  have "n < 8 \<or> (\<exists>m < 8. n = 8 + m) \<or> (\<exists>m < 8. n = 16 + m) \<or> (\<exists>m < 8. n = 24 + m)"
    using n by simp presburger
  then show "bit (push_bit 8 (push_bit 8 (push_bit 8 (take_bit 8 (drop_bit 24 a)) OR take_bit 8 (drop_bit 16 a))
     OR take_bit 8 (drop_bit 8 a)) OR take_bit 8 a) n = bit a n"
    by (elim disjE exE conjE) (simp_all add: bit_or_iff bit_push_bit_iff bit_take_bit_iff bit_drop_bit_eq)
qed

lemma views_split_quad:
  "views_split CHR ''.'' (Uint32ToIpv4str a) =
     [fmt_dec (unat (drop_bit 24 a AND 255)), fmt_dec (unat (drop_bit 16 a AND 255)),
      fmt_dec (unat (drop_bit 8 a AND 255)), fmt_dec (unat (a AND 255))]"
  by (simp add: views_split_def Uint32ToIpv4str_def split_aux_join split_aux_plain)

lemma quad_parse:
  "ipv4_parts_loop str [fmt_dec (unat a), fmt_dec (unat b), fmt_dec (unat c), fmt_dec (unat d)] 0 0 =
     Inr (push_bit 8 (push_bit 8 (push_bit 8 a OR b) OR c) OR d)"
  by (simp add: from_chars_u32_dec del: push_bit_or)

lemma ipv4_text_inverse: "Ipv4strToUint32 (Uint32ToIpv4str a) = Inr a"
  by (simp only: Ipv4strToUint32_def views_split_quad quad_parse and_255 octets_join)

text \<open>More than four parts: an exception, if the first four parts convert.\<close>

lemma ipv4_parts_overflow:
  "(\<forall>w \<in> set (take (4 - idx) ws). from_chars_u32 10 w \<noteq> None) \<Longrightarrow> 4 < idx + length ws \<Longrightarrow> idx \<le> 4 \<Longrightarrow>
    ipv4_parts_loop str ws idx ret = Inl (RuntimeError (''invalid format '' @ str))"
proof (induction ws arbitrary: idx ret)
  case Nil
  then show ?case by simp
next
  case (Cons w ws)
  show ?case
  proof (cases "idx = 4")
    case False
    with Cons.prems have idx: "4 - idx = Suc (4 - Suc idx)" "idx < 4" by auto
    with Cons.prems obtain v where "from_chars_u32 10 w = Some v" by auto
    with Cons idx show ?thesis by simp
  qed simp
qed

text \<open>
  Parsing the text of an address gives the address back, so no two addresses share a text.
\<close>

theorem ipv4_text_roundtrip:
  "Ipv4strToUint32 (Uint32ToIpv4str a) = Inr a \<and> (Uint32ToIpv4str a = Uint32ToIpv4str b \<longleftrightarrow> a = b)"
proof -
  have "a = b" if "Uint32ToIpv4str a = Uint32ToIpv4str b"
    using arg_cong [OF that, of Ipv4strToUint32] unfolding ipv4_text_inverse by (simp only: sum.inject)
  then show ?thesis using ipv4_text_inverse by blast
qed

text \<open>The parts of a text in decimal.\<close>

definition dotted :: "nat list \<Rightarrow> string list" where
  "dotted vs = map fmt_dec vs"

lemma ipv4_parts_value:
  assumes "idx + length vs \<le> 4" "\<forall>v \<in> set vs. v < 2 ^ 32"
  shows "ipv4_parts_loop str (dotted vs) idx ret = Inr (foldl (\<lambda>r v. push_bit 8 r OR of_nat v) ret vs)"
  using assms
proof (induction vs arbitrary: idx ret)
  case (Cons v vs)
  have "v < 2 ^ 32" using Cons.prems by simp
  then have "from_chars_u32 10 (fmt_dec v) = Some (of_nat v)" by (rule from_chars_u32_dec)
  with Cons show ?case by (simp add: dotted_def del: push_bit_or)
qed (simp add: dotted_def)

text \<open>
  A text of decimal parts: four parts or fewer are put together eight bits at a time, whatever
  their number and whatever their size; more than four are an exception.
\<close>

theorem ipv4_text_parts:
  assumes "views_split CHR ''.'' str = dotted vs" "\<forall>v \<in> set vs. v < 2 ^ 32"
  shows "Ipv4strToUint32 str =
    (if length vs \<le> 4 then Inr (foldl (\<lambda>r v. push_bit 8 r OR of_nat v) 0 vs)
     else Inl (RuntimeError (''invalid format '' @ str)))"
proof (cases "length vs \<le> 4")
  case True
  then show ?thesis using assms ipv4_parts_value [of 0 vs str 0] by (simp add: Ipv4strToUint32_def)
next
  case False
  have "from_chars_u32 10 (fmt_dec v) \<noteq> None" if "v \<in> set vs" for v
    using assms(2) that from_chars_u32_dec [of v] by simp
  then have "\<forall>w \<in> set (take (4 - 0) (dotted vs)). from_chars_u32 10 w \<noteq> None"
    by (auto simp: dotted_def dest!: in_set_takeD)
  then show ?thesis
    using False assms(1) ipv4_parts_overflow [of 0 "dotted vs" str 0] by (simp add: Ipv4strToUint32_def dotted_def)
qed

theorem ipv4_text_parts_witness:
  "Ipv4strToUint32 (fmt_dec 300 @ ''.'' @ fmt_dec 7) = Inr 0x12C07 \<and>
   Ipv4strToUint32 (fmt_dec 1 @ ''.'' @ fmt_dec 2 @ ''.'' @ fmt_dec 3 @ ''.'' @ fmt_dec 4 @ ''.'' @ fmt_dec 5) =
     Inl (RuntimeError (''invalid format '' @
       (fmt_dec 1 @ ''.'' @ fmt_dec 2 @ ''.'' @ fmt_dec 3 @ ''.'' @ fmt_dec 4 @ ''.'' @ fmt_dec 5)))"
proof
  show "Ipv4strToUint32 (fmt_dec 300 @ ''.'' @ fmt_dec 7) = Inr 0x12C07"
    by (subst ipv4_text_parts [where vs = "[300, 7]"])
      (simp_all add: views_split_def split_aux_join split_aux_plain dotted_def)
  show "Ipv4strToUint32 (fmt_dec 1 @ ''.'' @ fmt_dec 2 @ ''.'' @ fmt_dec 3 @ ''.'' @ fmt_dec 4 @ ''.'' @ fmt_dec 5) =
     Inl (RuntimeError (''invalid format '' @
       (fmt_dec 1 @ ''.'' @ fmt_dec 2 @ ''.'' @ fmt_dec 3 @ ''.'' @ fmt_dec 4 @ ''.'' @ fmt_dec 5)))"
    by (subst ipv4_text_parts [where vs = "[1, 2, 3, 4, 5]"])
      (simp_all add: views_split_def split_aux_join split_aux_plain dotted_def)
qed

end
