(* ===== verification/Devices.thy ===== *)
theory Devices
  imports EtherFrame IpUtils
begin

unbundle bit_operations_syntax

text \<open>
  The objects of lib/NetworkInterface.h, lib/IpNetworkInterface.h and .cpp, lib/Device.h,
  lib/EtherDevice.h and lib/RouteTable.h.  A \<open>std::shared_ptr<Device>\<close> is \<open>None\<close> when empty, else
  the index of the device in the device table of the world; interfaces do not change after the
  program has set them up, so a pointer to one is its value.
\<close>

type_synonym device_ptr = "nat option"

section \<open>Network interfaces\<close>

definition INTERFACE_FAMILY_IP :: int where "INTERFACE_FAMILY_IP = 1"

record IpNetworkInterface =
  if_family :: int
  unicast :: u32
  broadcast :: u32
  netmask :: u32
  if_devicePtr :: device_ptr

text \<open>
  What a pointer to the abstract \<open>NetworkInterface\<close> can point to: an \<open>IpNetworkInterface\<close>, or an
  object of another derived class, for which \<open>dynamic_pointer_cast\<close> gives null.
\<close>

datatype NetworkInterface =
    IpInterface IpNetworkInterface
  | OtherInterface int

fun family :: "NetworkInterface \<Rightarrow> int" where
  "family (IpInterface i) = if_family i"
| "family (OtherInterface f) = f"

fun cast_to_ip :: "NetworkInterface \<Rightarrow> IpNetworkInterface option" where
  "cast_to_ip (IpInterface i) = Some i"
| "cast_to_ip (OtherInterface _) = None"

definition IpNetworkInterface_new :: "int \<Rightarrow> string \<Rightarrow> string \<Rightarrow> IpNetworkInterface result" where
  "IpNetworkInterface_new family' unicast' netmask' =
     bindE (Ipv4strToUint32 unicast') (\<lambda>u.
     bindE (Ipv4strToUint32 netmask') (\<lambda>m.
     Inr \<lparr>if_family = family', unicast = u, broadcast = (u AND m) OR (NOT m), netmask = m,
          if_devicePtr = None\<rparr>))"

definition registerDevice :: "IpNetworkInterface \<Rightarrow> device_ptr \<Rightarrow> IpNetworkInterface" where
  "registerDevice i p = i\<lparr>if_devicePtr := p\<rparr>"

definition IpNetworkInterface_info :: "IpNetworkInterface \<Rightarrow> string" where
  "IpNetworkInterface_info i =
     ''family = '' @ (if if_family i < 0 then ''-'' else '''') @ fmt_dec (nat \<bar>if_family i\<bar>) @
     '', unicast => '' @ Uint32ToIpv4str (unicast i) @ '', netmask = '' @ Uint32ToIpv4str (netmask i) @
     '', broadcast = '' @ Uint32ToIpv4str (broadcast i)"

definition getUnicastVector :: "IpNetworkInterface \<Rightarrow> bytes" where
  "getUnicastVector i =
     [ucast (drop_bit 24 (unicast i)), ucast (drop_bit 16 (unicast i)), ucast (drop_bit 8 (unicast i)),
      ucast (unicast i)]"

lemma getUnicastVector_be32: "getUnicastVector i = be32 (unicast i)"
  by (simp add: getUnicastVector_def be32_def)

lemma Uint32ToVector_be32: "Uint32ToVector a = be32 a"
  by (simp add: Uint32ToVector_def be32_def)

section \<open>Devices\<close>

record EtherDevice =
  tanDevice :: string
  tanDeviceName :: string
  dev_address :: bytes
  networkInterfaces :: "NetworkInterface list"
  selfPtr :: device_ptr

definition EtherDevice_new :: "string \<Rightarrow> string \<Rightarrow> string \<Rightarrow> EtherDevice result" where
  "EtherDevice_new tanDevice' tanDeviceName' address' =
     bindE (stringToAddress address') (\<lambda>a.
     Inr \<lparr>tanDevice = tanDevice', tanDeviceName = tanDeviceName', dev_address = a,
          networkInterfaces = [], selfPtr = None\<rparr>)"

definition addNetworkInterface :: "EtherDevice \<Rightarrow> NetworkInterface \<Rightarrow> EtherDevice" where
  "addNetworkInterface d i = d\<lparr>networkInterfaces := networkInterfaces d @ [i]\<rparr>"

definition setSelfPtr :: "EtherDevice \<Rightarrow> device_ptr \<Rightarrow> EtherDevice" where
  "setSelfPtr d p = d\<lparr>selfPtr := p\<rparr>"

definition getSelfPtr :: "EtherDevice \<Rightarrow> device_ptr" where
  "getSelfPtr d = selfPtr d"

text \<open>\<open>EtherDevice_getAddress\<close>: the bytes of the array pushed one after another.\<close>

definition EtherDevice_getAddress :: "EtherDevice \<Rightarrow> bytes" where
  "EtherDevice_getAddress d = foldl (\<lambda>ret v. ret @ [v]) [] (dev_address d)"

definition broadcastAddress :: bytes where
  "broadcastAddress = [0xff, 0xff, 0xff, 0xff, 0xff, 0xff]"

definition EtherDevice_getInfo :: "EtherDevice \<Rightarrow> string result" where
  "EtherDevice_getInfo d =
     bindE (addressToString (dev_address d)) (\<lambda>s. Inr (''EtherDevice: address = '' @ s))"

text \<open>\<open>Device::getTargetInterface\<close>: the loop returns the first interface of the family.\<close>

fun target_loop :: "NetworkInterface list \<Rightarrow> int \<Rightarrow> NetworkInterface result" where
  "target_loop [] f = Inl (RuntimeError ''interface not found'')"
| "target_loop (i # is) f = (if family i = f then Inr i else target_loop is f)"

definition getTargetInterface :: "EtherDevice \<Rightarrow> int \<Rightarrow> NetworkInterface result" where
  "getTargetInterface d f = target_loop (networkInterfaces d) f"

lemma EtherDevice_getAddress_copy [simp]: "EtherDevice_getAddress d = dev_address d"
proof -
  have "foldl (\<lambda>ret v. ret @ [v]) acc xs = acc @ xs" for acc xs :: bytes
    by (induction xs arbitrary: acc) simp_all
  then show ?thesis by (simp add: EtherDevice_getAddress_def)
qed

lemma length_broadcastAddress [simp]: "length broadcastAddress = 6"
  by (simp add: broadcastAddress_def)

lemma target_loop_find:
  "target_loop is f = (case find (\<lambda>i. family i = f) is of
     Some i \<Rightarrow> Inr i | None \<Rightarrow> Inl (RuntimeError ''interface not found''))"
  by (induction "is") auto

section \<open>Routes\<close>

record Route =
  route_network :: u32
  route_mask :: u32
  route_gateway :: u32
  route_interface :: IpNetworkInterface

definition route_add :: "Route list \<Rightarrow> Route \<Rightarrow> Route list" where
  "route_add routes r = routes @ [r]"

text \<open>\<open>lookup\<close> returns \<open>routes[0]\<close>, whatever the destination is.\<close>

definition route_lookup :: "Route list \<Rightarrow> u32 \<Rightarrow> Route result" where
  "route_lookup routes d = vec_at routes 0"

lemma route_lookup_cons [simp]: "route_lookup (r # rs) d = Inr r"
  by (simp add: route_lookup_def vec_at_def)

lemma route_lookup_empty [simp]: "route_lookup [] d = Inl (Undefined OutOfBounds)"
  by (simp add: route_lookup_def vec_at_def)

end
