(* ===== verification/PcbTable.thy ===== *)
theory PcbTable
  imports Prelude
begin

text \<open>
  lib/UdpControlBlock.h and .cpp: the table of UDP control blocks.  A reference to a block is its
  index in the table.  What the table promises its clients is the locale \<open>endpoint_table\<close>.
\<close>

section \<open>Control blocks\<close>

datatype UdpControlBlockState = FREE | OPEN | CLOSING

text \<open>The order of the enumeration: a block only moves forward through its life.\<close>

instantiation UdpControlBlockState :: linorder
begin

fun state_rank :: "UdpControlBlockState \<Rightarrow> nat" where
  "state_rank FREE = 0"
| "state_rank OPEN = 1"
| "state_rank CLOSING = 2"

definition less_eq_UdpControlBlockState :: "UdpControlBlockState \<Rightarrow> UdpControlBlockState \<Rightarrow> bool" where
  "less_eq_UdpControlBlockState a b \<longleftrightarrow> state_rank a \<le> state_rank b"

definition less_UdpControlBlockState :: "UdpControlBlockState \<Rightarrow> UdpControlBlockState \<Rightarrow> bool" where
  "less_UdpControlBlockState a b \<longleftrightarrow> state_rank a < state_rank b"

instance
proof
  fix a b :: UdpControlBlockState
  show "a \<le> b \<Longrightarrow> b \<le> a \<Longrightarrow> a = b"
    by (cases a; cases b) (simp_all add: less_eq_UdpControlBlockState_def)
qed (auto simp: less_eq_UdpControlBlockState_def less_UdpControlBlockState_def)

end

record IpEndpoint =
  addr :: u32
  port :: u16

lemma endpoint_eta [simp]: "\<lparr>addr = addr e, port = port e\<rparr> = e"
  by simp

record UdpPcbPayload =
  pl_data :: bytes
  pl_endpoint :: IpEndpoint

record UdpControlBlock =
  pcb_id :: int
  state :: UdpControlBlockState
  que :: "UdpPcbPayload list"
  endpoint :: IpEndpoint
  interrupted :: int

definition IP_ADDR_ANY :: u32 where "IP_ADDR_ANY = 0x00000000"
definition IP_ADDR_BROADCAST :: u32 where "IP_ADDR_BROADCAST = 0xffffffff"

text \<open>
  The default constructor does not initialise the endpoint; the indeterminate value is a parameter.
\<close>

definition UdpControlBlock_new :: "IpEndpoint \<Rightarrow> UdpControlBlock" where
  "UdpControlBlock_new garbage =
     \<lparr>pcb_id = -1, state = FREE, que = [], endpoint = garbage, interrupted = 0\<rparr>"

type_synonym pcb_table = "UdpControlBlock list"

definition UdpPcbManager_new :: "IpEndpoint \<Rightarrow> pcb_table" where
  "UdpPcbManager_new garbage = replicate 100 (UdpControlBlock_new garbage)"

section \<open>Operations\<close>

text \<open>\<open>get\<close>: \<open>std::vector::at\<close>, so an id outside the table throws.\<close>

definition pcb_get :: "pcb_table \<Rightarrow> int \<Rightarrow> nat result" where
  "pcb_get pcbs i = (if 0 \<le> i \<and> nat i < length pcbs then Inr (nat i) else Inl OutOfRange)"

definition opened :: "nat \<Rightarrow> UdpControlBlock \<Rightarrow> UdpControlBlock" where
  "opened i elm = elm\<lparr>state := OPEN, pcb_id := int i, endpoint := \<lparr>addr = IP_ADDR_ANY, port = 0\<rparr>\<rparr>"

text \<open>\<open>alloc\<close>: the loop takes the first free block; the result is its index, or \<open>None\<close> for \<open>-1\<close>.\<close>

fun alloc_loop :: "nat \<Rightarrow> pcb_table \<Rightarrow> nat option \<times> pcb_table" where
  "alloc_loop i [] = (None, [])"
| "alloc_loop i (elm # rest) =
     (if state elm = FREE then (Some i, opened i elm # rest)
      else (let (r, rest') = alloc_loop (i + 1) rest in (r, elm # rest')))"

definition pcb_alloc :: "pcb_table \<Rightarrow> nat option \<times> pcb_table" where
  "pcb_alloc pcbs = alloc_loop 0 pcbs"

definition matches :: "u32 \<Rightarrow> u16 \<Rightarrow> UdpControlBlock \<Rightarrow> bool" where
  "matches ipv4 p elm \<longleftrightarrow>
     state elm = OPEN \<and> (addr (endpoint elm) = IP_ADDR_ANY \<or> addr (endpoint elm) = ipv4) \<and>
     port (endpoint elm) = p"

fun select_loop :: "nat \<Rightarrow> pcb_table \<Rightarrow> u32 \<Rightarrow> u16 \<Rightarrow> nat option" where
  "select_loop i [] ipv4 p = None"
| "select_loop i (elm # rest) ipv4 p =
     (if matches ipv4 p elm then Some i else select_loop (i + 1) rest ipv4 p)"

definition pcb_select :: "pcb_table \<Rightarrow> u32 \<Rightarrow> u16 \<Rightarrow> nat option" where
  "pcb_select pcbs ipv4 p = select_loop 0 pcbs ipv4 p"

definition interruptAll :: "pcb_table \<Rightarrow> pcb_table" where
  "interruptAll pcbs = map (\<lambda>elm. if state elm = OPEN then elm\<lparr>interrupted := 1\<rparr> else elm) pcbs"

section \<open>What the loops compute\<close>

lemma select_loop_shift:
  "select_loop (Suc i) pcbs a p = map_option Suc (select_loop i pcbs a p)"
  by (induction pcbs arbitrary: i) auto

lemma pcb_select_Some_iff:
  "pcb_select pcbs a p = Some k \<longleftrightarrow>
     k < length pcbs \<and> matches a p (pcbs ! k) \<and> (\<forall>j < k. \<not> matches a p (pcbs ! j))"
proof (induction pcbs arbitrary: k)
  case Nil
  then show ?case by (simp add: pcb_select_def)
next
  case (Cons x pcbs)
  show ?case
  proof (cases k)
    case 0
    then show ?thesis by (auto simp: pcb_select_def select_loop_shift)
  next
    case (Suc j)
    have "pcb_select (x # pcbs) a p = Some (Suc j) \<longleftrightarrow> \<not> matches a p x \<and> pcb_select pcbs a p = Some j"
      by (auto simp: pcb_select_def select_loop_shift)
    then show ?thesis
      using Suc Cons.IH [of j] by (auto simp: All_less_Suc2)
  qed
qed

lemma pcb_select_None_iff:
  "pcb_select pcbs a p = None \<longleftrightarrow> (\<forall>elm \<in> set pcbs. \<not> matches a p elm)"
  by (induction pcbs) (auto simp: pcb_select_def select_loop_shift)

lemma alloc_loop_eq:
  "alloc_loop i pcbs =
     (let n = length (takeWhile (\<lambda>e. state e \<noteq> FREE) pcbs) in
      if n < length pcbs then (Some (i + n), pcbs[n := opened (i + n) (pcbs ! n)]) else (None, pcbs))"
  by (induction pcbs arbitrary: i) (auto simp: Let_def)

definition first_free :: "pcb_table \<Rightarrow> nat" where
  "first_free pcbs = length (takeWhile (\<lambda>e. state e \<noteq> FREE) pcbs)"

lemma pcb_alloc_eq:
  "pcb_alloc pcbs =
     (if first_free pcbs < length pcbs
      then (Some (first_free pcbs), pcbs[first_free pcbs := opened (first_free pcbs) (pcbs ! first_free pcbs)])
      else (None, pcbs))"
  by (simp add: pcb_alloc_def alloc_loop_eq first_free_def Let_def)

lemma first_free_is_free: "first_free pcbs < length pcbs \<Longrightarrow> state (pcbs ! first_free pcbs) = FREE"
  using nth_length_takeWhile [of "\<lambda>e. state e \<noteq> FREE" pcbs] by (simp add: first_free_def)

lemma before_first_free: "i < first_free pcbs \<Longrightarrow> i < length pcbs \<and> state (pcbs ! i) \<noteq> FREE"
  unfolding first_free_def
  by (metis (mono_tags, lifting) length_takeWhile_le less_le_trans nth_mem set_takeWhileD takeWhile_nth)

lemma length_pcb_ops [simp]:
  "length (snd (pcb_alloc pcbs)) = length pcbs"
  "length (interruptAll pcbs) = length pcbs"
  by (simp_all add: pcb_alloc_eq interruptAll_def)

text \<open>The writes through a reference: a new endpoint, and a payload pushed on the queue.\<close>

definition pcb_set_endpoint :: "pcb_table \<Rightarrow> nat \<Rightarrow> IpEndpoint \<Rightarrow> pcb_table" where
  "pcb_set_endpoint pcbs i ep = pcbs[i := (pcbs ! i)\<lparr>endpoint := ep\<rparr>]"

definition pcb_push :: "pcb_table \<Rightarrow> nat \<Rightarrow> UdpPcbPayload \<Rightarrow> pcb_table" where
  "pcb_push pcbs i pl = pcbs[i := (pcbs ! i)\<lparr>que := que (pcbs ! i) @ [pl]\<rparr>]"

definition pcb_pop :: "pcb_table \<Rightarrow> nat \<Rightarrow> pcb_table" where
  "pcb_pop pcbs i = pcbs[i := (pcbs ! i)\<lparr>que := tl (que (pcbs ! i))\<rparr>]"

lemma length_pcb_updates [simp]:
  "length (pcb_set_endpoint pcbs i ep) = length pcbs"
  "length (pcb_push pcbs i pl) = length pcbs"
  "length (pcb_pop pcbs i) = length pcbs"
  by (simp_all add: pcb_set_endpoint_def pcb_push_def pcb_pop_def)

lemma pop_push:
  assumes "i < length pcbs" "que (pcbs ! i) = []"
  shows "pcb_pop (pcb_push pcbs i pl) i = pcbs"
proof -
  have "(pcbs ! i)\<lparr>que := []\<rparr> = pcbs ! i" using assms(2) by (cases "pcbs ! i") simp
  moreover have "pcb_pop (pcb_push pcbs i pl) i = pcbs[i := (pcbs ! i)\<lparr>que := []\<rparr>]"
    using assms by (simp add: pcb_pop_def pcb_push_def)
  ultimately show ?thesis by (simp only: list_update_id)
qed

section \<open>The contract of the table\<close>

text \<open>
  The open endpoints as a partial map from block indices.  \<open>sel\<close> finds an open endpoint of the port
  whose address is the wildcard or the given one, if there is one; rebinding changes one entry.
\<close>

locale endpoint_table =
  fixes sel :: "'t \<Rightarrow> u32 \<Rightarrow> u16 \<Rightarrow> nat option"
    and lookup :: "'t \<Rightarrow> nat \<Rightarrow> IpEndpoint option"
    and rebind :: "'t \<Rightarrow> nat \<Rightarrow> IpEndpoint \<Rightarrow> 't"
    and any :: u32
  assumes sel_sound: "sel t a p = Some k \<Longrightarrow>
      \<exists>e. lookup t k = Some e \<and> port e = p \<and> (addr e = any \<or> addr e = a)"
    and sel_complete: "lookup t k = Some e \<Longrightarrow> addr e = any \<or> addr e = a \<Longrightarrow> sel t a (port e) \<noteq> None"
    and rebind_lookup: "lookup t i \<noteq> None \<Longrightarrow> lookup (rebind t i e) = (lookup t)(i := Some e)"
begin

text \<open>No two open endpoints agree in address and (non-zero) port.\<close>

definition unique_endpoints :: "'t \<Rightarrow> bool" where
  "unique_endpoints t \<longleftrightarrow>
     (\<forall>i j e. lookup t i = Some e \<longrightarrow> lookup t j = Some e \<longrightarrow> port e \<noteq> 0 \<longrightarrow> i = j)"

lemma rebind_unique:
  assumes "unique_endpoints t" "lookup t i \<noteq> None" "sel t (addr e) (port e) = None"
  shows "unique_endpoints (rebind t i e)"
proof -
  have free: "lookup t k \<noteq> Some e" for k
    using sel_complete [of t k e "addr e"] assms(3) by auto
  show ?thesis
    using assms(1) free unfolding unique_endpoints_def rebind_lookup [OF assms(2)] by auto
qed

text \<open>After binding a free endpoint, a lookup of that endpoint finds exactly the bound block.\<close>

lemma rebind_selected:
  assumes i: "lookup t i \<noteq> None" and free: "sel t (addr e) (port e) = None"
  shows "sel (rebind t i e) (addr e) (port e) = Some i"
proof -
  have "lookup (rebind t i e) i = Some e" using rebind_lookup [OF i] by simp
  then obtain k where k: "sel (rebind t i e) (addr e) (port e) = Some k"
    using sel_complete [of "rebind t i e" i e "addr e"] by auto
  then obtain e' where e': "lookup (rebind t i e) k = Some e'" "port e' = port e"
      "addr e' = any \<or> addr e' = addr e"
    using sel_sound by blast
  have "k = i"
  proof (rule ccontr)
    assume "k \<noteq> i"
    then have "lookup t k = Some e'" using e' rebind_lookup [OF i, of e] by simp
    then show False using sel_complete [of t k e' "addr e"] e' free by simp
  qed
  with k show ?thesis by simp
qed

end

definition open_endpoint :: "pcb_table \<Rightarrow> nat \<Rightarrow> IpEndpoint option" where
  "open_endpoint pcbs i =
     (if i < length pcbs \<and> state (pcbs ! i) = OPEN then Some (endpoint (pcbs ! i)) else None)"

lemma open_endpoint_SomeD:
  "open_endpoint pcbs i = Some e \<Longrightarrow> i < length pcbs \<and> state (pcbs ! i) = OPEN \<and> endpoint (pcbs ! i) = e"
  by (auto simp: open_endpoint_def split: if_splits)

interpretation pcb: endpoint_table pcb_select open_endpoint pcb_set_endpoint IP_ADDR_ANY
proof unfold_locales
  fix t a p k
  assume "pcb_select t a p = Some k"
  then show "\<exists>e. open_endpoint t k = Some e \<and> port e = p \<and> (addr e = IP_ADDR_ANY \<or> addr e = a)"
    by (auto simp: pcb_select_Some_iff matches_def open_endpoint_def)
next
  fix t k e a
  assume "open_endpoint t k = Some e" and "addr e = IP_ADDR_ANY \<or> addr e = a"
  then have "t ! k \<in> set t" "matches a (port e) (t ! k)"
    by (auto dest!: open_endpoint_SomeD simp: matches_def)
  then show "pcb_select t a (port e) \<noteq> None"
    by (auto simp: pcb_select_None_iff)
next
  fix t i e
  assume "open_endpoint t i \<noteq> None"
  then show "open_endpoint (pcb_set_endpoint t i e) = (open_endpoint t)(i := Some e)"
    by (auto simp: open_endpoint_def pcb_set_endpoint_def fun_eq_iff nth_update_in split: if_splits)
qed

section \<open>The life of a block\<close>

text \<open>
  \<open>first_n_open n pcbs\<close>: the blocks up to \<open>n\<close> are open under their own index, the others free.
  Nothing frees a block, so this is the shape of every table the program reaches, and allocation is
  a counter.
\<close>

definition first_n_open :: "nat \<Rightarrow> pcb_table \<Rightarrow> bool" where
  "first_n_open n pcbs \<longleftrightarrow> n \<le> length pcbs \<and>
     (\<forall>i < length pcbs. if i < n then state (pcbs ! i) = OPEN \<and> pcb_id (pcbs ! i) = int i
                       else state (pcbs ! i) = FREE)"

lemma first_n_open_first_free: "first_n_open n pcbs \<Longrightarrow> first_free pcbs = n"
proof -
  assume n: "first_n_open n pcbs"
  have "takeWhile (\<lambda>e. state e \<noteq> FREE) pcbs = take n pcbs"
  proof (rule takeWhile_eq_take_P_nth)
    show "state (pcbs ! i) \<noteq> FREE" if "i < n" "i < length pcbs" for i
      using n that by (auto simp: first_n_open_def)
    show "\<not> state (pcbs ! n) \<noteq> FREE" if "n < length pcbs"
      using n that by (auto simp: first_n_open_def)
  qed
  with n show ?thesis by (simp add: first_free_def first_n_open_def)
qed

lemma alloc_counter:
  assumes "first_n_open n pcbs"
  shows "n < length pcbs \<Longrightarrow> fst (pcb_alloc pcbs) = Some n \<and> first_n_open (Suc n) (snd (pcb_alloc pcbs))"
    and "n = length pcbs \<Longrightarrow> pcb_alloc pcbs = (None, pcbs)"
proof -
  show "fst (pcb_alloc pcbs) = Some n \<and> first_n_open (Suc n) (snd (pcb_alloc pcbs))" if "n < length pcbs"
    using assms that first_n_open_first_free [OF assms]
    by (auto simp: pcb_alloc_eq first_n_open_def nth_update_in opened_def)
  show "pcb_alloc pcbs = (None, pcbs)" if "n = length pcbs"
    using assms that by (simp add: pcb_alloc_eq first_n_open_first_free)
qed

lemma first_n_open_new: "first_n_open 0 (UdpPcbManager_new g)"
  by (simp add: first_n_open_def UdpPcbManager_new_def UdpControlBlock_new_def)

lemma first_n_open_updates:
  assumes "first_n_open n pcbs"
  shows "first_n_open n (pcb_set_endpoint pcbs i ep)"
    and "first_n_open n (pcb_push pcbs i pl)"
    and "first_n_open n (pcb_pop pcbs i)"
    and "first_n_open n (interruptAll pcbs)"
  using assms
  by (auto simp: first_n_open_def pcb_set_endpoint_def pcb_push_def pcb_pop_def interruptAll_def
      nth_update_in split: if_splits)

text \<open>A freshly opened block has the wildcard address and port 0, so it breaks no uniqueness.\<close>

lemma alloc_unique:
  assumes "pcb.unique_endpoints pcbs"
  shows "pcb.unique_endpoints (snd (pcb_alloc pcbs))"
proof (cases "first_free pcbs < length pcbs")
  case True
  let ?n = "first_free pcbs"
  have "open_endpoint (snd (pcb_alloc pcbs)) = (open_endpoint pcbs)(?n := Some \<lparr>addr = IP_ADDR_ANY, port = 0\<rparr>)"
    using True by (auto simp: open_endpoint_def pcb_alloc_eq opened_def nth_update_in fun_eq_iff split: if_split)
  then show ?thesis
    using assms unfolding pcb.unique_endpoints_def by (auto split: if_splits)
qed (use assms in \<open>simp add: pcb_alloc_eq\<close>)

lemma open_endpoint_frame:
  "open_endpoint (pcb_push pcbs i pl) = open_endpoint pcbs"
  "open_endpoint (pcb_pop pcbs i) = open_endpoint pcbs"
  "open_endpoint (interruptAll pcbs) = open_endpoint pcbs"
  by (auto simp: open_endpoint_def pcb_push_def pcb_pop_def interruptAll_def fun_eq_iff nth_update_in split: if_splits)

lemma unique_frame:
  "pcb.unique_endpoints (pcb_push pcbs i pl) = pcb.unique_endpoints pcbs"
  "pcb.unique_endpoints (pcb_pop pcbs i) = pcb.unique_endpoints pcbs"
  "pcb.unique_endpoints (interruptAll pcbs) = pcb.unique_endpoints pcbs"
  by (simp_all add: pcb.unique_endpoints_def open_endpoint_frame)

text \<open>Blocks move forward only.\<close>

definition states_advance :: "pcb_table \<Rightarrow> pcb_table \<Rightarrow> bool" where
  "states_advance old new \<longleftrightarrow> length new = length old \<and> (\<forall>i < length old. state (old ! i) \<le> state (new ! i))"

lemma states_advance_ops:
  "states_advance pcbs (snd (pcb_alloc pcbs))"
  "states_advance pcbs (pcb_set_endpoint pcbs i ep)"
  "states_advance pcbs (pcb_push pcbs i pl)"
  "states_advance pcbs (pcb_pop pcbs i)"
  "states_advance pcbs (interruptAll pcbs)"
proof -
  show "states_advance pcbs (snd (pcb_alloc pcbs))"
    using first_free_is_free [of pcbs]
    by (auto simp: states_advance_def pcb_alloc_eq nth_update_in opened_def less_eq_UdpControlBlockState_def)
qed (auto simp: states_advance_def pcb_set_endpoint_def pcb_push_def pcb_pop_def interruptAll_def nth_update_in split: if_split)

end
