(* ===== verification/Checksum.thy ===== *)
theory Checksum
  imports BinaryPayload
begin

unbundle bit_operations_syntax

text \<open>
  The Internet checksum of lib/IpUtils.h: \<open>calculateChecksum\<close> over big-endian 16-bit words of a byte
  vector, \<open>calculateChecksumUint16\<close> over words, \<open>verifyChecksum\<close>, and what they compute in terms of
  the arithmetic sum of the words.
\<close>

section \<open>The operations\<close>

function checksum_loop :: "bytes \<Rightarrow> nat \<Rightarrow> nat \<Rightarrow> u32 \<Rightarrow> u32 result" where
  "checksum_loop data i stop acc =
     (if i < stop \<and> i < length data
      then bindE (vec_at data i) (\<lambda>hi.
           bindE (vec_at data (i + 1)) (\<lambda>lo.
           checksum_loop data (i + 2) stop (acc + (push_bit 8 (ucast hi) OR ucast lo))))
      else Inr acc)"
  by pat_completeness auto
termination
  by (relation "measure (\<lambda>(data, i, stop, acc). stop - i)") auto

declare checksum_loop.simps [simp del]

definition fold_carry :: "u32 \<Rightarrow> u16" where
  "fold_carry acc = ucast ((acc + drop_bit 16 acc) AND 0x0000FFFF)"

definition calculateChecksum :: "bytes \<Rightarrow> nat \<Rightarrow> nat \<Rightarrow> u16 result" where
  "calculateChecksum data start stop =
     bindE (checksum_loop data start stop 0) (\<lambda>acc. Inr (fold_carry acc))"

function checksum16_loop :: "u16 list \<Rightarrow> nat \<Rightarrow> nat \<Rightarrow> u32 \<Rightarrow> u32" where
  "checksum16_loop data i stop acc =
     (if i < stop \<and> i < length data
      then checksum16_loop data (i + 1) stop (acc + ucast (data ! i))
      else acc)"
  by pat_completeness auto
termination
  by (relation "measure (\<lambda>(data, i, stop, acc). stop - i)") auto

declare checksum16_loop.simps [simp del]

definition calculateChecksumUint16 :: "u16 list \<Rightarrow> nat \<Rightarrow> nat \<Rightarrow> u16" where
  "calculateChecksumUint16 data start stop = fold_carry (checksum16_loop data start stop 0)"

definition verifyChecksum :: "bytes \<Rightarrow> nat \<Rightarrow> nat \<Rightarrow> bool result" where
  "verifyChecksum data start stop =
     bindE (calculateChecksum data start stop) (\<lambda>c. Inr (c = 0xFFFF))"

section \<open>The sum of the words\<close>

text \<open>The arithmetic sum of the big-endian words of an even number of bytes.\<close>

fun word_sum :: "bytes \<Rightarrow> nat" where
  "word_sum (hi # lo # rest) = 256 * unat hi + unat lo + word_sum rest"
| "word_sum _ = 0"

lemma word_sum_append: "even (length xs) \<Longrightarrow> word_sum (xs @ ys) = word_sum xs + word_sum ys"
  by (induction xs rule: word_sum.induct) auto

lemma unat_u8_le: "unat (x :: u8) \<le> 255"
  using unat_u8_lt [of x] by linarith

lemma word_sum_be16 [simp]: "word_sum (be16 v) = unat v"
proof -
  have "unat v = 256 * (unat v div 256) + unat v mod 256" by simp
  moreover have "unat v div 256 < 256" using unat_u16_lt [of v] by linarith
  ultimately show ?thesis
    by (simp add: be16_def unsigned_ucast_eq take_bit_eq_mod unat_div drop_bit_eq_div)
qed

lemma word_sum_be16_append [simp]: "word_sum (be16 v @ xs) = unat v + word_sum xs"
  by (simp add: word_sum_append)

lemma word_sum_be32_append: "word_sum (be32 w @ xs) = word_sum (be32 w) + word_sum xs"
  by (simp add: word_sum_append)

lemma word_sum_bound: "word_sum xs \<le> 65535 * (length xs div 2)"
proof (induction xs rule: word_sum.induct)
  case (1 hi lo rest)
  then show ?case using unat_u8_le [of hi] unat_u8_le [of lo] by simp
qed auto

lemma word_sum_le: "length xs \<le> 131072 \<Longrightarrow> word_sum xs \<le> 4294901760"
  using word_sum_bound [of xs] by linarith

lemma push_or_add: "push_bit 8 (ucast hi :: u32) OR ucast lo = of_nat (256 * unat hi + unat lo)"
  for hi lo :: u8
proof -
  have "push_bit 8 (ucast hi :: u32) OR ucast lo = push_bit 8 (ucast hi) + ucast lo"
    by (rule disjunctive_add [symmetric]) (auto simp: bit_simps dest: bit_imp_le_length)
  also have "\<dots> = of_nat (256 * unat hi + unat lo)"
    by (simp add: push_bit_eq_mult mult.commute)
  finally show ?thesis .
qed

lemma checksum_loop_sum:
  assumes "even n" "i + n \<le> length d"
  shows "checksum_loop d i (i + n) s = Inr (s + of_nat (word_sum (take n (drop i d))))"
  using assms
proof (induction n arbitrary: i s rule: less_induct)
  case (less n)
  show ?case
  proof (cases "n = 0")
    case True
    then show ?thesis by (simp add: checksum_loop.simps)
  next
    case False
    then have "n = (n - 2) + 2" "even (n - 2)" using less.prems by presburger+
    then obtain m where m: "n = m + 2" "even m" by blast
    have split: "drop i d = d ! i # d ! (i + 1) # drop (i + 2) d"
      using less.prems m by (simp add: Cons_nth_drop_Suc)
    have "checksum_loop d (i + 2) (i + 2 + m) t = Inr (t + of_nat (word_sum (take m (drop (i + 2) d))))" for t
      using less.prems m by (intro less.IH) auto
    then show ?thesis
      using less.prems m
      by (subst checksum_loop.simps) (simp add: vec_at_def split push_or_add add_ac)
  qed
qed

text \<open>An odd number of bytes up to the end of the vector: the last word's low byte is outside it.\<close>

lemma checksum_loop_odd:
  assumes "odd n" "i + n = length d" "i + n \<le> stop"
  shows "checksum_loop d i stop s = Inl (Undefined OutOfBounds)"
  using assms
proof (induction n arbitrary: i s rule: less_induct)
  case (less n)
  show ?case
  proof (cases "n = 1")
    case True
    with less.prems show ?thesis by (subst checksum_loop.simps) (simp add: vec_at_def)
  next
    case False
    then have "n = (n - 2) + 2" "odd (n - 2)" using less.prems by presburger+
    then obtain m where m: "n = m + 2" "odd m" by blast
    have "checksum_loop d (i + 2) stop t = Inl (Undefined OutOfBounds)" for t
      using less.prems m by (intro less.IH [of m]) auto
    with less.prems m show ?thesis
      by (subst checksum_loop.simps) (simp add: vec_at_def)
  qed
qed

section \<open>The fold of the carries\<close>

lemma unat_fold_carry: "unat (fold_carry s) = (unat s + unat s div 65536) mod 65536"
proof -
  have m: "(0xFFFF :: u32) = mask 16" by (simp add: mask_eq_exp_minus_1)
  have "fold_carry s = ucast (s + drop_bit 16 s)"
    unfolding fold_carry_def m
    by (rule bit_word_eqI) (simp add: bit_simps)
  then have "unat (fold_carry s) = unat (s + drop_bit 16 s) mod 65536"
    by (simp add: unsigned_ucast_eq take_bit_eq_mod)
  also have "\<dots> = (unat s + unat s div 65536) mod 65536"
  proof -
    have "unat s div 65536 < 4294967296" using unat_u32_lt [of s] by linarith
    then show ?thesis
      by (simp add: unat_word_ariths unat_drop_bit_eq drop_bit_eq_div mod_mod_cancel)
  qed
  finally show ?thesis .
qed

text \<open>
  The code adds the carries back once.  The end-around sum of RFC 1071 adds the carry of that
  addition back too; \<open>carry_safe\<close> says there is none.
\<close>

definition carry_safe :: "nat \<Rightarrow> bool" where
  "carry_safe S \<longleftrightarrow> S mod 65536 + S div 65536 < 65536"

lemma fold_carry_of_nat:
  "S < 4294967296 \<Longrightarrow> unat (fold_carry (of_nat S)) = (S mod 65536 + S div 65536) mod 65536"
  by (simp add: unat_fold_carry take_bit_eq_mod unat_of_nat mod_add_left_eq)

lemma fold_carry_safe:
  "S < 4294967296 \<Longrightarrow> carry_safe S \<Longrightarrow> unat (fold_carry (of_nat S)) = S mod 65536 + S div 65536"
  by (simp add: fold_carry_of_nat carry_safe_def)

lemma sum_split: "(S :: nat) = 65535 * (S div 65536) + (S mod 65536 + S div 65536)"
  using div_mult_mod_eq [of S 65536] by linarith

text \<open>The acceptance test is exact: all ones after one fold means divisible by 65535, and not zero.\<close>

lemma add_mod_all_ones:
  assumes "a < 65536" "b < (65536 :: nat)"
  shows "(a + b) mod 65536 = 65535 \<longleftrightarrow> a + b = 65535"
proof (cases "a + b < 65536")
  case False
  then have "(a + b) mod 65536 = a + b - 65536"
    using assms by (simp add: le_mod_geq)
  with False assms show ?thesis by linarith
qed simp

lemma fold_carry_all_ones:
  assumes "S \<le> 4294901760"
  shows "fold_carry (of_nat S) = 0xFFFF \<longleftrightarrow> 0 < S \<and> 65535 dvd S"
proof -
  define hi lo where "hi = S div 65536" and "lo = S mod 65536"
  have S: "S = 65535 * hi + (lo + hi)"
    unfolding hi_def lo_def by (rule sum_split)
  have lt: "hi < 65536" "lo < 65536" and le: "hi = 65535 \<Longrightarrow> lo = 0"
    using assms div_mult_mod_eq [of S 65536] by (auto simp: hi_def lo_def)
  have "fold_carry (of_nat S) = 0xFFFF \<longleftrightarrow> (lo + hi) mod 65536 = 65535"
    using assms by (simp add: word_unat_eq_iff fold_carry_of_nat hi_def lo_def)
  also have "\<dots> \<longleftrightarrow> lo + hi = 65535"
    using lt by (intro add_mod_all_ones)
  also have "\<dots> \<longleftrightarrow> 0 < S \<and> 65535 dvd S"
  proof
    assume "lo + hi = 65535"
    then have "S = 65535 * Suc hi" using S by simp
    then show "0 < S \<and> 65535 dvd S" by (metis dvd_triv_left nat_0_less_mult_iff zero_less_Suc zero_less_numeral)
  next
    assume pos: "0 < S \<and> 65535 dvd S"
    then have "65535 dvd lo + hi"
      using S by (metis dvd_add_right_iff dvd_triv_left)
    then obtain k where k: "lo + hi = 65535 * k" by (auto simp: dvd_def)
    moreover have "0 < lo + hi" using S pos by (cases "lo + hi = 0") auto
    moreover have "lo + hi < 65535 * 2" using lt le by (cases "hi = 65535") auto
    ultimately have "k = 1" by simp
    with k show "lo + hi = 65535" by simp
  qed
  finally show ?thesis .
qed

section \<open>The operations in terms of the sum\<close>

lemma calculateChecksum_sum:
  assumes "even n" "n \<le> length d"
  shows "calculateChecksum d 0 n = Inr (fold_carry (of_nat (word_sum (take n d))))"
  using checksum_loop_sum [of n 0 d 0] assms by (simp add: calculateChecksum_def)

lemma calculateChecksum_odd:
  "odd (length d) \<Longrightarrow> length d \<le> stop \<Longrightarrow> calculateChecksum d 0 stop = Inl (Undefined OutOfBounds)"
  using checksum_loop_odd [of "length d" 0 d stop 0] by (simp add: calculateChecksum_def)

lemma calculateChecksum_past_end:
  assumes "even (length d)" "length d \<le> stop"
  shows "calculateChecksum d 0 stop = calculateChecksum d 0 (length d)"
proof -
  have "checksum_loop d i stop s = checksum_loop d i (length d) s" for i s
  proof (induction "length d - i" arbitrary: i s rule: less_induct)
    case less
    then show ?case
      using assms by (subst (1 2) checksum_loop.simps) (auto simp: bindE_def split: sum.splits)
  qed
  then show ?thesis by (simp add: calculateChecksum_def)
qed

lemma verifyChecksum_sum:
  assumes "even n" "n \<le> length d" "n \<le> 131072"
  shows "verifyChecksum d 0 n = Inr (0 < word_sum (take n d) \<and> 65535 dvd word_sum (take n d))"
  using assms by (simp add: verifyChecksum_def calculateChecksum_sum fold_carry_all_ones word_sum_le)

lemma unat_NOT_u16: "unat (NOT c) = 65535 - unat (c :: u16)"
proof -
  have le: "unat c \<le> 65535" using unat_u16_lt [of c] by linarith
  have "NOT c = - 1 - c" by (simp add: not_eq_complement)
  also have "unat \<dots> = 65535 - unat c"
    using le by (simp add: unat_sub_if' unsigned_minus_1_eq_mask mask_eq_exp_minus_1)
  finally show ?thesis .
qed

text \<open>
  Storing the complement of the checksum into a field that was zero makes the data verify, if and
  only if adding the carries back once was enough.
\<close>

lemma complement_verifies_iff:
  assumes "S < 4294901760"
  shows "(0 < S + unat (NOT (fold_carry (of_nat S))) \<and> 65535 dvd S + unat (NOT (fold_carry (of_nat S))))
           \<longleftrightarrow> carry_safe S"
proof -
  define hi lo where "hi = S div 65536" and "lo = S mod 65536"
  have S: "S = 65535 * hi + (lo + hi)"
    unfolding hi_def lo_def by (rule sum_split)
  have lt: "hi < 65535" "lo < 65536"
    using assms by (auto simp: hi_def lo_def)
  have ck: "unat (NOT (fold_carry (of_nat S))) = 65535 - (lo + hi) mod 65536"
    using assms by (simp add: unat_NOT_u16 fold_carry_of_nat hi_def lo_def)
  show ?thesis
  proof (cases "lo + hi < 65536")
    case True
    then have total: "S + unat (NOT (fold_carry (of_nat S))) = 65535 * Suc hi"
      using S ck by simp
    have "carry_safe S" using True by (simp add: carry_safe_def hi_def lo_def)
    then show ?thesis unfolding total by (metis dvd_triv_left nat_0_less_mult_iff zero_less_Suc zero_less_numeral)
  next
    case False
    then have "(lo + hi) mod 65536 = lo + hi - 65536"
      using lt by (simp add: le_mod_geq)
    then have total: "S + unat (NOT (fold_carry (of_nat S))) = 65535 * (hi + 2) + 1"
      using S ck False lt by simp
    have "\<not> 65535 dvd 65535 * (hi + 2) + (1 :: nat)"
      by (metis dvd_add_right_iff dvd_triv_left nat_dvd_1_iff_1 numeral_eq_one_iff semiring_norm(84))
    moreover have "\<not> carry_safe S" using False by (simp add: carry_safe_def hi_def lo_def)
    ultimately show ?thesis unfolding total by blast
  qed
qed

lemma checksum16_pair:
  "calculateChecksumUint16 [a, b] 0 (Suc (Suc 0)) = fold_carry (of_nat (unat a + unat b))"
  by (simp add: calculateChecksumUint16_def checksum16_loop.simps)

lemma carry_safe_pair: "carry_safe (unat (a :: u16) + unat (b :: u16))"
proof (cases "unat a + unat b < 65536")
  case False
  have "unat a + unat b \<le> 131070" using unat_u16_lt [of a] unat_u16_lt [of b] by linarith
  with False have "(unat a + unat b) div 65536 = 1" "(unat a + unat b) mod 65536 = unat a + unat b - 65536"
    by (simp_all add: le_mod_geq div_nat_eqI)
  with \<open>unat a + unat b \<le> 131070\<close> show ?thesis by (simp add: carry_safe_def)
qed (simp add: carry_safe_def)

section \<open>The acceptance test\<close>

text \<open>
  C27. \<open>verifyChecksum\<close> over an even number of bytes, up to 128 KiB, accepts exactly the data whose
  16-bit words sum to a positive multiple of 65535, which is the condition of RFC 1071: the single
  addition of the carries is enough for a test against all ones, and the 32-bit sum cannot wrap.
\<close>

theorem checksum_acceptance:
  assumes "even n" "n \<le> length d" "n \<le> 131072"
  shows "verifyChecksum d 0 n = Inr (0 < word_sum (take n d) \<and> 65535 dvd word_sum (take n d))"
  using assms by (rule verifyChecksum_sum)

theorem checksum_acceptance_witness:
  "verifyChecksum [0x08, 0x00, 0xF7, 0xFF, 0x12] 0 4 = Inr True"
  using checksum_acceptance [of 4 "[0x08, 0x00, 0xF7, 0xFF, 0x12]"] by simp

end
