(* ===== verification/UdpData.thy ===== *)
theory UdpData
  imports BinaryPayload Checksum IpUtils
begin

unbundle bit_operations_syntax

text \<open>
  lib/UdpData.h: UDP datagrams and the pseudo header that enters their checksum, with the checksum
  computation that \<open>UdpHandler::handle\<close> and \<open>udp_output\<close> (lib/Udp.cpp) share line for line.
\<close>

definition UdpData_headerSize :: nat where "UdpData_headerSize = 8"
definition PseudoHeader_headerSize :: nat where "PseudoHeader_headerSize = 12"

lemmas udp_consts = UdpData_headerSize_def PseudoHeader_headerSize_def

section \<open>Datagrams\<close>

definition UdpData_of :: "bytes \<Rightarrow> bytes result" where
  "UdpData_of d = copy_into (replicate (length d) 0) 0 d"

text \<open>The constructor from a size, an \<open>int\<close>; nothing calls it.\<close>

definition UdpData_sized :: "int \<Rightarrow> bytes result" where
  "UdpData_sized n = (if n < 0 then Inl LengthError else Inr (replicate (nat n) 0))"

definition UdpData_new :: bytes where
  "UdpData_new = replicate UdpData_headerSize 0"

definition srcPort :: "bytes \<Rightarrow> u16 result" where
  "srcPort data = readUint16 data 0"

definition set_srcPort :: "bytes \<Rightarrow> u16 \<Rightarrow> bytes result" where
  "set_srcPort data v = writeUint16 data v 0"

definition dstPort :: "bytes \<Rightarrow> u16 result" where
  "dstPort data = readUint16 data 2"

definition set_dstPort :: "bytes \<Rightarrow> u16 \<Rightarrow> bytes result" where
  "set_dstPort data v = writeUint16 data v 2"

definition udp_length :: "bytes \<Rightarrow> u16 result" where
  "udp_length data = readUint16 data 4"

definition set_udp_length :: "bytes \<Rightarrow> u16 \<Rightarrow> bytes result" where
  "set_udp_length data v = writeUint16 data v 4"

definition udp_checksum :: "bytes \<Rightarrow> u16 result" where
  "udp_checksum data = readUint16 data 6"

definition set_udp_checksum :: "bytes \<Rightarrow> u16 \<Rightarrow> bytes result" where
  "set_udp_checksum data v = writeUint16 data v 6"

text \<open>
  \<open>payload()\<close>: the returned vector has as many bytes as the length field says, and everything after
  the header is copied into it.
\<close>

definition udp_payload :: "bytes \<Rightarrow> bytes result" where
  "udp_payload data =
     bindE (udp_length data) (\<lambda>len.
     let ret = replicate (unat len) 0 in
     if length data < UdpData_headerSize then Inl (Undefined OutOfBounds)
     else copy_into ret 0 (drop UdpData_headerSize data))"

text \<open>\<open>payload(d)\<close>: the new size is computed in 16 bits; the length field is not written.\<close>

definition set_udp_payload :: "bytes \<Rightarrow> bytes \<Rightarrow> bytes result" where
  "set_udp_payload data d =
     (let l = of_nat (UdpData_headerSize + length d) :: u16 in
      copy_into (vec_resize data (unat l) 0) UdpData_headerSize d)"

definition UdpData_info :: "bytes \<Rightarrow> string result" where
  "UdpData_info data =
     bindE (srcPort data) (\<lambda>s. bindE (dstPort data) (\<lambda>d.
     bindE (udp_length data) (\<lambda>l. bindE (udp_checksum data) (\<lambda>c.
     Inr (''srcPort = '' @ fmt_dec (unat s) @ '', destPort = '' @ fmt_dec (unat d) @
          '', length = '' @ fmt_dec (unat l) @ '', checksum = '' @ fmt_dec (unat c))))))"

section \<open>The pseudo header\<close>

definition PseudoHeader_new :: bytes where
  "PseudoHeader_new = replicate PseudoHeader_headerSize 0"

definition ph_srcIp :: "bytes \<Rightarrow> u32 result" where
  "ph_srcIp data = readUint32 data 0"

definition set_ph_srcIp :: "bytes \<Rightarrow> u32 \<Rightarrow> bytes result" where
  "set_ph_srcIp data v = writeUint32 data v 0"

definition ph_destIp :: "bytes \<Rightarrow> u32 result" where
  "ph_destIp data = readUint32 data 4"

definition set_ph_destIp :: "bytes \<Rightarrow> u32 \<Rightarrow> bytes result" where
  "set_ph_destIp data v = writeUint32 data v 4"

definition ph_zero :: "bytes \<Rightarrow> u8 result" where
  "ph_zero data = readUint8 data 8"

definition ph_protocol :: "bytes \<Rightarrow> u8 result" where
  "ph_protocol data = readUint8 data 9"

definition set_ph_protocol :: "bytes \<Rightarrow> u8 \<Rightarrow> bytes result" where
  "set_ph_protocol data v = writeUint8 data v 9"

definition ph_length :: "bytes \<Rightarrow> u16 result" where
  "ph_length data = readUint16 data 10"

definition set_ph_length :: "bytes \<Rightarrow> u16 \<Rightarrow> bytes result" where
  "set_ph_length data v = writeUint16 data v 10"

definition PseudoHeader_info :: "bytes \<Rightarrow> string result" where
  "PseudoHeader_info data =
     bindE (ph_srcIp data) (\<lambda>s. bindE (ph_destIp data) (\<lambda>d. bindE (ph_zero data) (\<lambda>z.
     bindE (ph_protocol data) (\<lambda>p. bindE (ph_length data) (\<lambda>l.
     Inr (''srcIp = '' @ Uint32ToIpv4str s @ '', destIp = '' @ Uint32ToIpv4str d @
          '', zero = '' @ fmt_dec (unat z) @ '', protocol = '' @ fmt_dec (unat p) @
          '', length = '' @ fmt_dec (unat l)))))))"

lemmas udp_accessor_defs =
  srcPort_def set_srcPort_def dstPort_def set_dstPort_def udp_length_def set_udp_length_def
  udp_checksum_def set_udp_checksum_def

lemmas ph_accessor_defs =
  ph_srcIp_def set_ph_srcIp_def ph_destIp_def set_ph_destIp_def ph_zero_def ph_protocol_def
  set_ph_protocol_def ph_length_def set_ph_length_def

section \<open>Layout\<close>

record udp_header =
  u_src :: u16
  u_dst :: u16
  u_len :: u16
  u_check :: u16

definition udp_layout :: "udp_header \<Rightarrow> bytes \<Rightarrow> bytes" where
  "udp_layout h rest = be16 (u_src h) @ be16 (u_dst h) @ be16 (u_len h) @ be16 (u_check h) @ rest"

lemma length_udp_layout [simp]: "length (udp_layout h rest) = 8 + length rest"
  by (simp add: udp_layout_def)

lemma UdpData_of_copy [simp]: "UdpData_of d = Inr d"
  by (simp add: UdpData_of_def copy_into_all)

lemma udp_read [wire]:
  "srcPort (udp_layout h r) = Inr (u_src h)"
  "dstPort (udp_layout h r) = Inr (u_dst h)"
  "udp_length (udp_layout h r) = Inr (u_len h)"
  "udp_checksum (udp_layout h r) = Inr (u_check h)"
  using readUint16_wire [of "[]" 0 "u_src h"] readUint16_wire [of "be16 (u_src h)" 2 "u_dst h"]
    readUint16_wire [of "be16 (u_src h) @ be16 (u_dst h)" 4 "u_len h"]
    readUint16_wire [of "be16 (u_src h) @ be16 (u_dst h) @ be16 (u_len h)" 6 "u_check h"]
  by (simp_all add: udp_accessor_defs udp_layout_def)

lemma udp_write [wire]:
  "set_srcPort (udp_layout h r) v = Inr (udp_layout (h\<lparr>u_src := v\<rparr>) r)"
  "set_dstPort (udp_layout h r) v = Inr (udp_layout (h\<lparr>u_dst := v\<rparr>) r)"
  "set_udp_length (udp_layout h r) v = Inr (udp_layout (h\<lparr>u_len := v\<rparr>) r)"
  "set_udp_checksum (udp_layout h r) v = Inr (udp_layout (h\<lparr>u_check := v\<rparr>) r)"
  using writeUint16_wire [of "[]" 0 "be16 (u_src h)"]
    writeUint16_wire [of "be16 (u_src h)" 2 "be16 (u_dst h)"]
    writeUint16_wire [of "be16 (u_src h) @ be16 (u_dst h)" 4 "be16 (u_len h)"]
    writeUint16_wire [of "be16 (u_src h) @ be16 (u_dst h) @ be16 (u_len h)" 6 "be16 (u_check h)"]
  by (simp_all add: udp_accessor_defs udp_layout_def)

definition udp_header_zero :: udp_header where
  "udp_header_zero = \<lparr>u_src = 0, u_dst = 0, u_len = 0, u_check = 0\<rparr>"

lemma UdpData_new_layout: "UdpData_new = udp_layout udp_header_zero []"
  by (simp add: UdpData_new_def udp_consts udp_layout_def udp_header_zero_def be16_def eval_nat_numeral)

lemma udp_layout_cases:
  assumes "8 \<le> length d"
  obtains h r where "d = udp_layout h r"
proof -
  obtain a0 a1 a2 a3 a4 a5 a6 a7 r where
    d: "d = [a0, a1] @ [a2, a3] @ [a4, a5] @ [a6, a7] @ r"
    using assms by (auto simp: eval_nat_numeral Suc_le_length_iff)
  obtain v1 v2 v3 v4 where
    "[a0, a1] = be16 v1" "[a2, a3] = be16 v2" "[a4, a5] = be16 v3" "[a6, a7] = be16 v4"
    using be16_ex by metis
  then have "d = udp_layout \<lparr>u_src = v1, u_dst = v2, u_len = v3, u_check = v4\<rparr> r"
    unfolding d udp_layout_def by simp
  then show thesis by (rule that)
qed

lemma UdpData_info_layout: "\<exists>s. UdpData_info (udp_layout h r) = Inr s"
  by (simp add: UdpData_info_def wire)

lemma set_udp_payload_layout:
  assumes "length d \<le> 65527"
  shows "set_udp_payload (udp_layout h []) d = Inr (udp_layout h d)"
proof -
  have "unat (of_nat (8 + length d) :: u16) = 8 + length d"
    using assms by (simp add: unat_of_nat take_bit_eq_mod unat_word_ariths)
  moreover have "vec_resize (udp_layout h []) (8 + length d) 0 = udp_layout h [] @ replicate (length d) 0 @ []"
    by (simp add: vec_resize_grow)
  moreover have "copy_into (udp_layout h [] @ replicate (length d) 0 @ []) 8 d = Inr (udp_layout h [] @ d @ [])"
    using copy_into_append [of "replicate (length d) 0" d "udp_layout h []" "[]"] by simp
  ultimately show ?thesis
    by (simp add: set_udp_payload_def udp_consts Let_def) (simp add: udp_layout_def)
qed

text \<open>
  What \<open>payload()\<close> returns: the data, then zeros up to the length field, which counts the header;
  and a write outside the vector when the field is smaller than the data.
\<close>

lemma drop_udp_layout: "drop 8 (udp_layout h r) = r"
  by (simp add: udp_layout_def be16_def)

lemma udp_payload_layout:
  "udp_payload (udp_layout h r) =
     (if length r \<le> unat (u_len h) then Inr (r @ replicate (unat (u_len h) - length r) 0)
      else Inl (Undefined OutOfBounds))"
  by (simp add: udp_payload_def wire udp_consts Let_def copy_into_def drop_udp_layout)

definition ph_layout :: "u32 \<Rightarrow> u32 \<Rightarrow> u8 \<Rightarrow> u16 \<Rightarrow> bytes" where
  "ph_layout s d p l = be32 s @ be32 d @ [0, p] @ be16 l"

lemma ph_write [wire]:
  "set_ph_srcIp (ph_layout s d p l) w = Inr (ph_layout w d p l)"
  "set_ph_destIp (ph_layout s d p l) w = Inr (ph_layout s w p l)"
  "set_ph_protocol (ph_layout s d p l) b = Inr (ph_layout s d b l)"
  "set_ph_length (ph_layout s d p l) v = Inr (ph_layout s d p v)"
  using writeUint32_wire [of "[]" 0 "be32 s"] writeUint32_wire [of "be32 s" 4 "be32 d"]
    writeUint8_wire [of "be32 s @ be32 d @ [0]" 9 p]
    writeUint16_wire [of "be32 s @ be32 d @ [0, p]" 10 "be16 l" "[]"]
  by (simp_all add: ph_accessor_defs ph_layout_def)

lemma ph_read [wire]:
  "ph_srcIp (ph_layout s d p l) = Inr s"
  "ph_destIp (ph_layout s d p l) = Inr d"
  "ph_zero (ph_layout s d p l) = Inr 0"
  "ph_protocol (ph_layout s d p l) = Inr p"
  "ph_length (ph_layout s d p l) = Inr l"
  using readUint32_wire [of "[]" 0 s] readUint32_wire [of "be32 s" 4 d]
    readUint8_wire [of "be32 s @ be32 d" 8 0] readUint8_wire [of "be32 s @ be32 d @ [0]" 9 p]
    readUint16_wire [of "be32 s @ be32 d @ [0, p]" 10 l "[]"]
  by (simp_all add: ph_accessor_defs ph_layout_def)

lemma PseudoHeader_new_layout: "PseudoHeader_new = ph_layout 0 0 0 0"
  by (simp add: PseudoHeader_new_def udp_consts ph_layout_def be16_def be32_def eval_nat_numeral)

section \<open>The checksum of a datagram\<close>

definition UDP_TYPE :: u8 where "UDP_TYPE = 0x11"

text \<open>\<open>auto pseudo = PseudoHeader(); pseudo.srcIp(..); ...\<close> as both functions build it.\<close>

definition build_pseudo :: "u32 \<Rightarrow> u32 \<Rightarrow> bytes \<Rightarrow> bytes result" where
  "build_pseudo s d payload =
     (let pseudo = PseudoHeader_new in
      bindE (set_ph_srcIp pseudo s) (\<lambda>pseudo.
      bindE (set_ph_destIp pseudo d) (\<lambda>pseudo.
      bindE (set_ph_protocol pseudo UDP_TYPE) (\<lambda>pseudo.
      set_ph_length pseudo (of_nat (length payload))))))"

text \<open>
  The checksums of the pseudo header and of the datagram are folded separately, then summed, folded
  and complemented.
\<close>

definition combined_checksum :: "bytes \<Rightarrow> bytes \<Rightarrow> u16 result" where
  "combined_checksum pseudo payload =
     bindE (calculateChecksum pseudo 0 (length pseudo)) (\<lambda>pseudoChecksum.
     bindE (calculateChecksum payload 0 (length payload)) (\<lambda>payloadChecksum.
     let tmpVec = [pseudoChecksum, payloadChecksum] in
     Inr (NOT (calculateChecksumUint16 tmpVec 0 (length tmpVec)))))"

lemma build_pseudo_layout:
  "build_pseudo s d payload = Inr (ph_layout s d UDP_TYPE (of_nat (length payload)))"
  by (simp add: build_pseudo_def Let_def PseudoHeader_new_layout wire)

definition pseudo_fold :: "u32 \<Rightarrow> u32 \<Rightarrow> nat \<Rightarrow> u16" where
  "pseudo_fold s d n = fold_carry (of_nat (word_sum (ph_layout s d UDP_TYPE (of_nat n))))"

lemma combined_checksum_even:
  assumes "even (length payload)"
  shows "combined_checksum (ph_layout s d UDP_TYPE (of_nat (length payload))) payload =
     Inr (NOT (fold_carry (of_nat (unat (pseudo_fold s d (length payload)) +
                                   unat (fold_carry (of_nat (word_sum payload)))))))"
proof -
  let ?p = "ph_layout s d UDP_TYPE (of_nat (length payload))"
  have "length ?p = 12" by (simp add: ph_layout_def)
  then have "calculateChecksum ?p 0 (length ?p) = Inr (fold_carry (of_nat (word_sum ?p)))"
    by (simp add: calculateChecksum_sum)
  with assms show ?thesis
    by (simp add: combined_checksum_def calculateChecksum_sum checksum16_pair Let_def pseudo_fold_def)
qed

lemma combined_checksum_odd:
  assumes "odd (length payload)"
  shows "combined_checksum (ph_layout s d UDP_TYPE l) payload = Inl (Undefined OutOfBounds)"
proof -
  let ?p = "ph_layout s d UDP_TYPE l"
  have "length ?p = 12" by (simp add: ph_layout_def)
  with assms show ?thesis
    by (simp add: combined_checksum_def calculateChecksum_sum calculateChecksum_odd)
qed

end
