(* ===== verification/World.thy ===== *)
theory World
  imports ArpCache Devices PcbTable UdpData
begin

text \<open>
  The state the program keeps in global variables, as one record: the protocol queues and handler
  tables of lib/Protocol.h and lib/Ipv4.h, the ARP cache, the route table, the identification
  counter of lib/Ipv4.cpp, the table of UDP control blocks, the devices, and what has left the
  program (frames written to a device, signals raised for the interrupt thread).
\<close>

section \<open>Signals\<close>

text \<open>
  \<open>SIGRT n\<close> is \<open>SIGRTMIN + n\<close>; lib/Util.h derives the interrupt number of the device from it.
\<close>

datatype signal = SIGHUP | SIGUSR1 | SIGUSR2 | SIGRT nat

definition IRQ_BASE :: nat where "IRQ_BASE = 1"
definition ETHER_TAN_IRQ :: signal where "ETHER_TAN_IRQ = SIGRT (IRQ_BASE + 1)"

definition getIrq :: "EtherDevice \<Rightarrow> signal" where
  "getIrq d = ETHER_TAN_IRQ"

text \<open>Raising a signal: an ordinary one that is already pending is not queued twice.\<close>

fun is_realtime :: "signal \<Rightarrow> bool" where
  "is_realtime (SIGRT n) = True"
| "is_realtime _ = False"

definition raise_signal :: "signal \<Rightarrow> signal list \<Rightarrow> signal list" where
  "raise_signal sg pending = (if sg \<in> set pending \<and> \<not> is_realtime sg then pending else pending @ [sg])"

section \<open>The global state\<close>

record ProtocolData =
  pd_type :: u16
  pd_data :: bytes
  pd_devicePtr :: device_ptr

text \<open>The handler objects the program registers.\<close>

datatype ProtocolHandler = ArpProtocolHandler | Ipv4ProtocolHandler
datatype IpProtocolHandler = IcmpHandler | UdpHandler
datatype EventHandler = UdpEventHandler

record Ipv4ProtocolData =
  ip_type :: u8
  ip_data :: bytes
  ip_src_addr :: u32
  ip_dst_addr :: u32
  ip_interface :: IpNetworkInterface

text \<open>
  \<open>std::map\<close> is an association list sorted by key, in the order its iteration visits; the handler
  maps are only looked up.
\<close>

record world =
  protocolQueues :: "(u16 \<times> ProtocolData list) list"
  protocolHandlers :: "u16 \<rightharpoonup> ProtocolHandler"
  ipHandlers :: "u8 \<rightharpoonup> IpProtocolHandler"
  eventHandlers :: "EventHandler list"
  arpCache :: ArpCache
  routeTable :: "Route list"
  ipGenId :: u16
  udpPcbs :: pcb_table
  devices :: "EtherDevice list"
  written :: "(nat \<times> bytes) list"
  pending :: "signal list"

definition arpType :: u16 where "arpType = 0x0806"
definition ipType :: u16 where "ipType = 0x0800"

text \<open>\<open>std::map::insert\<close>: keeps an entry that is there.\<close>

fun map_insert :: "'k :: linorder \<Rightarrow> 'v \<Rightarrow> ('k \<times> 'v) list \<Rightarrow> ('k \<times> 'v) list" where
  "map_insert k v [] = [(k, v)]"
| "map_insert k v ((k', v') # m) =
     (if k < k' then (k, v) # (k', v') # m
      else if k = k' then (k', v') # m
      else (k', v') # map_insert k v m)"

text \<open>Update of the entry of a key that is there (through \<open>operator[]\<close> or a reference).\<close>

definition map_update :: "'k \<Rightarrow> ('v \<Rightarrow> 'v) \<Rightarrow> ('k \<times> 'v) list \<Rightarrow> ('k \<times> 'v) list" where
  "map_update k f m = map (\<lambda>(k', v). if k' = k then (k', f v) else (k', v)) m"

lemma map_of_map_update [simp]:
  "map_of (map_update k f m) k' = (if k' = k then map_option f (map_of m k) else map_of m k')"
  by (induction m) (auto simp: map_update_def)

lemma fst_map_update [simp]: "map fst (map_update k f m) = map fst m"
  by (induction m) (auto simp: map_update_def)

lemma map_of_map_insert:
  "sorted (map fst m) \<Longrightarrow> distinct (map fst m) \<Longrightarrow>
    map_of (map_insert k v m) = (case map_of m k of None \<Rightarrow> (map_of m)(k \<mapsto> v) | Some _ \<Rightarrow> map_of m)"
proof (induction m)
  case (Cons x m)
  obtain k' v' where x: "x = (k', v')" by (cases x)
  have "k < k' \<Longrightarrow> map_of m k = None"
    using Cons.prems x by (force simp: map_of_eq_None_iff)
  then show ?case
    using Cons x by (auto split: option.splits)
qed simp

lemma keys_map_insert: "fst ` set (map_insert k v m) = insert k (fst ` set m)"
  by (induction k v m rule: map_insert.induct) (simp_all add: insert_commute split: if_split)

lemma map_insert_sorted:
  "sorted (map fst m) \<Longrightarrow> distinct (map fst m) \<Longrightarrow>
    sorted (map fst (map_insert k v m)) \<and> distinct (map fst (map_insert k v m))"
proof (induction m)
  case (Cons x m)
  obtain k' v' where x: "x = (k', v')" by (cases x)
  have keys: "z \<in> set (map fst (map_insert k v m)) \<longleftrightarrow> z = k \<or> z \<in> set (map fst m)" for z
    using keys_map_insert [of k v m] by auto
  consider "k < k'" | "k = k'" | "k' < k" by (rule linorder_cases)
  then show ?case
  proof cases
    case 1
    then show ?thesis using Cons.prems x by (auto intro: order.strict_implies_order)
  next
    case 3
    then show ?thesis using Cons x keys by (auto simp del: set_map)
  qed (use Cons x in auto)
qed simp

text \<open>Dereferencing a device pointer.\<close>

definition deref_device :: "device_ptr \<Rightarrow> world \<Rightarrow> EtherDevice result" where
  "deref_device p w =
     (case p of None \<Rightarrow> Inl (Undefined NullDereference)
      | Some i \<Rightarrow> if i < length (devices w) then Inr (devices w ! i) else Inl (Undefined NullDereference))"

text \<open>What is known of every world the program works in: pointers are valid, addresses have 6 bytes.\<close>

definition iface_wf :: "world \<Rightarrow> IpNetworkInterface \<Rightarrow> bool" where
  "iface_wf w i \<longleftrightarrow> (\<exists>k < length (devices w). if_devicePtr i = Some k)"

definition device_wf :: "world \<Rightarrow> EtherDevice \<Rightarrow> bool" where
  "device_wf w d \<longleftrightarrow> length (dev_address d) = 6 \<and>
     (\<forall>i. IpInterface i \<in> set (networkInterfaces d) \<longrightarrow> iface_wf w i)"

definition world_wf :: "world \<Rightarrow> bool" where
  "world_wf w \<longleftrightarrow> (\<forall>d \<in> set (devices w). device_wf w d) \<and>
     (\<forall>r \<in> set (routeTable w). iface_wf w (route_interface r)) \<and>
     (\<forall>c \<in> set (arpCache w). length (hardwareAddress c) = 6)"

text \<open>The part of the world that handling a packet never changes.\<close>

definition config :: "world \<Rightarrow> (u16 \<rightharpoonup> ProtocolHandler) \<times> (u8 \<rightharpoonup> IpProtocolHandler) \<times>
    EventHandler list \<times> Route list \<times> EtherDevice list" where
  "config w = (protocolHandlers w, ipHandlers w, eventHandlers w, routeTable w, devices w)"

end
