(* ===== verification/EtherDev.thy ===== *)
theory EtherDev
  imports World
begin

unbundle bit_operations_syntax

text \<open>
  The two operations of \<open>EtherDevice\<close> (lib/EtherDevice.cpp) that move frames: \<open>transmit\<close> writes one
  to the TAP device, \<open>handler\<close> reads one and queues its body for the protocol it names.  The
  kernel's side of \<open>read\<close> is an argument.
\<close>

section \<open>Operations\<close>

definition transmit_frame :: "EtherDevice \<Rightarrow> bytes \<Rightarrow> bytes \<Rightarrow> u16 \<Rightarrow> bytes result" where
  "transmit_frame dev data dst type =
     bindE (guardE (length dst = ETHER_ADDR_LEN) (RuntimeError ''error'')) (\<lambda>_.
     bindE (setDstAddr EtherFrame_new dst) (\<lambda>frame.
     bindE (setSrcAddr frame (dev_address dev)) (\<lambda>frame.
     bindE (setEtherType frame type) (\<lambda>frame.
     bindE (setBody frame data) (\<lambda>frame.
     bindE (EtherFrame_info frame) (\<lambda>_.
     Inr frame))))))"

text \<open>\<open>transmit\<close> through the pointer \<open>p\<close>; the result of \<open>write(2)\<close> is not looked at.\<close>

definition transmit :: "device_ptr \<Rightarrow> bytes \<Rightarrow> bytes \<Rightarrow> u16 \<Rightarrow> (world, int) eff" where
  "transmit p data dst type =
     bindM (\<lambda>w. (deref_device p w, w)) (\<lambda>dev.
     bindM (liftM (transmit_frame dev data dst type)) (\<lambda>frame.
     bindM (putM (\<lambda>w. w\<lparr>written := written w @ [(the p, frame)]\<rparr>)) (\<lambda>_.
     retM 0)))"

text \<open>
  \<open>handler\<close>: \<open>rd\<close> is what \<open>read\<close> gave, \<open>None\<close> for \<open>-1\<close>, which the resize turns into an
  impossible size.
\<close>

definition EtherDevice_handler :: "EtherDevice \<Rightarrow> bytes option \<Rightarrow> (world, int) eff" where
  "EtherDevice_handler dev rd =
     (case rd of None \<Rightarrow> throwM LengthError
      | Some buffer \<Rightarrow>
          bindM (liftM (EtherFrame_of buffer)) (\<lambda>frame.
          bindM (liftM (etherType frame)) (\<lambda>type.
          bindM (getM (\<lambda>w. map_of (protocolQueues w) type)) (\<lambda>q.
          case q of
            None \<Rightarrow> retM 0
          | Some _ \<Rightarrow>
              bindM (liftM (body frame)) (\<lambda>b.
              let pd = \<lparr>pd_type = type, pd_data = b, pd_devicePtr = getSelfPtr dev\<rparr> in
              bindM (putM (\<lambda>w. w\<lparr>protocolQueues := map_update type (\<lambda>q. q @ [pd]) (protocolQueues w)\<rparr>)) (\<lambda>_.
              bindM (liftM (EtherFrame_info frame)) (\<lambda>_.
              bindM (putM (\<lambda>w. w\<lparr>pending := raise_signal SIGUSR1 (pending w)\<rparr>)) (\<lambda>_.
              retM 0))))))))"

section \<open>Transmission\<close>

lemma transmit_frame_layout:
  assumes "length (dev_address dev) = 6" "length dst = 6"
  shows "transmit_frame dev data dst type = Inr (ether_layout dst (dev_address dev) type (ether_pad data))"
proof -
  have "\<exists>s. EtherFrame_info (ether_layout dst (dev_address dev) type (ether_pad data)) = Inr s"
    using assms by (intro EtherFrame_info_total) simp
  then show ?thesis
    using assms
    by (auto simp: transmit_frame_def EtherFrame_new_layout wire ether_consts)
qed

text \<open>Transmission through a valid pointer appends one frame, and changes nothing else.\<close>

lemma transmit_ok:
  assumes "k < length (devices w)" "length (dev_address (devices w ! k)) = 6" "length dst = 6"
  shows "transmit (Some k) data dst type w =
    (Inr 0, w\<lparr>written := written w @ [(k, ether_layout dst (dev_address (devices w ! k)) type (ether_pad data))]\<rparr>)"
  using assms by (simp add: transmit_def deref_device_def bindM_apply transmit_frame_layout)

lemma transmit_bad_address:
  assumes "deref_device p w = Inr dev" "length dst \<noteq> 6"
  shows "transmit p data dst type w = (Inl (RuntimeError ''error''), w)"
  using assms by (simp add: transmit_def bindM_apply transmit_frame_def ether_consts)

lemma transmit_keeps [frame_intros]:
  "(\<And>w x. I w \<Longrightarrow> I (w\<lparr>written := x\<rparr>)) \<Longrightarrow> keeps I (transmit p data dst type)"
  by (auto simp: keeps_def transmit_def bindM_apply split: sum.splits)

section \<open>Reception\<close>

text \<open>A frame for a registered protocol is queued whole, behind what is there, and announced.\<close>

lemma handler_queues:
  assumes frame: "length d = 6" "length s = 6" and q: "map_of (protocolQueues w) type = Some q"
  shows "EtherDevice_handler dev (Some (ether_layout d s type b)) w =
    (Inr 0, w\<lparr>protocolQueues := map_update type (\<lambda>q. q @ [\<lparr>pd_type = type, pd_data = b, pd_devicePtr = selfPtr dev\<rparr>])
                 (protocolQueues w),
              pending := raise_signal SIGUSR1 (pending w)\<rparr>)"
proof -
  obtain i where "EtherFrame_info (ether_layout d s type b) = Inr i"
    using EtherFrame_info_total [of "ether_layout d s type b"] frame by auto
  then show ?thesis
    using assms by (simp add: EtherDevice_handler_def wire getSelfPtr_def)
qed

lemma handler_unknown:
  assumes "etherType f = Inr type" "map_of (protocolQueues w) type = None"
  shows "EtherDevice_handler dev (Some f) w = (Inr 0, w)"
  using assms by (simp add: EtherDevice_handler_def)

lemma handler_short: "length f < 14 \<Longrightarrow> EtherDevice_handler dev (Some f) w = (Inl (Undefined OutOfBounds), w)"
  by (simp add: EtherDevice_handler_def etherType_short)

text \<open>Every outcome of the handler on a frame of at least 14 bytes.\<close>

lemma handler_cases:
  assumes "14 \<le> length f"
  obtains (unknown) type where "etherType f = Inr type" "map_of (protocolQueues w) type = None"
      "EtherDevice_handler dev (Some f) w = (Inr 0, w)"
  | (queued) d s type b q where "f = ether_layout d s type b" "length d = 6" "length s = 6"
      "map_of (protocolQueues w) type = Some q"
      "EtherDevice_handler dev (Some f) w =
        (Inr 0, w\<lparr>protocolQueues := map_update type (\<lambda>q. q @ [\<lparr>pd_type = type, pd_data = b, pd_devicePtr = selfPtr dev\<rparr>])
                 (protocolQueues w),
              pending := raise_signal SIGUSR1 (pending w)\<rparr>)"
proof -
  obtain d s type b where f: "f = ether_layout d s type b" "length d = 6" "length s = 6"
    using assms by (rule ether_layout_cases)
  show thesis
  proof (cases "map_of (protocolQueues w) type")
    case None
    with f show thesis by (intro unknown [of type] handler_unknown) (auto simp: wire)
  next
    case (Some q)
    with f show thesis by (intro queued [of d s type b q]) (auto simp: handler_queues)
  qed
qed

section \<open>Properties\<close>

text \<open>
  A frame \<open>transmit\<close> writes reads back as what it was asked to send: its addresses, its type and
  its data, with zeros up to the 46 bytes an Ethernet frame carries at least.
\<close>

theorem transmitted_frame_parses:
  assumes "k < length (devices w)" "length (dev_address (devices w ! k)) = 6" "length dst = 6"
  shows "\<exists>f. transmit (Some k) data dst type w = (Inr 0, w\<lparr>written := written w @ [(k, f)]\<rparr>) \<and>
    dstAddr f = Inr dst \<and> srcAddr f = Inr (dev_address (devices w ! k)) \<and> etherType f = Inr type \<and>
    body f = Inr (data @ replicate (46 - length data) 0) \<and> length f = 14 + max 46 (length data)"
  using assms by (intro exI [of _ "ether_layout dst (dev_address (devices w ! k)) type (ether_pad data)"])
    (simp add: transmit_ok wire ether_pad_def)

definition one_device_world :: world where
  "one_device_world = \<lparr>protocolQueues = [(ipType, []), (arpType, [])], protocolHandlers = (\<lambda>_. None),
     ipHandlers = (\<lambda>_. None), eventHandlers = [], arpCache = [], routeTable = [], ipGenId = 128, udpPcbs = [],
     devices = [\<lparr>tanDevice = [], tanDeviceName = [], dev_address = [0, 0, 0x5e, 0, 0x53, 1],
                 networkInterfaces = [], selfPtr = Some 0\<rparr>],
     written = [], pending = []\<rparr>"

theorem transmitted_frame_parses_witness:
  "\<exists>f. transmit (Some 0) [1, 2] [0xff, 0xff, 0xff, 0xff, 0xff, 0xff] 0x0806 one_device_world =
      (Inr 0, one_device_world\<lparr>written := [(0, f)]\<rparr>) \<and> etherType f = Inr 0x0806 \<and> length f = 60"
  using transmitted_frame_parses [of 0 one_device_world "[0xff, 0xff, 0xff, 0xff, 0xff, 0xff]" "[1, 2]" "0x0806"]
  by (auto simp: one_device_world_def)

text \<open>
  Every outcome of \<open>handler\<close> on what \<open>read\<close> gave: a failed read throws from the resize; fewer than
  14 bytes are read past their end; a frame of a type without a queue is dropped; any other is
  appended to the queue of its type, and announced with a signal.
\<close>

theorem device_handler_outcomes:
  "EtherDevice_handler dev rd w =
    (case rd of
       None \<Rightarrow> (Inl LengthError, w)
     | Some f \<Rightarrow>
         if length f < 14 then (Inl (Undefined OutOfBounds), w)
         else let t = projr (etherType f);
                  pd = \<lparr>pd_type = t, pd_data = drop 14 f, pd_devicePtr = selfPtr dev\<rparr>
              in if map_of (protocolQueues w) t = None then (Inr 0, w)
                 else (Inr 0, w\<lparr>protocolQueues := map_update t (\<lambda>q. q @ [pd]) (protocolQueues w),
                               pending := raise_signal SIGUSR1 (pending w)\<rparr>))"
proof (cases rd)
  case None
  then show ?thesis by (simp add: EtherDevice_handler_def)
next
  case (Some f)
  show ?thesis
  proof (cases "length f < 14")
    case False
    then have "14 \<le> length f" by simp
    then show ?thesis
    proof (cases rule: handler_cases [where w = w and dev = dev])
      case (unknown type)
      then show ?thesis using False Some by simp
    next
      case (queued d s type b q)
      then have "etherType f = Inr type" "drop 14 f = b" by (simp_all add: wire drop_ether_layout)
      then show ?thesis using queued(4,5) False Some by (simp add: Let_def)
    qed
  qed (simp add: Some handler_short)
qed

end
