(* ===== verification/ArpData.thy ===== *)
theory ArpData
  imports EtherFrame
begin

unbundle bit_operations_syntax

text \<open>
  lib/ArpData.h: ARP packets as payloads whose address fields follow the 8-byte header at offsets
  given by the packet's own length bytes.
\<close>

definition ARP_HEADER_SIZE :: nat where "ARP_HEADER_SIZE = 8"
definition OP_REQUEST :: u16 where "OP_REQUEST = 0x0001"
definition OP_REPLY :: u16 where "OP_REPLY = 0x0002"

lemmas arp_consts = ARP_HEADER_SIZE_def OP_REQUEST_def OP_REPLY_def

section \<open>Accessors\<close>

text \<open>The constructors: from the data of a received frame, and of a given size.\<close>

definition ArpData_of :: "bytes \<Rightarrow> bytes result" where
  "ArpData_of d = copy_into (replicate (length d) 0) 0 d"

definition ArpData_sized :: "nat \<Rightarrow> bytes" where
  "ArpData_sized n = replicate n 0"

definition hardwareType :: "bytes \<Rightarrow> u16 result" where
  "hardwareType data = readUint16 data 0"

definition setHardwareType :: "bytes \<Rightarrow> u16 \<Rightarrow> bytes result" where
  "setHardwareType data v = writeUint16 data v 0"

definition protocolType :: "bytes \<Rightarrow> u16 result" where
  "protocolType data = readUint16 data 2"

definition setProtocolType :: "bytes \<Rightarrow> u16 \<Rightarrow> bytes result" where
  "setProtocolType data v = writeUint16 data v 2"

definition hardwareAddressLength :: "bytes \<Rightarrow> u8 result" where
  "hardwareAddressLength data = readUint8 data 4"

definition setHardwareAddressLength :: "bytes \<Rightarrow> u8 \<Rightarrow> bytes result" where
  "setHardwareAddressLength data v = writeUint8 data v 4"

definition protocolAddressLength :: "bytes \<Rightarrow> u8 result" where
  "protocolAddressLength data = readUint8 data 5"

definition setProtocolAddressLength :: "bytes \<Rightarrow> u8 \<Rightarrow> bytes result" where
  "setProtocolAddressLength data v = writeUint8 data v 5"

definition operationCode :: "bytes \<Rightarrow> u16 result" where
  "operationCode data = readUint16 data 6"

definition setOperationCode :: "bytes \<Rightarrow> u16 \<Rightarrow> bytes result" where
  "setOperationCode data v = writeUint16 data v 6"

definition getAddress :: "bytes \<Rightarrow> nat \<Rightarrow> nat \<Rightarrow> bytes result" where
  "getAddress data len offset = vec_read_loop data offset len"

definition senderHardwareAddress :: "bytes \<Rightarrow> bytes result" where
  "senderHardwareAddress data =
     bindE (hardwareAddressLength data) (\<lambda>hal. getAddress data (unat hal) ARP_HEADER_SIZE)"

definition setSenderHardwareAddress :: "bytes \<Rightarrow> bytes \<Rightarrow> bytes result" where
  "setSenderHardwareAddress data address = writeVector data address ARP_HEADER_SIZE"

definition senderProtocolAddress :: "bytes \<Rightarrow> bytes result" where
  "senderProtocolAddress data =
     bindE (hardwareAddressLength data) (\<lambda>hal.
     bindE (protocolAddressLength data) (\<lambda>pal.
     getAddress data (unat pal) (ARP_HEADER_SIZE + unat hal)))"

definition setSenderProtocolAddress :: "bytes \<Rightarrow> bytes \<Rightarrow> bytes result" where
  "setSenderProtocolAddress data address =
     bindE (hardwareAddressLength data) (\<lambda>hal. writeVector data address (ARP_HEADER_SIZE + unat hal))"

definition targetHardwareAddress :: "bytes \<Rightarrow> bytes result" where
  "targetHardwareAddress data =
     bindE (hardwareAddressLength data) (\<lambda>hal.
     bindE (protocolAddressLength data) (\<lambda>pal.
     getAddress data (unat hal) (ARP_HEADER_SIZE + unat hal + unat pal)))"

definition setTargetHardwareAddress :: "bytes \<Rightarrow> bytes \<Rightarrow> bytes result" where
  "setTargetHardwareAddress data address =
     bindE (hardwareAddressLength data) (\<lambda>hal.
     bindE (protocolAddressLength data) (\<lambda>pal.
     writeVector data address (ARP_HEADER_SIZE + unat hal + unat pal)))"

definition targetProtocolAddress :: "bytes \<Rightarrow> bytes result" where
  "targetProtocolAddress data =
     bindE (hardwareAddressLength data) (\<lambda>hal.
     bindE (protocolAddressLength data) (\<lambda>pal.
     getAddress data (unat pal) (ARP_HEADER_SIZE + unat hal * 2 + unat pal)))"

definition setTargetProtocolAddress :: "bytes \<Rightarrow> bytes \<Rightarrow> bytes result" where
  "setTargetProtocolAddress data address =
     bindE (hardwareAddressLength data) (\<lambda>hal.
     bindE (protocolAddressLength data) (\<lambda>pal.
     writeVector data address (ARP_HEADER_SIZE + unat hal * 2 + unat pal)))"

text \<open>The \<open>int\<close> arguments are narrowed to the field widths by the setters.\<close>

definition arpDataFactory :: "int \<Rightarrow> int \<Rightarrow> nat \<Rightarrow> nat \<Rightarrow> int \<Rightarrow> bytes result" where
  "arpDataFactory hwType protType hwLen protLen opCode =
     (let size = ARP_HEADER_SIZE + hwLen * 2 + protLen * 2; d = ArpData_sized size in
     bindE (setHardwareType d (word_of_int hwType)) (\<lambda>d.
     bindE (setProtocolType d (word_of_int protType)) (\<lambda>d.
     bindE (setHardwareAddressLength d (of_nat hwLen)) (\<lambda>d.
     bindE (setProtocolAddressLength d (of_nat protLen)) (\<lambda>d.
     setOperationCode d (word_of_int opCode))))))"

lemmas arp_accessor_defs =
  hardwareType_def setHardwareType_def protocolType_def setProtocolType_def
  hardwareAddressLength_def setHardwareAddressLength_def protocolAddressLength_def
  setProtocolAddressLength_def operationCode_def setOperationCode_def

section \<open>Layout\<close>

text \<open>An ARP packet for 6-byte hardware and 4-byte protocol addresses.\<close>

definition arp_layout ::
  "u16 \<Rightarrow> u16 \<Rightarrow> u16 \<Rightarrow> bytes \<Rightarrow> bytes \<Rightarrow> bytes \<Rightarrow> bytes \<Rightarrow> bytes \<Rightarrow> bytes" where
  "arp_layout ht pt op sha spa tha tpa rest =
     be16 ht @ be16 pt @ [6, 4] @ be16 op @ sha @ spa @ tha @ tpa @ rest"

lemma ArpData_of_copy [simp]: "ArpData_of d = Inr d"
  by (simp add: ArpData_of_def copy_into_all)

lemma arp_header_read [wire]:
  "hardwareType (arp_layout ht pt op sha spa tha tpa rest) = Inr ht"
  "protocolType (arp_layout ht pt op sha spa tha tpa rest) = Inr pt"
  "hardwareAddressLength (arp_layout ht pt op sha spa tha tpa rest) = Inr 6"
  "protocolAddressLength (arp_layout ht pt op sha spa tha tpa rest) = Inr 4"
  "operationCode (arp_layout ht pt op sha spa tha tpa rest) = Inr op"
  using readUint16_wire [of "[]" 0 ht] readUint16_wire [of "be16 ht" 2 pt]
    readUint16_wire [of "be16 ht @ be16 pt @ [6, 4]" 6 op]
    readUint8_wire [of "be16 ht @ be16 pt" 4 6] readUint8_wire [of "be16 ht @ be16 pt @ [6]" 5 4]
  by (simp_all add: arp_accessor_defs arp_layout_def)

lemma arp_address_read [wire]:
  assumes "length sha = 6" "length spa = 4" "length tha = 6" "length tpa = 4"
  shows "senderHardwareAddress (arp_layout ht pt op sha spa tha tpa rest) = Inr sha"
    and "senderProtocolAddress (arp_layout ht pt op sha spa tha tpa rest) = Inr spa"
    and "targetHardwareAddress (arp_layout ht pt op sha spa tha tpa rest) = Inr tha"
    and "targetProtocolAddress (arp_layout ht pt op sha spa tha tpa rest) = Inr tpa"
proof -
  let ?h = "be16 ht @ be16 pt @ [6, 4] @ be16 op"
  have *: "vec_read_loop (?h @ sha @ spa @ tha @ tpa @ rest) 8 6 = Inr sha"
    "vec_read_loop ((?h @ sha) @ spa @ tha @ tpa @ rest) 14 4 = Inr spa"
    "vec_read_loop ((?h @ sha @ spa) @ tha @ tpa @ rest) 18 6 = Inr tha"
    "vec_read_loop ((?h @ sha @ spa @ tha) @ tpa @ rest) 24 4 = Inr tpa"
    using assms by (auto intro!: vec_read_loop_append simp del: append_assoc)
  show "senderHardwareAddress (arp_layout ht pt op sha spa tha tpa rest) = Inr sha"
    "senderProtocolAddress (arp_layout ht pt op sha spa tha tpa rest) = Inr spa"
    "targetHardwareAddress (arp_layout ht pt op sha spa tha tpa rest) = Inr tha"
    "targetProtocolAddress (arp_layout ht pt op sha spa tha tpa rest) = Inr tpa"
    using * by (simp_all add: senderHardwareAddress_def senderProtocolAddress_def
        targetHardwareAddress_def targetProtocolAddress_def getAddress_def arp_header_read arp_consts)
      (simp_all add: arp_layout_def)
qed

lemma arp_address_write [wire]:
  assumes "length sha = 6" "length spa = 4" "length tha = 6" "length tpa = 4"
  shows "length a = 6 \<Longrightarrow> setSenderHardwareAddress (arp_layout ht pt op sha spa tha tpa rest) a
           = Inr (arp_layout ht pt op a spa tha tpa rest)"
    and "length b = 4 \<Longrightarrow> setSenderProtocolAddress (arp_layout ht pt op sha spa tha tpa rest) b
           = Inr (arp_layout ht pt op sha b tha tpa rest)"
    and "length a = 6 \<Longrightarrow> setTargetHardwareAddress (arp_layout ht pt op sha spa tha tpa rest) a
           = Inr (arp_layout ht pt op sha spa a tpa rest)"
    and "length b = 4 \<Longrightarrow> setTargetProtocolAddress (arp_layout ht pt op sha spa tha tpa rest) b
           = Inr (arp_layout ht pt op sha spa tha b rest)"
proof -
  let ?h = "be16 ht @ be16 pt @ [6, 4] @ be16 op"
  note w = writeVector_wire
  show "length a = 6 \<Longrightarrow> setSenderHardwareAddress (arp_layout ht pt op sha spa tha tpa rest) a
           = Inr (arp_layout ht pt op a spa tha tpa rest)"
    using w [of ?h 8 sha a "spa @ tha @ tpa @ rest"] assms
    by (simp add: setSenderHardwareAddress_def arp_consts arp_layout_def)
  show "length b = 4 \<Longrightarrow> setSenderProtocolAddress (arp_layout ht pt op sha spa tha tpa rest) b
           = Inr (arp_layout ht pt op sha b tha tpa rest)"
    using w [of "?h @ sha" 14 spa b "tha @ tpa @ rest"] assms
    by (simp add: setSenderProtocolAddress_def arp_header_read arp_consts) (simp add: arp_layout_def)
  show "length a = 6 \<Longrightarrow> setTargetHardwareAddress (arp_layout ht pt op sha spa tha tpa rest) a
           = Inr (arp_layout ht pt op sha spa a tpa rest)"
    using w [of "?h @ sha @ spa" 18 tha a "tpa @ rest"] assms
    by (simp add: setTargetHardwareAddress_def arp_header_read arp_consts) (simp add: arp_layout_def)
  show "length b = 4 \<Longrightarrow> setTargetProtocolAddress (arp_layout ht pt op sha spa tha tpa rest) b
           = Inr (arp_layout ht pt op sha spa tha b rest)"
    using w [of "?h @ sha @ spa @ tha" 24 tpa b rest] assms
    by (simp add: setTargetProtocolAddress_def arp_header_read arp_consts) (simp add: arp_layout_def)
qed

lemma arpDataFactory_ether_ip:
  "arpDataFactory ht pt 6 4 op =
     Inr (arp_layout (word_of_int ht) (word_of_int pt) (word_of_int op)
            (replicate 6 0) (replicate 4 0) (replicate 6 0) (replicate 4 0) [])"
proof -
  define z :: bytes where "z = replicate 20 0"
  have d: "ArpData_sized 28 = [] @ [0, 0] @ [0, 0, 0, 0, 0, 0] @ z"
    by (simp add: ArpData_sized_def z_def eval_nat_numeral)
  have z: "replicate 6 0 @ replicate 4 0 @ replicate 6 0 @ replicate 4 0 = z"
    by (simp add: z_def flip: replicate_add)
  have "setHardwareType (ArpData_sized 28) v0 = Inr (be16 v0 @ [0, 0] @ [0, 0, 0, 0] @ z)" for v0
    unfolding d setHardwareType_def by (subst writeUint16_wire) simp_all
  moreover have "setProtocolType (be16 v0 @ [0, 0] @ [0, 0, 0, 0] @ z) v1
      = Inr ((be16 v0 @ be16 v1) @ 0 # [0, 0, 0] @ z)" for v0 v1
    unfolding setProtocolType_def by (subst writeUint16_wire) simp_all
  moreover have "setHardwareAddressLength ((be16 v0 @ be16 v1) @ 0 # [0, 0, 0] @ z) v2
      = Inr ((be16 v0 @ be16 v1 @ [v2]) @ 0 # [0, 0] @ z)" for v0 v1 v2
    unfolding setHardwareAddressLength_def by (subst writeUint8_wire) simp_all
  moreover have "setProtocolAddressLength ((be16 v0 @ be16 v1 @ [v2]) @ 0 # [0, 0] @ z) v3
      = Inr ((be16 v0 @ be16 v1 @ [v2, v3]) @ [0, 0] @ z)" for v0 v1 v2 v3
    unfolding setProtocolAddressLength_def by (subst writeUint8_wire) simp_all
  moreover have "setOperationCode ((be16 v0 @ be16 v1 @ [v2, v3]) @ [0, 0] @ z) v4
      = Inr ((be16 v0 @ be16 v1 @ [v2, v3]) @ be16 v4 @ z)" for v0 v1 v2 v3 v4
    unfolding setOperationCode_def by (subst writeUint16_wire) simp_all
  ultimately show ?thesis
    by (simp add: arpDataFactory_def arp_consts arp_layout_def z [symmetric] del: append_assoc append.simps)
qed

text \<open>Every packet with these lengths that is complete is such a layout.\<close>

definition ether_arp :: "bytes \<Rightarrow> bool" where
  "ether_arp d \<longleftrightarrow> 28 \<le> length d \<and> d ! 4 = 6 \<and> d ! 5 = 4"

lemma arp_layout_cases:
  assumes "ether_arp d"
  obtains ht pt op sha sip tha tip rest
  where "d = arp_layout ht pt op sha (be32 sip) tha (be32 tip) rest" "length sha = 6" "length tha = 6"
proof -
  let ?b = "drop 8 d"
  have "8 \<le> length d" using assms by (simp add: ether_arp_def)
  then obtain a0 a1 a2 a3 a4 a5 a6 a7 r where "d = [a0, a1] @ [a2, a3] @ [a4, a5] @ [a6, a7] @ r"
    by (auto simp: eval_nat_numeral Suc_le_length_iff)
  moreover from this assms have "a4 = 6" "a5 = 4" "r = ?b" by (simp_all add: ether_arp_def eval_nat_numeral)
  ultimately have d: "d = [a0, a1] @ [a2, a3] @ [6, 4] @ [a6, a7] @ ?b" by simp
  have "28 \<le> length d" using assms by (simp add: ether_arp_def)
  then have len: "20 \<le> length ?b" by simp
  have be32: "\<exists>v. take 4 xs = be32 v" if "4 \<le> length xs" for xs :: bytes
    using that be32_ex by (auto simp: eval_nat_numeral Suc_le_length_iff)
  obtain sip tip where ip: "take 4 (drop 6 ?b) = be32 sip" "take 4 (drop 16 ?b) = be32 tip"
    using be32 [of "drop 6 ?b"] be32 [of "drop 16 ?b"] len unfolding length_drop by force
  have "drop m ?b = take n (drop m ?b) @ drop (n + m) ?b" for m n
    by (metis append_take_drop_id drop_drop)
  from this [of 0 6] this [of 6 4] this [of 10 6] this [of 16 4]
  have "?b = take 6 ?b @ take 4 (drop 6 ?b) @ take 6 (drop 10 ?b) @ take 4 (drop 16 ?b) @ drop 20 ?b"
    by (simp del: drop_drop)
  then have b: "?b = take 6 ?b @ be32 sip @ take 6 (drop 10 ?b) @ be32 tip @ drop 20 ?b" by (simp only: ip)
  obtain ht pt op where w: "[a0, a1] = be16 ht" "[a2, a3] = be16 pt" "[a6, a7] = be16 op" using be16_ex by metis
  have "d = arp_layout ht pt op (take 6 ?b) (be32 sip) (take 6 (drop 10 ?b)) (be32 tip) (drop 20 ?b)"
    unfolding arp_layout_def w [symmetric] using d b by metis
  then show thesis by (rule that) (use len in simp_all)
qed

text \<open>A payload too short for the fixed header: the first read leaves the buffer.\<close>

lemma arp_header_short:
  "length data < 2 \<Longrightarrow> hardwareType data = Inl (Undefined OutOfBounds)"
  by (simp add: hardwareType_def u16f.get_short)

end
