(* ===== verification/ArpProto.thy ===== *)
theory ArpProto
  imports EtherDev ArpData
begin

unbundle bit_operations_syntax

text \<open>
  lib/Arp.h and lib/Arp.cpp: answering and learning from ARP packets, resolving an address through
  the cache, and requesting one.  \<open>arpDump\<close> only prints, but it converts the address fields on the
  way and throws on lengths other than 6 and 4, so it is part of the behaviour.
\<close>

section \<open>Operations\<close>

definition ARP_HARDWARE_TYPE_ETHER :: int where "ARP_HARDWARE_TYPE_ETHER = 0x0001"
definition ARP_PROTOCOL_TYPE_IP :: int where "ARP_PROTOCOL_TYPE_IP = 0x0800"
definition ETHER_ADDRESS_LEN :: nat where "ETHER_ADDRESS_LEN = 6"
definition IP_ADDRESS_LEN :: nat where "IP_ADDRESS_LEN = 4"

lemmas arp_proto_consts =
  ARP_HARDWARE_TYPE_ETHER_def ARP_PROTOCOL_TYPE_IP_def ETHER_ADDRESS_LEN_def IP_ADDRESS_LEN_def
  ether_consts arp_consts arpType_def INTERFACE_FAMILY_IP_def

definition macAddressToString :: "bytes \<Rightarrow> string result" where
  "macAddressToString a =
     bindE (guardE (length a = 6) (RuntimeError ''invalid mac address length'')) (\<lambda>_. addressToString a)"

definition ipV4ToString :: "bytes \<Rightarrow> string result" where
  "ipV4ToString a =
     bindE (guardE (length a = 4)
       (RuntimeError (''invalid ipv4 address length. length = '' @ fmt_dec (length a)))) (\<lambda>_.
     Inr (fmt_dec (unat (a ! 0)) @ ''.'' @ fmt_dec (unat (a ! 1)) @ ''.'' @
          fmt_dec (unat (a ! 2)) @ ''.'' @ fmt_dec (unat (a ! 3))))"

text \<open>The five messages, in order; each is formatted before the next.\<close>

definition arpDump :: "bytes \<Rightarrow> string list result" where
  "arpDump data =
     bindE (hardwareType data) (\<lambda>ht. bindE (protocolType data) (\<lambda>pt.
     bindE (hardwareAddressLength data) (\<lambda>hl. bindE (protocolAddressLength data) (\<lambda>pl.
     bindE (operationCode data) (\<lambda>op.
     bindE (bindE (senderHardwareAddress data) macAddressToString) (\<lambda>sm.
     bindE (bindE (senderProtocolAddress data) ipV4ToString) (\<lambda>sip.
     bindE (bindE (targetHardwareAddress data) macAddressToString) (\<lambda>tm.
     bindE (bindE (targetProtocolAddress data) ipV4ToString) (\<lambda>tip.
     Inr [''arp : hardware type='' @ fmt_dec (unat ht) @ '', protocol type='' @ fmt_hex 4 (unat pt),
          ''arp : hardware length='' @ fmt_dec (unat hl) @ '', protocol length='' @ fmt_dec (unat pl),
          ''arp : operation code='' @ fmt_dec (unat op),
          ''sender mac address='' @ sm @ '', ip='' @ sip,
          ''target mac address='' @ tm @ '', ip='' @ tip])))))))))"

text \<open>\<open>reply\<close>: the packet built for a request, and its transmission.\<close>

definition reply_packet :: "bytes \<Rightarrow> bytes \<Rightarrow> bytes \<Rightarrow> bytes result" where
  "reply_packet myAddr myIp requestData =
     bindE (arpDataFactory ARP_HARDWARE_TYPE_ETHER ARP_PROTOCOL_TYPE_IP ETHER_ADDRESS_LEN IP_ADDRESS_LEN
              (uint OP_REPLY)) (\<lambda>d.
     bindE (setSenderHardwareAddress d myAddr) (\<lambda>d.
     bindE (setSenderProtocolAddress d myIp) (\<lambda>d.
     bindE (bindE (senderHardwareAddress requestData) (setTargetHardwareAddress d)) (\<lambda>d.
     bindE (bindE (senderProtocolAddress requestData) (setTargetProtocolAddress d)) (\<lambda>d.
     bindE (arpDump d) (\<lambda>_. Inr d))))))"

definition arp_reply :: "IpNetworkInterface \<Rightarrow> bytes \<Rightarrow> (world, int) eff" where
  "arp_reply iface requestData =
     bindM (\<lambda>w. (deref_device (if_devicePtr iface) w, w)) (\<lambda>dev.
     bindM (liftM (reply_packet (EtherDevice_getAddress dev) (getUnicastVector iface) requestData)) (\<lambda>d.
     bindM (liftM (senderHardwareAddress requestData)) (\<lambda>to.
     bindM (transmit (if_devicePtr iface) d to arpType) (\<lambda>_.
     retM 0))))"

definition request_packet :: "bytes \<Rightarrow> bytes \<Rightarrow> u32 \<Rightarrow> bytes result" where
  "request_packet myAddr myIp ip =
     bindE (arpDataFactory ARP_HARDWARE_TYPE_ETHER ARP_PROTOCOL_TYPE_IP ETHER_ADDRESS_LEN IP_ADDRESS_LEN
              (uint OP_REQUEST)) (\<lambda>d.
     bindE (setSenderHardwareAddress d myAddr) (\<lambda>d.
     bindE (setSenderProtocolAddress d myIp) (\<lambda>d.
     bindE (setTargetHardwareAddress d (replicate ETHER_ADDRESS_LEN 0)) (\<lambda>d.
     bindE (setTargetProtocolAddress d (Uint32ToVector ip)) (\<lambda>d.
     bindE (arpDump d) (\<lambda>_. Inr d))))))"

definition arpRequest :: "IpNetworkInterface \<Rightarrow> u32 \<Rightarrow> (world, int) eff" where
  "arpRequest iface ip =
     bindM (\<lambda>w. (deref_device (if_devicePtr iface) w, w)) (\<lambda>dev.
     bindM (liftM (request_packet (EtherDevice_getAddress dev) (getUnicastVector iface) ip)) (\<lambda>d.
     bindM (transmit (if_devicePtr iface) d broadcastAddress arpType) (\<lambda>_.
     retM 0)))"

definition arpResolve :: "IpNetworkInterface \<Rightarrow> u32 \<Rightarrow> (world, bytes) eff" where
  "arpResolve iface ip =
     bindM (getM (\<lambda>w. cache_select (arpCache w) ip)) (\<lambda>c.
     case c of
       Some c \<Rightarrow> retM (hardwareAddress c)
     | None \<Rightarrow> bindM (arpRequest iface ip) (\<lambda>_.
                throwM (ArpResolveException ''not find arp cache. call arp reqest'')))"

text \<open>The four bytes of an address put together.\<close>

definition quad_to_u32 :: "bytes \<Rightarrow> u32 result" where
  "quad_to_u32 a =
     bindE (vec_at a 0) (\<lambda>a0. bindE (vec_at a 1) (\<lambda>a1. bindE (vec_at a 2) (\<lambda>a2. bindE (vec_at a 3) (\<lambda>a3.
     Inr (push_bit 24 (ucast a0) OR push_bit 16 (ucast a1) OR push_bit 8 (ucast a2) OR ucast a3)))))"

definition bad_address_size :: "bytes \<Rightarrow> error" where
  "bad_address_size a = RuntimeError (''not support protocol address size = '' @ fmt_dec (length a))"

text \<open>\<open>ArpProtocolHandler::handle\<close>; the code makes the protocol check twice.\<close>

definition arp_supported :: "bytes \<Rightarrow> unit result" where
  "arp_supported arpData =
     bindE (protocolAddressLength arpData) (\<lambda>pal.
     bindE (protocolType arpData) (\<lambda>pt.
     guardE (unat pal = IP_ADDR_LEN \<and> pt = ETHER_TYPE_IP) (RuntimeError ''not support protocol'')))"

definition arp_handle :: "ProtocolData \<Rightarrow> (world, int) eff" where
  "arp_handle pd =
     bindM (liftM (ArpData_of (pd_data pd))) (\<lambda>arpData.
     bindM (liftM (arpDump arpData)) (\<lambda>_.
     bindM (liftM (arp_supported arpData)) (\<lambda>_.
     bindM (liftM (arp_supported arpData)) (\<lambda>_.
     bindM (\<lambda>w. (deref_device (pd_devicePtr pd) w, w)) (\<lambda>dev.
     bindM (liftM (getTargetInterface dev INTERFACE_FAMILY_IP)) (\<lambda>target.
     case cast_to_ip target of
       None \<Rightarrow> throwM (RuntimeError ''cast error'')
     | Some iface \<Rightarrow>
         bindM (liftM (targetProtocolAddress arpData)) (\<lambda>a.
         bindM (liftM (guardE (length a = IP_ADDR_LEN) (bad_address_size a))) (\<lambda>_.
         bindM (liftM (quad_to_u32 a)) (\<lambda>targetIp.
         bindM (liftM (guardE (targetIp = unicast iface) (bad_address_size a))) (\<lambda>_.
         bindM (liftM (senderProtocolAddress arpData)) (\<lambda>s.
         bindM (liftM (guardE (length s = IP_ADDR_LEN) (bad_address_size s))) (\<lambda>_.
         bindM (liftM (quad_to_u32 s)) (\<lambda>senderIp.
         bindM (liftM (senderHardwareAddress arpData)) (\<lambda>sha.
         let c = \<lparr>protocolAddress = senderIp, hardwareAddress = sha\<rparr> in
         bindM (putM (\<lambda>w. w\<lparr>arpCache := cache_create (arpCache w) c\<rparr>)) (\<lambda>_.
         bindM (liftM (operationCode arpData)) (\<lambda>op.
         if op = OP_REQUEST then bindM (arp_reply iface arpData) (\<lambda>_. retM 0) else retM 0))))))))))))))))"

section \<open>Packets\<close>

lemma quad_to_u32_read: "quad_to_u32 a = readUint32 a 0"
  by (simp add: quad_to_u32_def readUint32_def eval_nat_numeral)

lemma quad_to_u32_be32 [simp]: "quad_to_u32 (be32 v) = Inr v"
  using readUint32_wire [of "[]" 0 v "[]"] by (simp add: quad_to_u32_read)

lemma length_4_be32: "length (a :: bytes) = 4 \<Longrightarrow> \<exists>v. a = be32 v"
  by (auto simp: length_Suc_conv eval_nat_numeral intro: be32_ex)

lemma macAddressToString_ok: "length a = 6 \<Longrightarrow> \<exists>s. macAddressToString a = Inr s"
  by (simp add: macAddressToString_def addressToString_def vec_at_def)

lemma ipV4ToString_ok: "length a = 4 \<Longrightarrow> \<exists>s. ipV4ToString a = Inr s"
  by (simp add: ipV4ToString_def)

lemma arpDump_layout:
  assumes "length sha = 6" "length spa = 4" "length tha = 6" "length tpa = 4"
  shows "\<exists>ms. arpDump (arp_layout ht pt op sha spa tha tpa rest) = Inr ms"
  using assms macAddressToString_ok [of sha] macAddressToString_ok [of tha]
    ipV4ToString_ok [of spa] ipV4ToString_ok [of tpa]
  by (auto simp: arpDump_def wire)

text \<open>
  Every other packet: the dump fails, with one of three errors.  Which one it is for a packet with
  several faults depends on the order in which the compiler evaluates the two conversions of a
  message; the definition takes them from left to right.
\<close>

definition dump_error :: "error \<Rightarrow> bool" where
  "dump_error e \<longleftrightarrow> e = Undefined OutOfBounds \<or> e = RuntimeError ''invalid mac address length'' \<or>
     (\<exists>n. e = RuntimeError (''invalid ipv4 address length. length = '' @ fmt_dec n))"

lemma getAddress_cases:
  "getAddress d n i = Inl (Undefined OutOfBounds) \<or>
   (\<exists>a. getAddress d n i = Inr a \<and> length a = n \<and> (0 < n \<longrightarrow> i + n \<le> length d))"
  unfolding ArpData.getAddress_def by (rule vec_read_loop_cases)

lemma dump_error_simps [simp]:
  "dump_error (Undefined OutOfBounds)" "dump_error (RuntimeError ''invalid mac address length'')"
  "dump_error (RuntimeError (''invalid ipv4 address length. length = '' @ fmt_dec n))"
  by (auto simp: dump_error_def)

lemma getAddress_fails: "getAddress d n i = Inl e \<Longrightarrow> dump_error e"
  using getAddress_cases [of d n i] by auto

lemma macAddressToString_fails: "macAddressToString a = Inl e \<Longrightarrow> dump_error e"
  using macAddressToString_ok [of a] by (cases "length a = 6") (auto simp: macAddressToString_def)

lemma ipV4ToString_fails: "ipV4ToString a = Inl e \<Longrightarrow> dump_error e"
  by (cases "length a = 4") (auto simp: ipV4ToString_def simp del: append.simps)

lemma to_string_length:
  "macAddressToString a = Inr s \<Longrightarrow> length a = 6" "ipV4ToString a = Inr s \<Longrightarrow> length a = 4"
  by (auto simp: macAddressToString_def ipV4ToString_def bindE_eq_Inr_iff)

lemma arp_header_cases:
  "(hardwareType d = Inl (Undefined OutOfBounds) \<or> (\<exists>v. hardwareType d = Inr v)) \<and>
   (protocolType d = Inl (Undefined OutOfBounds) \<or> (\<exists>v. protocolType d = Inr v)) \<and>
   (hardwareAddressLength d = Inl (Undefined OutOfBounds) \<or> hardwareAddressLength d = Inr (d ! 4)) \<and>
   (protocolAddressLength d = Inl (Undefined OutOfBounds) \<or> protocolAddressLength d = Inr (d ! 5)) \<and>
   (operationCode d = Inl (Undefined OutOfBounds) \<or> (\<exists>v. operationCode d = Inr v))"
  by (simp add: arp_accessor_defs readUint8_def readUint16_def vec_at_def)

lemma arpDump_fails:
  assumes "\<not> ether_arp d"
  shows "\<exists>e. arpDump d = Inl e \<and> dump_error e"
proof (cases "arpDump d")
  case (Inl e)
  from Inl have "dump_error e" using arp_header_cases [of d]
    by (auto simp: arpDump_def bindE_eq_Inl_iff senderHardwareAddress_def senderProtocolAddress_def
        targetHardwareAddress_def targetProtocolAddress_def
        dest: getAddress_fails macAddressToString_fails ipV4ToString_fails)
  with Inl show ?thesis by simp
next
  case (Inr ms)
  then obtain sm sip tip where a: "senderHardwareAddress d = Inr sm" "length sm = 6"
    "senderProtocolAddress d = Inr sip" "length sip = 4" "targetProtocolAddress d = Inr tip" "length tip = 4"
    by (auto simp: arpDump_def bindE_eq_Inr_iff dest: to_string_length)
  then have hl: "hardwareAddressLength d = Inr (d ! 4)" "protocolAddressLength d = Inr (d ! 5)"
    using arp_header_cases [of d] by (auto simp: senderHardwareAddress_def senderProtocolAddress_def)
  have "d ! 4 = 6" "d ! 5 = 4" "28 \<le> length d"
    using a hl getAddress_cases [of d "unat (d ! 4)" 8] getAddress_cases [of d "unat (d ! 5)" "8 + unat (d ! 4)"]
      getAddress_cases [of d "unat (d ! 5)" "8 + unat (d ! 4) * 2 + unat (d ! 5)"]
    by (auto simp: senderHardwareAddress_def senderProtocolAddress_def targetProtocolAddress_def arp_consts
        word_unat_eq_iff)
  with assms show ?thesis by (simp add: ether_arp_def)
qed

text \<open>A hardware address length other than 6: the dump throws before any check of the handler.\<close>

lemma arpDump_bad_length:
  assumes "8 + unat hl \<le> length d" "hardwareAddressLength d = Inr hl" "hl \<noteq> 6"
  shows "arpDump d = Inl (RuntimeError ''invalid mac address length'')"
proof -
  have len: "8 \<le> length d" using assms by simp
  obtain ht pt pl op where "hardwareType d = Inr ht" "protocolType d = Inr pt"
    "protocolAddressLength d = Inr pl" "operationCode d = Inr op"
    using len u16f.get_total [of 0 d] u16f.get_total [of 2 d] u16f.get_total [of 6 d] u8f.get_total [of 5 d]
    by (auto simp: arp_accessor_defs)
  moreover have "senderHardwareAddress d = Inr (take (unat hl) (drop 8 d))"
    using assms by (simp add: senderHardwareAddress_def ArpData.getAddress_def vec_read_loop_in arp_consts)
  moreover have "unat hl \<noteq> 6"
    using assms(3) by (simp add: word_unat_eq_iff)
  ultimately show ?thesis
    using assms by (simp add: arpDump_def macAddressToString_def)
qed

lemma reply_packet_layout:
  assumes "length myAddr = 6" "length sha = 6" "length spa = 4" "length tha = 6" "length tpa = 4"
    "length myIp = 4"
  shows "reply_packet myAddr myIp (arp_layout ht pt op sha spa tha tpa rest) =
     Inr (arp_layout 1 0x0800 2 myAddr myIp sha spa [])"
proof -
  obtain ms where "arpDump (arp_layout 1 0x0800 2 myAddr myIp sha spa []) = Inr ms"
    using arpDump_layout assms by blast
  with assms show ?thesis
    by (simp add: reply_packet_def arpDataFactory_ether_ip wire arp_proto_consts)
qed

lemma request_packet_layout:
  assumes "length myAddr = 6" "length myIp = 4"
  shows "request_packet myAddr myIp ip =
     Inr (arp_layout 1 0x0800 1 myAddr myIp (replicate 6 0) (be32 ip) [])"
proof -
  obtain ms where "arpDump (arp_layout 1 0x0800 1 myAddr myIp (replicate 6 0) (be32 ip) []) = Inr ms"
    using arpDump_layout [of myAddr myIp "replicate 6 0" "be32 ip"] assms by fastforce
  with assms show ?thesis
    by (simp add: request_packet_def arpDataFactory_ether_ip wire arp_proto_consts Uint32ToVector_be32)
qed

section \<open>Resolution\<close>

text \<open>The frames the ARP code writes.\<close>

definition request_frame :: "EtherDevice \<Rightarrow> IpNetworkInterface \<Rightarrow> u32 \<Rightarrow> bytes" where
  "request_frame dev iface ip =
     ether_layout broadcastAddress (dev_address dev) arpType
       (ether_pad (arp_layout 1 0x0800 1 (dev_address dev) (be32 (unicast iface)) (replicate 6 0) (be32 ip) []))"

definition reply_frame :: "EtherDevice \<Rightarrow> IpNetworkInterface \<Rightarrow> bytes \<Rightarrow> bytes \<Rightarrow> bytes" where
  "reply_frame dev iface sha spa =
     ether_layout sha (dev_address dev) arpType
       (ether_pad (arp_layout 1 0x0800 2 (dev_address dev) (be32 (unicast iface)) sha spa []))"

definition valid_device :: "world \<Rightarrow> nat \<Rightarrow> EtherDevice \<Rightarrow> bool" where
  "valid_device w k dev \<longleftrightarrow> k < length (devices w) \<and> devices w ! k = dev \<and> length (dev_address dev) = 6"

lemma deref_valid: "valid_device w k dev \<Longrightarrow> deref_device (Some k) w = Inr dev"
  by (simp add: valid_device_def deref_device_def)

lemma bindM_deref:
  "bindM (\<lambda>w. (deref_device p w, w)) f w =
     (case deref_device p w of Inl e \<Rightarrow> (Inl e, w) | Inr d \<Rightarrow> f d w)"
  by (simp add: bindM_apply)

lemma valid_device_addr: "valid_device w k dev \<Longrightarrow> length (dev_address dev) = 6"
  by (simp add: valid_device_def)

lemma transmit_valid:
  "valid_device w k dev \<Longrightarrow> length to = 6 \<Longrightarrow> transmit (Some k) data to type w =
     (Inr 0, w\<lparr>written := written w @ [(k, ether_layout to (dev_address dev) type (ether_pad data))]\<rparr>)"
  by (auto simp: valid_device_def transmit_ok)

lemma arpRequest_ok:
  assumes "valid_device w k dev" "if_devicePtr iface = Some k"
  shows "arpRequest iface ip w = (Inr 0, w\<lparr>written := written w @ [(k, request_frame dev iface ip)]\<rparr>)"
  using assms valid_device_addr [OF assms(1)]
  by (simp add: arpRequest_def bindM_deref deref_valid request_packet_layout getUnicastVector_be32
      transmit_valid [THEN bindM_Inr] request_frame_def)

lemma arpResolve_hit:
  "cache_select (arpCache w) ip = Some c \<Longrightarrow> arpResolve iface ip w = (Inr (hardwareAddress c), w)"
  by (simp add: arpResolve_def)

lemma arpResolve_miss:
  assumes "cache_select (arpCache w) ip = None" "valid_device w k dev" "if_devicePtr iface = Some k"
  shows "arpResolve iface ip w =
    (Inl (ArpResolveException ''not find arp cache. call arp reqest''),
     w\<lparr>written := written w @ [(k, request_frame dev iface ip)]\<rparr>)"
  using assms by (simp add: arpResolve_def bindM_apply arpRequest_ok)

lemma arp_reply_ok:
  assumes "valid_device w k dev" "if_devicePtr iface = Some k"
    "length sha = 6" "length spa = 4" "length tha = 6" "length tpa = 4"
  shows "arp_reply iface (arp_layout ht pt op sha spa tha tpa rest) w =
    (Inr 0, w\<lparr>written := written w @ [(k, reply_frame dev iface sha spa)]\<rparr>)"
  using assms valid_device_addr [OF assms(1)]
  by (simp add: arp_reply_def bindM_deref deref_valid reply_packet_layout getUnicastVector_be32
      wire transmit_valid [THEN bindM_Inr] reply_frame_def)

section \<open>The handler\<close>

text \<open>The interface the handlers find for a packet from device \<open>k\<close>.\<close>

definition ip_iface_of :: "EtherDevice \<Rightarrow> IpNetworkInterface \<Rightarrow> bool" where
  "ip_iface_of dev iface \<longleftrightarrow> getTargetInterface dev INTERFACE_FAMILY_IP = Inr (IpInterface iface)"

definition learn :: "u32 \<Rightarrow> bytes \<Rightarrow> world \<Rightarrow> world" where
  "learn ip mac w =
     w\<lparr>arpCache := cache_create (arpCache w) \<lparr>protocolAddress = ip, hardwareAddress = mac\<rparr>\<rparr>"

lemma valid_device_frame [simp]:
  "valid_device (w\<lparr>arpCache := x\<rparr>) k dev = valid_device w k dev"
  "valid_device (w\<lparr>written := y\<rparr>) k dev = valid_device w k dev"
  "valid_device (w\<lparr>ipGenId := z\<rparr>) k dev = valid_device w k dev"
  by (simp_all add: valid_device_def)

lemma arp_handle_layout:
  assumes dev: "valid_device w k dev" "pd_devicePtr pd = Some k"
    and iface: "ip_iface_of dev iface" "if_devicePtr iface = Some k"
    and pkt: "pd_data pd = arp_layout ht 0x0800 op sha (be32 sip) tha (be32 tip) rest"
      "length sha = 6" "length tha = 6"
  shows "arp_handle pd w =
    (if tip \<noteq> unicast iface then (Inl (bad_address_size (be32 tip)), w)
     else if op = OP_REQUEST
       then (Inr 0, (learn sip sha w)\<lparr>written := written w @ [(k, reply_frame dev iface sha (be32 sip))]\<rparr>)
     else (Inr 0, learn sip sha w))"
proof -
  obtain ms where "arpDump (pd_data pd) = Inr ms"
    using pkt arpDump_layout [of sha "be32 sip" tha "be32 tip"] by fastforce
  then show ?thesis
    using assms
    by (simp add: arp_handle_def arp_supported_def wire arp_proto_consts bindM_deref deref_valid
        ip_iface_of_def learn_def arp_reply_ok [THEN bindM_Inr])
qed

lemma arp_handle_short:
  assumes "length (pd_data pd) < 2"
  shows "arp_handle pd w = (Inl (Undefined OutOfBounds), w)"
  using assms by (simp add: arp_handle_def arpDump_def arp_header_short)

lemma arp_handle_bad_hlen:
  assumes "8 + unat hl \<le> length (pd_data pd)" "hardwareAddressLength (pd_data pd) = Inr hl" "hl \<noteq> 6"
  shows "arp_handle pd w = (Inl (RuntimeError ''invalid mac address length''), w)"
  using assms by (simp add: arp_handle_def arpDump_bad_length)

text \<open>A complete packet with Ethernet and IPv4 address lengths, of whatever protocol.\<close>

lemma arp_handle_complete:
  assumes "valid_device w k dev" "pd_devicePtr pd = Some k" "ip_iface_of dev iface" "if_devicePtr iface = Some k"
    and "pd_data pd = arp_layout ht pt op sha (be32 sip) tha (be32 tip) rest" "length sha = 6" "length tha = 6"
  shows "arp_handle pd w =
    (if pt \<noteq> 0x0800 then (Inl (RuntimeError ''not support protocol''), w)
     else if tip \<noteq> unicast iface then (Inl (bad_address_size (be32 tip)), w)
     else if op = 1
       then (Inr 0, (learn sip sha w)\<lparr>written := written w @ [(k, reply_frame dev iface sha (be32 sip))]\<rparr>)
     else (Inr 0, learn sip sha w))"
proof (cases "pt = 0x0800")
  case True
  then show ?thesis using assms arp_handle_layout [of w k dev pd iface ht op sha sip tha tip rest]
    by (simp add: OP_REQUEST_def)
next
  case False
  obtain ms where "arpDump (pd_data pd) = Inr ms"
    using assms(5-7) arpDump_layout [of sha "be32 sip" tha "be32 tip"] by fastforce
  with False show ?thesis
    using assms(5-7) by (simp add: arp_handle_def arp_supported_def wire arp_proto_consts)
qed

section \<open>What the ARP code leaves alone\<close>

text \<open>
  Everything but the cache and the written frames; proved along the structure of the operations.
\<close>

lemma deref_keeps [frame_intros]: "keeps I (\<lambda>w. (deref_device p w, w))"
  by (simp add: keeps_def)

lemma arp_reply_keeps [frame_intros]:
  "(\<And>w x. I w \<Longrightarrow> I (w\<lparr>written := x\<rparr>)) \<Longrightarrow> keeps I (arp_reply iface d)"
  unfolding arp_reply_def by (intro frame_intros)

lemma arpRequest_keeps [frame_intros]:
  "(\<And>w x. I w \<Longrightarrow> I (w\<lparr>written := x\<rparr>)) \<Longrightarrow> keeps I (arpRequest iface ip)"
  unfolding arpRequest_def by (intro frame_intros)

lemma arpResolve_keeps [frame_intros]:
  "(\<And>w x. I w \<Longrightarrow> I (w\<lparr>written := x\<rparr>)) \<Longrightarrow> keeps I (arpResolve iface ip)"
  unfolding arpResolve_def by (intro frame_intros)

lemma arp_handle_keeps [frame_intros]:
  "(\<And>w x. I w \<Longrightarrow> I (w\<lparr>written := x\<rparr>)) \<Longrightarrow> (\<And>w c. I w \<Longrightarrow> I (w\<lparr>arpCache := cache_create (arpCache w) c\<rparr>)) \<Longrightarrow>
    keeps I (arp_handle pd)"
  unfolding arp_handle_def Let_def by (intro frame_intros)

section \<open>Properties\<close>

text \<open>A device with one interface, 192.0.2.2, and a packet from 192.0.2.1 for the witnesses.\<close>

definition one_iface :: IpNetworkInterface where
  "one_iface = \<lparr>if_family = 1, unicast = 0xC0000202, broadcast = 0xC00002FF, netmask = 0xFFFFFF00,
     if_devicePtr = Some 0\<rparr>"

definition one_device :: EtherDevice where
  "one_device = \<lparr>tanDevice = [], tanDeviceName = [], dev_address = [0, 0, 0x5e, 0, 0x53, 1],
     networkInterfaces = [IpInterface one_iface], selfPtr = Some 0\<rparr>"

definition iface_world :: world where
  "iface_world = one_device_world\<lparr>devices := [one_device]\<rparr>"

definition one_request :: ProtocolData where
  "one_request = \<lparr>pd_type = arpType,
     pd_data = arp_layout 1 0x0800 1 [2, 0, 0, 0, 0, 1] (be32 0xC0000201) (replicate 6 0) (be32 0xC0000202) [],
     pd_devicePtr = Some 0\<rparr>"

lemma iface_world_facts:
  "valid_device iface_world 0 one_device" "ip_iface_of one_device one_iface" "if_devicePtr one_iface = Some 0"
  by (simp_all add: valid_device_def iface_world_def one_device_def ip_iface_of_def getTargetInterface_def
      INTERFACE_FAMILY_IP_def one_iface_def)

text \<open>
  C29. The handler on any packet.  One that is not complete or has address lengths other than those of
  Ethernet and IPv4 is read past its end or throws while it is logged, and changes nothing.  Any
  other packet consists of the fields of an ARP packet for these lengths: a protocol other than IPv4 and
  a target address other than the interface's throw and change nothing; for the others the
  sender's addresses go to the cache, before the operation is looked at, and a request is answered
  with a frame to the sender's hardware address.
\<close>

theorem arp_handle_outcomes:
  assumes "valid_device w k dev" "pd_devicePtr pd = Some k" "ip_iface_of dev iface" "if_devicePtr iface = Some k"
  shows "(\<not> ether_arp (pd_data pd) \<longrightarrow> (\<exists>e. arp_handle pd w = (Inl e, w) \<and> dump_error e)) \<and>
    (ether_arp (pd_data pd) \<longrightarrow> (\<exists>ht pt op sha sip tha tip rest. length sha = 6 \<and> length tha = 6 \<and>
       pd_data pd = arp_layout ht pt op sha (be32 sip) tha (be32 tip) rest)) \<and>
    (\<forall>ht pt op sha sip tha tip rest. length sha = 6 \<and> length tha = 6 \<and>
       pd_data pd = arp_layout ht pt op sha (be32 sip) tha (be32 tip) rest \<longrightarrow>
       arp_handle pd w =
        (if pt \<noteq> 0x0800 then (Inl (RuntimeError ''not support protocol''), w)
         else if tip \<noteq> unicast iface then (Inl (bad_address_size (be32 tip)), w)
         else if op = 1
           then (Inr 0, (learn sip sha w)\<lparr>written := written w @ [(k, reply_frame dev iface sha (be32 sip))]\<rparr>)
         else (Inr 0, learn sip sha w)))"
proof (intro conjI allI impI)
  assume "\<not> ether_arp (pd_data pd)"
  from arpDump_fails [OF this] obtain e where "arpDump (pd_data pd) = Inl e" "dump_error e" by blast
  then show "\<exists>e. arp_handle pd w = (Inl e, w) \<and> dump_error e" by (simp add: arp_handle_def)
next
  assume "ether_arp (pd_data pd)"
  then show "\<exists>ht pt op sha sip tha tip rest. length sha = 6 \<and> length tha = 6 \<and>
      pd_data pd = arp_layout ht pt op sha (be32 sip) tha (be32 tip) rest" by (metis arp_layout_cases)
qed (elim conjE, rule arp_handle_complete [OF assms])

text \<open>A packet whose hardware address length is 8.\<close>

definition odd_request :: ProtocolData where
  "odd_request = one_request\<lparr>pd_data := (pd_data one_request)[4 := 8]\<rparr>"

theorem arp_handle_outcomes_witness:
  "arp_handle one_request iface_world =
    (Inr 0, (learn 0xC0000201 [2, 0, 0, 0, 0, 1] iface_world)\<lparr>written :=
       [(0, reply_frame one_device one_iface [2, 0, 0, 0, 0, 1] (be32 0xC0000201))]\<rparr>) \<and>
   (\<exists>e. arp_handle odd_request iface_world = (Inl e, iface_world) \<and> dump_error e)"
proof
  have "pd_data one_request = arp_layout 1 0x0800 1 [2, 0, 0, 0, 0, 1] (be32 0xC0000201) (replicate 6 0) (be32 0xC0000202) []"
    by (simp add: one_request_def)
  then show "arp_handle one_request iface_world =
    (Inr 0, (learn 0xC0000201 [2, 0, 0, 0, 0, 1] iface_world)\<lparr>written :=
       [(0, reply_frame one_device one_iface [2, 0, 0, 0, 0, 1] (be32 0xC0000201))]\<rparr>)"
    using arp_handle_outcomes [OF iface_world_facts(1) _ iface_world_facts(2,3), of one_request]
    by (simp add: one_request_def one_iface_def iface_world_def one_device_world_def)
  have "\<not> ether_arp (pd_data odd_request)"
    by (simp add: ether_arp_def odd_request_def one_request_def arp_layout_def be16_def)
  then show "\<exists>e. arp_handle odd_request iface_world = (Inl e, iface_world) \<and> dump_error e"
    using arp_handle_outcomes [OF iface_world_facts(1) _ iface_world_facts(2,3), of odd_request]
    by (simp add: odd_request_def one_request_def)
qed

text \<open>
  Resolution: a cached address is returned and nothing is sent; otherwise one request is
  broadcast and the exception that means "try again later" is thrown, whatever comes back.
\<close>

theorem resolution_outcomes:
  assumes "valid_device w k dev" "if_devicePtr iface = Some k"
  shows "arpResolve iface ip w =
    (case cache_select (arpCache w) ip of
       Some c \<Rightarrow> (Inr (hardwareAddress c), w)
     | None \<Rightarrow> (Inl (ArpResolveException ''not find arp cache. call arp reqest''),
               w\<lparr>written := written w @ [(k, request_frame dev iface ip)]\<rparr>))"
  using assms by (cases "cache_select (arpCache w) ip") (simp_all add: arpResolve_hit arpResolve_miss)

theorem resolution_outcomes_witness:
  "arpResolve one_iface 0xC0000201 (learn 0xC0000201 [2, 0, 0, 0, 0, 1] iface_world) =
     (Inr [2, 0, 0, 0, 0, 1], learn 0xC0000201 [2, 0, 0, 0, 0, 1] iface_world) \<and>
   fst (arpResolve one_iface 0xC0000203 iface_world) =
     Inl (ArpResolveException ''not find arp cache. call arp reqest'')"
proof -
  have "valid_device (learn 0xC0000201 [2, 0, 0, 0, 0, 1] iface_world) 0 one_device"
    using iface_world_facts(1) by (simp add: learn_def)
  from resolution_outcomes [OF this iface_world_facts(3), of "0xC0000201"]
    resolution_outcomes [OF iface_world_facts(1,3), of "0xC0000203"]
  show ?thesis
    by (simp add: learn_def cache_create_def cache_select_def iface_world_def one_device_world_def)
qed

end
