(* ===== verification/Ipv4Data.thy ===== *)
theory Ipv4Data
  imports BinaryPayload Checksum IpUtils
begin

unbundle bit_operations_syntax

text \<open>
  lib/Ipv4Data.h: IPv4 packets as payloads.  The accessors are modelled byte for byte; the record
  \<open>ip_header\<close> is the abstract view of the fixed 20 bytes, and each accessor is shown to be the
  selection or the update of one of its fields.
\<close>

definition IP_VERSION_IPV4 :: u8 where "IP_VERSION_IPV4 = 4"

section \<open>Accessors\<close>

definition Ipv4Data_of :: "bytes \<Rightarrow> bytes result" where
  "Ipv4Data_of d = copy_into (replicate (length d) 0) 0 d"

text \<open>The constructor from a size, an \<open>int\<close>; nothing calls it.\<close>

definition Ipv4Data_sized :: "int \<Rightarrow> bytes result" where
  "Ipv4Data_sized n = (if n < 0 then Inl LengthError else Inr (replicate (nat n) 0))"

definition versionAndHeaderLength :: "bytes \<Rightarrow> u8 result" where
  "versionAndHeaderLength data = readUint8 data 0"

definition set_versionAndHeaderLength :: "bytes \<Rightarrow> u8 \<Rightarrow> bytes result" where
  "set_versionAndHeaderLength data v = writeUint8 data v 0"

definition ip_version :: "bytes \<Rightarrow> u8 result" where
  "ip_version data = bindE (versionAndHeaderLength data) (\<lambda>value. Inr (drop_bit 4 (value AND 0xF0)))"

definition headerLength :: "bytes \<Rightarrow> u8 result" where
  "headerLength data = bindE (versionAndHeaderLength data) (\<lambda>value. Inr (value AND 0x0F))"

definition headerLengthByte :: "bytes \<Rightarrow> u16 result" where
  "headerLengthByte data = bindE (headerLength data) (\<lambda>l. Inr (ucast l * 4))"

definition set_ip_version :: "bytes \<Rightarrow> u8 \<Rightarrow> bytes result" where
  "set_ip_version data value =
     bindE (headerLength data) (\<lambda>hl. writeUint8 data (push_bit 4 value OR hl) 0)"

definition set_headerLength :: "bytes \<Rightarrow> u8 \<Rightarrow> bytes result" where
  "set_headerLength data value =
     bindE (ip_version data) (\<lambda>v. writeUint8 data (push_bit 4 v OR (value AND 0x0F)) 0)"

definition typeOfService :: "bytes \<Rightarrow> u8 result" where
  "typeOfService data = readUint8 data 1"

definition set_typeOfService :: "bytes \<Rightarrow> u8 \<Rightarrow> bytes result" where
  "set_typeOfService data v = writeUint8 data v 1"

definition totalLength :: "bytes \<Rightarrow> u16 result" where
  "totalLength data = readUint16 data 2"

definition set_totalLength :: "bytes \<Rightarrow> u16 \<Rightarrow> bytes result" where
  "set_totalLength data v = writeUint16 data v 2"

definition identification :: "bytes \<Rightarrow> u16 result" where
  "identification data = readUint16 data 4"

definition set_identification :: "bytes \<Rightarrow> u16 \<Rightarrow> bytes result" where
  "set_identification data v = writeUint16 data v 4"

definition flagsAndFragmentOffset :: "bytes \<Rightarrow> u16 result" where
  "flagsAndFragmentOffset data = readUint16 data 6"

definition set_flagsAndFragmentOffset :: "bytes \<Rightarrow> u16 \<Rightarrow> bytes result" where
  "set_flagsAndFragmentOffset data v = writeUint16 data v 6"

definition timeToLive :: "bytes \<Rightarrow> u8 result" where
  "timeToLive data = readUint8 data 8"

definition set_timeToLive :: "bytes \<Rightarrow> u8 \<Rightarrow> bytes result" where
  "set_timeToLive data v = writeUint8 data v 8"

definition ip_protocol :: "bytes \<Rightarrow> u8 result" where
  "ip_protocol data = readUint8 data 9"

definition set_ip_protocol :: "bytes \<Rightarrow> u8 \<Rightarrow> bytes result" where
  "set_ip_protocol data v = writeUint8 data v 9"

definition ip_checksum :: "bytes \<Rightarrow> u16 result" where
  "ip_checksum data = readUint16 data 10"

definition set_ip_checksum :: "bytes \<Rightarrow> u16 \<Rightarrow> bytes result" where
  "set_ip_checksum data v = writeUint16 data v 10"

definition ip_src :: "bytes \<Rightarrow> u32 result" where
  "ip_src data = readUint32 data 12"

definition set_ip_src :: "bytes \<Rightarrow> u32 \<Rightarrow> bytes result" where
  "set_ip_src data v = writeUint32 data v 12"

definition ip_dst :: "bytes \<Rightarrow> u32 result" where
  "ip_dst data = readUint32 data 16"

definition set_ip_dst :: "bytes \<Rightarrow> u32 \<Rightarrow> bytes result" where
  "set_ip_dst data v = writeUint32 data v 16"

text \<open>The default constructor: 20 zero bytes, version 4, header length 5 words.\<close>

definition Ipv4Data_new :: "bytes result" where
  "Ipv4Data_new =
     bindE (set_ip_version (replicate 20 0) IP_VERSION_IPV4) (\<lambda>d. set_headerLength d 5)"

text \<open>
  \<open>payload()\<close>: the difference of the two lengths is an \<open>int\<close>; a negative one makes the vector's
  constructor throw.
\<close>

definition ip_payload :: "bytes \<Rightarrow> bytes result" where
  "ip_payload data =
     bindE (totalLength data) (\<lambda>total.
     bindE (headerLengthByte data) (\<lambda>hlen.
     if unat total < unat hlen then Inl LengthError
     else copy_from data (unat hlen) (unat total - unat hlen)))"

text \<open>\<open>payload(d)\<close>: the new length is computed in 16 bits.\<close>

definition set_ip_payload :: "bytes \<Rightarrow> bytes \<Rightarrow> bytes result" where
  "set_ip_payload data d =
     bindE (headerLengthByte data) (\<lambda>hlen.
     let l = hlen + of_nat (length d) in
     bindE (set_totalLength data l) (\<lambda>data.
     copy_into (vec_resize data (unat l) 0) (unat hlen) d))"

definition verifyHeader :: "bytes \<Rightarrow> bool result" where
  "verifyHeader data =
     bindE (headerLength data) (\<lambda>hl.
     let headerByteLen = unat hl * 4 in
     bindE (calculateChecksum data 0 headerByteLen) (\<lambda>ret. Inr (ret = 0xFFFF)))"

definition setCheckSum :: "bytes \<Rightarrow> bytes result" where
  "setCheckSum data =
     bindE (headerLengthByte data) (\<lambda>headerLen.
     bindE (set_ip_checksum data 0) (\<lambda>data.
     bindE (calculateChecksum data 0 (unat headerLen)) (\<lambda>c.
     set_ip_checksum data (NOT c))))"

definition Ipv4Data_info :: "bytes \<Rightarrow> string result" where
  "Ipv4Data_info data =
     bindE (ip_version data) (\<lambda>v. bindE (headerLength data) (\<lambda>hl.
     bindE (typeOfService data) (\<lambda>tos. bindE (totalLength data) (\<lambda>tl.
     bindE (identification data) (\<lambda>i. bindE (flagsAndFragmentOffset data) (\<lambda>fl.
     bindE (timeToLive data) (\<lambda>ttl. bindE (ip_protocol data) (\<lambda>p.
     bindE (ip_src data) (\<lambda>s. bindE (ip_dst data) (\<lambda>t.
     Inr (''version = '' @ fmt_dec (unat v) @ '', headerLength = '' @ fmt_dec (unat hl) @ '', '' @
          ''typeOfService = '' @ fmt_dec (unat tos) @ '', totalLength = '' @ fmt_dec (unat tl) @ '', '' @
          ''identification = '' @ fmt_dec (unat i) @
          '', flagsAndFragmentOffset = '' @ fmt_dec (unat fl) @ '', '' @
          ''timeToLive = '' @ fmt_dec (unat ttl) @ '', protocol = '' @ fmt_dec (unat p) @ '', '' @
          ''src = '' @ Uint32ToIpv4str s @ '', dst = '' @ Uint32ToIpv4str t @ '', '')))))))))))"

lemmas ip_accessor_defs =
  versionAndHeaderLength_def set_versionAndHeaderLength_def typeOfService_def set_typeOfService_def
  totalLength_def set_totalLength_def identification_def set_identification_def
  flagsAndFragmentOffset_def set_flagsAndFragmentOffset_def timeToLive_def set_timeToLive_def
  ip_protocol_def set_ip_protocol_def ip_checksum_def set_ip_checksum_def ip_src_def set_ip_src_def ip_dst_def set_ip_dst_def

section \<open>The abstract header\<close>

record ip_header =
  h_vhl :: u8
  h_tos :: u8
  h_total :: u16
  h_id :: u16
  h_flags :: u16
  h_ttl :: u8
  h_proto :: u8
  h_check :: u16
  h_src :: u32
  h_dst :: u32

definition ip_layout :: "ip_header \<Rightarrow> bytes \<Rightarrow> bytes" where
  "ip_layout h rest =
     [h_vhl h, h_tos h] @ be16 (h_total h) @ be16 (h_id h) @ be16 (h_flags h) @ [h_ttl h, h_proto h] @
     be16 (h_check h) @ be32 (h_src h) @ be32 (h_dst h) @ rest"

lemma length_ip_layout [simp]: "length (ip_layout h rest) = 20 + length rest"
  by (simp add: ip_layout_def)

lemma Ipv4Data_of_copy [simp]: "Ipv4Data_of d = Inr d"
  by (simp add: Ipv4Data_of_def copy_into_all)

lemma ip_read [wire]:
  "versionAndHeaderLength (ip_layout h r) = Inr (h_vhl h)"
  "typeOfService (ip_layout h r) = Inr (h_tos h)"
  "totalLength (ip_layout h r) = Inr (h_total h)"
  "identification (ip_layout h r) = Inr (h_id h)"
  "flagsAndFragmentOffset (ip_layout h r) = Inr (h_flags h)"
  "timeToLive (ip_layout h r) = Inr (h_ttl h)"
  "ip_protocol (ip_layout h r) = Inr (h_proto h)"
  "ip_checksum (ip_layout h r) = Inr (h_check h)"
  "ip_src (ip_layout h r) = Inr (h_src h)"
  "ip_dst (ip_layout h r) = Inr (h_dst h)"
proof -
  let ?a = "[h_vhl h, h_tos h]" let ?b = "?a @ be16 (h_total h)" let ?c = "?b @ be16 (h_id h)"
  let ?d = "?c @ be16 (h_flags h)" let ?e = "?d @ [h_ttl h, h_proto h]" let ?f = "?e @ be16 (h_check h)"
  show "versionAndHeaderLength (ip_layout h r) = Inr (h_vhl h)"
    using readUint8_wire [of "[]" 0] by (simp add: ip_accessor_defs ip_layout_def)
  show "typeOfService (ip_layout h r) = Inr (h_tos h)"
    using readUint8_wire [of "[h_vhl h]" 1] by (simp add: ip_accessor_defs ip_layout_def)
  show "totalLength (ip_layout h r) = Inr (h_total h)"
    using readUint16_wire [of ?a 2] by (simp add: ip_accessor_defs ip_layout_def)
  show "identification (ip_layout h r) = Inr (h_id h)"
    using readUint16_wire [of ?b 4] by (simp add: ip_accessor_defs ip_layout_def)
  show "flagsAndFragmentOffset (ip_layout h r) = Inr (h_flags h)"
    using readUint16_wire [of ?c 6] by (simp add: ip_accessor_defs ip_layout_def)
  show "timeToLive (ip_layout h r) = Inr (h_ttl h)"
    using readUint8_wire [of ?d 8] by (simp add: ip_accessor_defs ip_layout_def)
  show "ip_protocol (ip_layout h r) = Inr (h_proto h)"
    using readUint8_wire [of "?d @ [h_ttl h]" 9] by (simp add: ip_accessor_defs ip_layout_def)
  show "ip_checksum (ip_layout h r) = Inr (h_check h)"
    using readUint16_wire [of ?e 10] by (simp add: ip_accessor_defs ip_layout_def)
  show "ip_src (ip_layout h r) = Inr (h_src h)"
    using readUint32_wire [of ?f 12] by (simp add: ip_accessor_defs ip_layout_def)
  show "ip_dst (ip_layout h r) = Inr (h_dst h)"
    using readUint32_wire [of "?f @ be32 (h_src h)" 16] by (simp add: ip_accessor_defs ip_layout_def)
qed

lemma ip_write [wire]:
  "set_versionAndHeaderLength (ip_layout h r) b = Inr (ip_layout (h\<lparr>h_vhl := b\<rparr>) r)"
  "set_typeOfService (ip_layout h r) b = Inr (ip_layout (h\<lparr>h_tos := b\<rparr>) r)"
  "set_totalLength (ip_layout h r) v = Inr (ip_layout (h\<lparr>h_total := v\<rparr>) r)"
  "set_identification (ip_layout h r) v = Inr (ip_layout (h\<lparr>h_id := v\<rparr>) r)"
  "set_flagsAndFragmentOffset (ip_layout h r) v = Inr (ip_layout (h\<lparr>h_flags := v\<rparr>) r)"
  "set_timeToLive (ip_layout h r) b = Inr (ip_layout (h\<lparr>h_ttl := b\<rparr>) r)"
  "set_ip_protocol (ip_layout h r) b = Inr (ip_layout (h\<lparr>h_proto := b\<rparr>) r)"
  "set_ip_checksum (ip_layout h r) v = Inr (ip_layout (h\<lparr>h_check := v\<rparr>) r)"
  "set_ip_src (ip_layout h r) w = Inr (ip_layout (h\<lparr>h_src := w\<rparr>) r)"
  "set_ip_dst (ip_layout h r) w = Inr (ip_layout (h\<lparr>h_dst := w\<rparr>) r)"
proof -
  let ?a = "[h_vhl h, h_tos h]" let ?b = "?a @ be16 (h_total h)" let ?c = "?b @ be16 (h_id h)"
  let ?d = "?c @ be16 (h_flags h)" let ?e = "?d @ [h_ttl h, h_proto h]" let ?f = "?e @ be16 (h_check h)"
  note w = ip_accessor_defs ip_layout_def
  show "set_versionAndHeaderLength (ip_layout h r) b = Inr (ip_layout (h\<lparr>h_vhl := b\<rparr>) r)"
    using writeUint8_wire [of "[]" 0] by (simp add: w)
  show "set_typeOfService (ip_layout h r) b = Inr (ip_layout (h\<lparr>h_tos := b\<rparr>) r)"
    using writeUint8_wire [of "[h_vhl h]" 1] by (simp add: w)
  show "set_totalLength (ip_layout h r) v = Inr (ip_layout (h\<lparr>h_total := v\<rparr>) r)"
    using writeUint16_wire [of ?a 2 "be16 (h_total h)"] by (simp add: w)
  show "set_identification (ip_layout h r) v = Inr (ip_layout (h\<lparr>h_id := v\<rparr>) r)"
    using writeUint16_wire [of ?b 4 "be16 (h_id h)"] by (simp add: w)
  show "set_flagsAndFragmentOffset (ip_layout h r) v = Inr (ip_layout (h\<lparr>h_flags := v\<rparr>) r)"
    using writeUint16_wire [of ?c 6 "be16 (h_flags h)"] by (simp add: w)
  show "set_timeToLive (ip_layout h r) b = Inr (ip_layout (h\<lparr>h_ttl := b\<rparr>) r)"
    using writeUint8_wire [of ?d 8] by (simp add: w)
  show "set_ip_protocol (ip_layout h r) b = Inr (ip_layout (h\<lparr>h_proto := b\<rparr>) r)"
    using writeUint8_wire [of "?d @ [h_ttl h]" 9] by (simp add: w)
  show "set_ip_checksum (ip_layout h r) v = Inr (ip_layout (h\<lparr>h_check := v\<rparr>) r)"
    using writeUint16_wire [of ?e 10 "be16 (h_check h)"] by (simp add: w)
  show "set_ip_src (ip_layout h r) w = Inr (ip_layout (h\<lparr>h_src := w\<rparr>) r)" for w
    using writeUint32_wire [of ?f 12 "be32 (h_src h)"] by (simp add: w)
  show "set_ip_dst (ip_layout h r) w = Inr (ip_layout (h\<lparr>h_dst := w\<rparr>) r)" for w
    using writeUint32_wire [of "?f @ be32 (h_src h)" 16 "be32 (h_dst h)"] by (simp add: w)
qed

lemma ip_nibbles [wire]:
  "ip_version (ip_layout h r) = Inr (drop_bit 4 (h_vhl h AND 0xF0))"
  "headerLength (ip_layout h r) = Inr (h_vhl h AND 0x0F)"
  "headerLengthByte (ip_layout h r) = Inr (ucast (h_vhl h AND 0x0F) * 4)"
  "set_ip_version (ip_layout h r) b =
     Inr (ip_layout (h\<lparr>h_vhl := push_bit 4 b OR (h_vhl h AND 0x0F)\<rparr>) r)"
  "set_headerLength (ip_layout h r) b =
     Inr (ip_layout (h\<lparr>h_vhl := push_bit 4 (drop_bit 4 (h_vhl h AND 0xF0)) OR (b AND 0x0F)\<rparr>) r)"
  using ip_write(1) [of h r]
  by (simp_all add: ip_version_def headerLength_def headerLengthByte_def set_ip_version_def
      set_headerLength_def ip_read set_versionAndHeaderLength_def)

definition ip_header_zero :: ip_header where
  "ip_header_zero = \<lparr>h_vhl = 0, h_tos = 0, h_total = 0, h_id = 0, h_flags = 0, h_ttl = 0, h_proto = 0,
     h_check = 0, h_src = 0, h_dst = 0\<rparr>"

lemma Ipv4Data_new_layout: "Ipv4Data_new = Inr (ip_layout (ip_header_zero\<lparr>h_vhl := 0x45\<rparr>) [])"
proof -
  have "replicate 20 0 = ip_layout ip_header_zero []"
    by (simp add: ip_layout_def ip_header_zero_def be16_def be32_def eval_nat_numeral)
  then show ?thesis
    by (simp add: Ipv4Data_new_def ip_nibbles IP_VERSION_IPV4_def ip_header_zero_def)
qed

text \<open>Every packet of at least 20 bytes is the layout of a header.\<close>

lemma ip_layout_cases:
  assumes "20 \<le> length d"
  obtains h r where "d = ip_layout h r"
proof -
  obtain a0 a1 a2 a3 a4 a5 a6 a7 a8 a9 b0 b1 b2 b3 b4 b5 b6 b7 b8 b9 r where
    d: "d = [a0, a1] @ [a2, a3] @ [a4, a5] @ [a6, a7] @ [a8, a9] @ [b0, b1] @ [b2, b3, b4, b5]
          @ [b6, b7, b8, b9] @ r"
    using assms by (auto simp: eval_nat_numeral Suc_le_length_iff)
  obtain v1 v2 v3 v4 w1 w2 where
    "[a2, a3] = be16 v1" "[a4, a5] = be16 v2" "[a6, a7] = be16 v3" "[b0, b1] = be16 v4"
    "[b2, b3, b4, b5] = be32 w1" "[b6, b7, b8, b9] = be32 w2"
    using be16_ex be32_ex by metis
  then have "d = ip_layout \<lparr>h_vhl = a0, h_tos = a1, h_total = v1, h_id = v2, h_flags = v3, h_ttl = a8,
      h_proto = a9, h_check = v4, h_src = w1, h_dst = w2\<rparr> r"
    unfolding d ip_layout_def by simp
  then show thesis by (rule that)
qed

lemma Ipv4Data_info_total: "20 \<le> length d \<Longrightarrow> \<exists>s. Ipv4Data_info d = Inr s"
  by (elim ip_layout_cases) (simp add: Ipv4Data_info_def wire)

section \<open>The header checksum\<close>

text \<open>The sum of the ten words of a header without options.\<close>

definition header_sum :: "ip_header \<Rightarrow> nat" where
  "header_sum h =
     256 * unat (h_vhl h) + unat (h_tos h) + unat (h_total h) + unat (h_id h) + unat (h_flags h) +
     256 * unat (h_ttl h) + unat (h_proto h) + unat (h_check h) +
     word_sum (be32 (h_src h)) + word_sum (be32 (h_dst h))"

lemma word_sum_header: "word_sum (take 20 (ip_layout h r)) = header_sum h"
proof -
  have "take 20 (ip_layout h r) = [h_vhl h, h_tos h] @ be16 (h_total h) @ be16 (h_id h) @
      be16 (h_flags h) @ [h_ttl h, h_proto h] @ be16 (h_check h) @ be32 (h_src h) @ be32 (h_dst h)"
    by (simp add: ip_layout_def be16_def be32_def)
  then show ?thesis
    by (simp add: header_sum_def word_sum_be32_append)
qed

lemma header_sum_le: "header_sum h \<le> 655350"
  using word_sum_bound [of "take 20 (ip_layout h [])"] unfolding word_sum_header by simp

lemma header_sum_check:
  "header_sum (h\<lparr>h_check := c\<rparr>) = header_sum (h\<lparr>h_check := 0\<rparr>) + unat c"
  by (simp add: header_sum_def)

text \<open>Headers without options: header length 5.\<close>

definition no_options :: "ip_header \<Rightarrow> bool" where
  "no_options h \<longleftrightarrow> h_vhl h AND 0x0F = 5"

lemma verifyHeader_layout:
  assumes "no_options h"
  shows "verifyHeader (ip_layout h r) = Inr (0 < header_sum h \<and> 65535 dvd header_sum h)"
proof -
  have "calculateChecksum (ip_layout h r) 0 20 = Inr (fold_carry (of_nat (header_sum h)))"
    by (simp add: calculateChecksum_sum word_sum_header)
  moreover have "fold_carry (of_nat (header_sum h)) = 0xFFFF \<longleftrightarrow> 0 < header_sum h \<and> 65535 dvd header_sum h"
    using header_sum_le [of h] by (intro fold_carry_all_ones) simp
  ultimately show ?thesis
    using assms by (simp add: verifyHeader_def ip_nibbles no_options_def)
qed

definition header_checksum :: "ip_header \<Rightarrow> u16" where
  "header_checksum h = NOT (fold_carry (of_nat (header_sum (h\<lparr>h_check := 0\<rparr>))))"

lemma setCheckSum_layout [wire]:
  assumes "no_options h"
  shows "setCheckSum (ip_layout h r) = Inr (ip_layout (h\<lparr>h_check := header_checksum h\<rparr>) r)"
proof -
  have "calculateChecksum (ip_layout (h\<lparr>h_check := 0\<rparr>) r) 0 20 =
      Inr (fold_carry (of_nat (header_sum (h\<lparr>h_check := 0\<rparr>))))"
    by (simp add: calculateChecksum_sum word_sum_header)
  then show ?thesis
    using assms by (simp add: setCheckSum_def wire no_options_def header_checksum_def)
qed

lemma set_then_verify:
  assumes "no_options h"
  shows "verifyHeader (ip_layout (h\<lparr>h_check := header_checksum h\<rparr>) r) =
           Inr (carry_safe (header_sum (h\<lparr>h_check := 0\<rparr>)))"
proof -
  let ?S = "header_sum (h\<lparr>h_check := 0\<rparr>)"
  have "no_options (h\<lparr>h_check := header_checksum h\<rparr>)"
    using assms by (simp add: no_options_def)
  moreover have "header_sum (h\<lparr>h_check := header_checksum h\<rparr>) = ?S + unat (NOT (fold_carry (of_nat ?S)))"
    unfolding header_sum_check [of "header_checksum h" h] by (simp add: header_checksum_def)
  moreover have "?S < 4294901760" using header_sum_le [of "h\<lparr>h_check := 0\<rparr>"] by simp
  ultimately show ?thesis
    by (simp only: verifyHeader_layout complement_verifies_iff)
qed

text \<open>
  Headers of any length: the bytes the header claims to have, from 0 to 60, and whether bytes that
  are there sum up to what \<open>verifyHeader\<close> wants.
\<close>

definition header_bytes :: "ip_header \<Rightarrow> nat" where
  "header_bytes h = 4 * unat (h_vhl h AND 0x0F)"

definition sums_to_ones :: "bytes \<Rightarrow> bool" where
  "sums_to_ones xs \<longleftrightarrow> 0 < word_sum xs \<and> 65535 dvd word_sum xs"

lemma header_bytes_le: "header_bytes h \<le> 60"
proof -
  have "h_vhl h AND 0x0F \<le> 0x0F" by (rule word_and_le1)
  then have "unat (h_vhl h AND 0x0F) \<le> 15" by (simp add: word_le_nat_alt)
  then show ?thesis by (simp add: header_bytes_def)
qed

lemma header_bytes_no_options: "no_options h \<Longrightarrow> header_bytes h = 20"
  by (simp add: header_bytes_def no_options_def)

lemma headerLengthByte_any: "bindE (headerLengthByte (ip_layout h r)) f = f (of_nat (header_bytes h))"
  by (simp add: ip_nibbles(3) header_bytes_def mult.commute)

lemma unat_header_bytes: "unat (of_nat (header_bytes h) :: u16) = header_bytes h"
  using header_bytes_le [of h] by (intro unat_of_nat_u16) simp

lemma verifyHeader_any:
  "verifyHeader (ip_layout h r) =
     (if 20 + length r < header_bytes h \<and> odd (length r) then Inl (Undefined OutOfBounds)
      else Inr (sums_to_ones (take (header_bytes h) (ip_layout h r))))"
proof -
  let ?d = "ip_layout h r" and ?n = "header_bytes h"
  have ev: "even ?n" by (simp add: header_bytes_def)
  have ok: "fold_carry (of_nat (word_sum (take ?n ?d))) = 0xFFFF \<longleftrightarrow> sums_to_ones (take ?n ?d)"
    unfolding sums_to_ones_def using header_bytes_le [of h] by (intro fold_carry_all_ones word_sum_le) simp
  have v: "verifyHeader ?d = bindE (calculateChecksum ?d 0 ?n) (\<lambda>ret. Inr (ret = 0xFFFF))"
    by (simp add: verifyHeader_def ip_nibbles(2) header_bytes_def mult.commute)
  consider "?n \<le> length ?d" | "length ?d < ?n" "odd (length ?d)" | "length ?d < ?n" "even (length ?d)" by linarith
  then show ?thesis
  proof cases
    case 1
    then show ?thesis using ok unfolding v calculateChecksum_sum [OF ev 1] by simp
  next
    case 2
    then show ?thesis unfolding v using calculateChecksum_odd [of ?d ?n] by simp
  next
    case 3
    then have "calculateChecksum ?d 0 ?n = Inr (fold_carry (of_nat (word_sum (take ?n ?d))))"
      using calculateChecksum_past_end [of ?d ?n] calculateChecksum_sum [of "length ?d" ?d] by simp
    with 3 ok show ?thesis unfolding v by simp
  qed
qed

section \<open>Payload\<close>

lemma ip_payload_any:
  "ip_payload (ip_layout h r) =
     (if unat (h_total h) < header_bytes h then Inl LengthError
      else if 20 + length r < unat (h_total h) then Inl (Undefined OutOfBounds)
      else Inr (take (unat (h_total h) - header_bytes h) (drop (header_bytes h) (ip_layout h r))))"
  by (simp add: ip_payload_def ip_read headerLengthByte_any unat_header_bytes copy_from_def)

lemma set_ip_payload_layout:
  assumes "no_options h" "length d \<le> 65515"
  shows "set_ip_payload (ip_layout h []) d = Inr (ip_layout (h\<lparr>h_total := of_nat (20 + length d)\<rparr>) d)"
proof -
  let ?h = "h\<lparr>h_total := of_nat (20 + length d)\<rparr>"
  have l: "unat (20 + of_nat (length d) :: u16) = 20 + length d"
    using assms by (simp add: unat_of_nat take_bit_eq_mod unat_word_ariths)
  have "copy_into (vec_resize (ip_layout ?h []) (20 + length d) 0) 20 d = Inr (ip_layout ?h d)"
  proof -
    have "vec_resize (ip_layout ?h []) (20 + length d) 0 = ip_layout ?h [] @ replicate (length d) 0 @ []"
      by (simp add: vec_resize_grow)
    moreover have "copy_into (ip_layout ?h [] @ replicate (length d) 0 @ []) 20 d = Inr (ip_layout ?h [] @ d @ [])"
      using copy_into_append [of "replicate (length d) 0" d "ip_layout ?h []" "[]"] by simp
    ultimately show ?thesis by (simp add: ip_layout_def)
  qed
  with l show ?thesis
    using assms by (simp add: set_ip_payload_def wire no_options_def)
qed

text \<open>More data than the 16-bit length can count: the vector is made too small, and the copy leaves it.\<close>

lemma set_ip_payload_overflow:
  assumes "no_options h" "65515 < length d"
  shows "set_ip_payload (ip_layout h []) d = Inl (Undefined OutOfBounds)"
proof -
  have "unat (20 + of_nat (length d) :: u16) < 65536" by simp
  with assms(2) have "unat (20 + of_nat (length d) :: u16) < 20 + length d" by linarith
  then show ?thesis
    using assms by (simp add: set_ip_payload_def wire no_options_def copy_into_def)
qed

section \<open>Properties\<close>

text \<open>
  C26. A header whose checksum \<open>setCheckSum\<close> has set passes \<open>verifyHeader\<close> if and only if adding the
  carries of its sum back once gives no carry again: for the other headers the checksum set is off
  by one, and the program's own packets are refused.
\<close>

theorem header_checksum_exact:
  assumes "no_options h"
  shows "bindE (setCheckSum (ip_layout h r)) verifyHeader = Inr (carry_safe (header_sum (h\<lparr>h_check := 0\<rparr>)))"
  using assms by (simp add: setCheckSum_layout set_then_verify)

text \<open>Two headers of the configuration of main.cpp that differ in their identification only.\<close>

definition sample_header :: "u16 \<Rightarrow> ip_header" where
  "sample_header i = \<lparr>h_vhl = 0x45, h_tos = 0, h_total = 36, h_id = i, h_flags = 0, h_ttl = 0xff,
     h_proto = 1, h_check = 0, h_src = 0xC0000202, h_dst = 0xC0000201\<rparr>"

theorem header_checksum_exact_witness:
  "bindE (setCheckSum (ip_layout (sample_header 128) [])) verifyHeader = Inr True \<and>
   bindE (setCheckSum (ip_layout (sample_header 14294) [])) verifyHeader = Inr False"
proof -
  have "no_options (sample_header i)" for i by (simp add: no_options_def sample_header_def)
  moreover have "header_sum ((sample_header 128)\<lparr>h_check := 0\<rparr>) = 182440"
    "header_sum ((sample_header 14294)\<lparr>h_check := 0\<rparr>) = 196606"
    by (simp_all add: header_sum_def sample_header_def be32_def)
  ultimately show ?thesis by (simp add: header_checksum_exact) (simp add: carry_safe_def)
qed

text \<open>
  Every packet of at least 20 bytes is the layout of a header record, and the accessors of the
  class are the selections and updates of that record's fields: what one setter writes, only its
  own getter sees.
\<close>

theorem ip_packet_is_header:
  assumes "20 \<le> length d"
  shows "\<exists>h r. d = ip_layout h r \<and>
    totalLength d = Inr (h_total h) \<and> identification d = Inr (h_id h) \<and> timeToLive d = Inr (h_ttl h) \<and>
    ip_protocol d = Inr (h_proto h) \<and> ip_checksum d = Inr (h_check h) \<and> ip_src d = Inr (h_src h) \<and>
    ip_dst d = Inr (h_dst h) \<and> headerLength d = Inr (h_vhl h AND 0x0F) \<and>
    (\<forall>v. set_totalLength d v = Inr (ip_layout (h\<lparr>h_total := v\<rparr>) r)) \<and>
    (\<forall>v. set_identification d v = Inr (ip_layout (h\<lparr>h_id := v\<rparr>) r)) \<and>
    (\<forall>v. set_timeToLive d v = Inr (ip_layout (h\<lparr>h_ttl := v\<rparr>) r)) \<and>
    (\<forall>v. set_ip_protocol d v = Inr (ip_layout (h\<lparr>h_proto := v\<rparr>) r)) \<and>
    (\<forall>v. set_ip_checksum d v = Inr (ip_layout (h\<lparr>h_check := v\<rparr>) r)) \<and>
    (\<forall>v. set_ip_src d v = Inr (ip_layout (h\<lparr>h_src := v\<rparr>) r)) \<and>
    (\<forall>v. set_ip_dst d v = Inr (ip_layout (h\<lparr>h_dst := v\<rparr>) r))"
proof -
  obtain h r where d: "d = ip_layout h r" using assms by (rule ip_layout_cases)
  show ?thesis unfolding d by (intro exI [of _ h] exI [of _ r]) (simp add: ip_read ip_write ip_nibbles(2))
qed

theorem ip_packet_is_header_witness:
  "\<exists>h r. replicate 20 0x45 = ip_layout h r \<and>
    ip_src (replicate 20 0x45) = Inr (h_src h) \<and>
    (\<forall>v. set_ip_dst (replicate 20 0x45) v = Inr (ip_layout (h\<lparr>h_dst := v\<rparr>) r))"
  using ip_packet_is_header [of "replicate 20 0x45"] by auto

end
