(* ===== verification/IpOutput.thy ===== *)
theory IpOutput
  imports ArpProto Ipv4Data
begin

unbundle bit_operations_syntax

text \<open>
  The sending half of lib/Ipv4.cpp: \<open>ip_gen_id\<close> and \<open>ipv4_output\<close>, which builds a packet, resolves
  the gateway of the route and hands the packet to the interface's device.
\<close>

section \<open>Operations\<close>

text \<open>\<open>id++\<close> on the static counter; it starts at 128.\<close>

definition ip_gen_id_start :: u16 where "ip_gen_id_start = 128"

definition ip_gen_id :: "(world, u16) eff" where
  "ip_gen_id =
     bindM (getM ipGenId) (\<lambda>ret.
     bindM (putM (\<lambda>w. w\<lparr>ipGenId := ipGenId w + 1\<rparr>)) (\<lambda>_.
     retM ret))"

text \<open>The packet up to its identification, and from there on.\<close>

definition ipv4_packet_start :: "bytes \<Rightarrow> bytes result" where
  "ipv4_packet_start data =
     bindE Ipv4Data_new (\<lambda>p.
     bindE (set_typeOfService p 0) (\<lambda>p.
     bindE (headerLengthByte p) (\<lambda>hlen.
     set_totalLength p (of_nat (unat hlen + length data)))))"

definition ipv4_packet_finish :: "bytes \<Rightarrow> u16 \<Rightarrow> u8 \<Rightarrow> u32 \<Rightarrow> u32 \<Rightarrow> bytes \<Rightarrow> bytes result" where
  "ipv4_packet_finish p ident prot s d data =
     bindE (set_identification p ident) (\<lambda>p.
     bindE (set_flagsAndFragmentOffset p 0) (\<lambda>p.
     bindE (set_timeToLive p 0xff) (\<lambda>p.
     bindE (set_ip_protocol p prot) (\<lambda>p.
     bindE (set_ip_checksum p 0) (\<lambda>p.
     bindE (set_ip_src p s) (\<lambda>p.
     bindE (set_ip_dst p d) (\<lambda>p.
     bindE (setCheckSum p) (\<lambda>p.
     bindE (Ipv4Data_info p) (\<lambda>_.
     set_ip_payload p data)))))))))"

definition ipv4_output :: "u8 \<Rightarrow> bytes \<Rightarrow> u32 \<Rightarrow> u32 \<Rightarrow> (world, int) eff" where
  "ipv4_output prot data s d =
     (if s = IP_ADDR_ANY \<and> d = IP_ADDR_BROADCAST then throwM (RuntimeError ''src is required'')
      else bindM (\<lambda>w. (route_lookup (routeTable w) d, w)) (\<lambda>route.
      if s \<noteq> IP_ADDR_ANY \<and> s \<noteq> unicast (route_interface route) then throwM (RuntimeError ''ip not match'')
      else
        bindM (liftM (ipv4_packet_start data)) (\<lambda>p.
        bindM ip_gen_id (\<lambda>ident.
        bindM (liftM (ipv4_packet_finish p ident prot s d data)) (\<lambda>p.
        bindM (arpResolve (route_interface route) (route_gateway route)) (\<lambda>hardwareAddr.
        bindM (transmit (if_devicePtr (route_interface route)) p hardwareAddr ipType) (\<lambda>_.
        retM 0)))))))"

section \<open>The packet\<close>

text \<open>The header of a packet with \<open>n\<close> bytes of data.\<close>

definition out_header0 :: "u8 \<Rightarrow> nat \<Rightarrow> u16 \<Rightarrow> u32 \<Rightarrow> u32 \<Rightarrow> ip_header" where
  "out_header0 prot n ident s d =
     \<lparr>h_vhl = 0x45, h_tos = 0, h_total = of_nat (20 + n), h_id = ident, h_flags = 0, h_ttl = 0xff,
      h_proto = prot, h_check = 0, h_src = s, h_dst = d\<rparr>"

definition out_header :: "u8 \<Rightarrow> nat \<Rightarrow> u16 \<Rightarrow> u32 \<Rightarrow> u32 \<Rightarrow> ip_header" where
  "out_header prot n ident s d =
     (let h = out_header0 prot n ident s d in h\<lparr>h_check := header_checksum h\<rparr>)"

lemma out_header_no_options [simp]:
  "no_options (out_header0 prot n ident s d)" "no_options (out_header prot n ident s d)"
  by (simp_all add: no_options_def out_header_def out_header0_def Let_def)

lemma out_header_fields [simp]:
  "h_total (out_header prot n ident s d) = of_nat (20 + n)"
  "h_id (out_header prot n ident s d) = ident"
  "h_proto (out_header prot n ident s d) = prot"
  "h_src (out_header prot n ident s d) = s"
  "h_dst (out_header prot n ident s d) = d"
  "h_vhl (out_header prot n ident s d) = 0x45"
  by (simp_all add: out_header_def out_header0_def Let_def)

definition ipv4_packet :: "u8 \<Rightarrow> bytes \<Rightarrow> u16 \<Rightarrow> u32 \<Rightarrow> u32 \<Rightarrow> bytes result" where
  "ipv4_packet prot data ident s d =
     bindE (ipv4_packet_start data) (\<lambda>p. ipv4_packet_finish p ident prot s d data)"

lemma packet_start_layout:
  "ipv4_packet_start data =
     Inr (ip_layout (ip_header_zero\<lparr>h_vhl := 0x45, h_total := of_nat (20 + length data)\<rparr>) [])"
  by (simp add: ipv4_packet_start_def Ipv4Data_new_layout wire ip_header_zero_def)

lemma packet_finish_header:
  "ipv4_packet_finish
     (ip_layout (ip_header_zero\<lparr>h_vhl := 0x45, h_total := of_nat (20 + length data)\<rparr>) [])
     ident prot s d data = set_ip_payload (ip_layout (out_header prot (length data) ident s d) []) data"
proof -
  let ?base = "out_header0 prot (length data) ident s d"
  let ?h = "out_header prot (length data) ident s d"
  have set: "setCheckSum (ip_layout ?base []) = Inr (ip_layout ?h [])"
    by (simp add: setCheckSum_layout out_header_def Let_def)
  obtain i where info: "Ipv4Data_info (ip_layout ?h []) = Inr i"
    using Ipv4Data_info_total [of "ip_layout ?h []"] by auto
  have h0: "ip_header_zero\<lparr>h_vhl := 0x45, h_total := of_nat (20 + length data), h_id := ident, h_flags := 0,
       h_ttl := 0xff, h_proto := prot, h_check := 0, h_src := s, h_dst := d\<rparr> = ?base"
    by (simp add: ip_header_zero_def out_header0_def)
  show ?thesis
    unfolding ipv4_packet_finish_def
    by (simp only: ip_write bindE_simps h0 set info)
qed

lemma packet_finish_layout:
  assumes "length data \<le> 65515"
  shows "ipv4_packet_finish
           (ip_layout (ip_header_zero\<lparr>h_vhl := 0x45, h_total := of_nat (20 + length data)\<rparr>) [])
           ident prot s d data = Inr (ip_layout (out_header prot (length data) ident s d) data)"
proof -
  let ?h = "out_header prot (length data) ident s d"
  have "?h\<lparr>h_total := of_nat (20 + length data)\<rparr> = ?h"
    by (simp add: out_header_def out_header0_def Let_def)
  with set_ip_payload_layout [OF out_header_no_options(2) assms] show ?thesis
    unfolding packet_finish_header by metis
qed

lemma ipv4_packet_layout:
  "length data \<le> 65515 \<Longrightarrow> ipv4_packet prot data ident s d = Inr (ip_layout (out_header prot (length data) ident s d) data)"
  by (simp add: ipv4_packet_def packet_start_layout packet_finish_layout del: of_nat_add)

text \<open>The header written verifies if and only if its sum needs the carries added back only once.\<close>

lemma out_header_verifies:
  "verifyHeader (ip_layout (out_header prot n ident s d) r) =
     Inr (carry_safe (header_sum (out_header0 prot n ident s d)))"
proof -
  have "(out_header0 prot n ident s d)\<lparr>h_check := 0\<rparr> = out_header0 prot n ident s d"
    by (simp add: out_header0_def)
  then show ?thesis
    using set_then_verify [of "out_header0 prot n ident s d" r]
    by (simp add: out_header_def Let_def)
qed

section \<open>Output\<close>

definition ip_frame :: "EtherDevice \<Rightarrow> bytes \<Rightarrow> bytes \<Rightarrow> bytes" where
  "ip_frame dev mac packet = ether_layout mac (dev_address dev) ipType (ether_pad packet)"

text \<open>The situation every sender is in: one route, over an interface of a valid device.\<close>

definition routed :: "world \<Rightarrow> nat \<Rightarrow> EtherDevice \<Rightarrow> Route \<Rightarrow> bool" where
  "routed w k dev route \<longleftrightarrow>
     valid_device w k dev \<and> if_devicePtr (route_interface route) = Some k \<and>
     (\<exists>rs. routeTable w = route # rs)"

lemma routed_frame [simp]:
  "routed (w\<lparr>arpCache := x\<rparr>) k dev r = routed w k dev r"
  "routed (w\<lparr>written := y\<rparr>) k dev r = routed w k dev r"
  "routed (w\<lparr>ipGenId := z\<rparr>) k dev r = routed w k dev r"
  "routed (w\<lparr>udpPcbs := p\<rparr>) k dev r = routed w k dev r"
  by (simp_all add: routed_def valid_device_def)

definition source_allowed :: "u32 \<Rightarrow> u32 \<Rightarrow> Route \<Rightarrow> bool" where
  "source_allowed s d route \<longleftrightarrow>
     \<not> (s = IP_ADDR_ANY \<and> d = IP_ADDR_BROADCAST) \<and>
     (s = IP_ADDR_ANY \<or> s = unicast (route_interface route))"

lemma ipv4_output_step:
  assumes "routed w k dev route" "source_allowed s d route" "length data \<le> 65515"
  shows "ipv4_output prot data s d w =
    bindM (arpResolve (route_interface route) (route_gateway route)) (\<lambda>mac.
    bindM (transmit (Some k) (ip_layout (out_header prot (length data) (ipGenId w) s d) data) mac ipType) (\<lambda>_. retM 0))
    (w\<lparr>ipGenId := ipGenId w + 1\<rparr>)"
proof -
  obtain rs where "routeTable w = route # rs" using assms by (auto simp: routed_def)
  moreover have "if_devicePtr (route_interface route) = Some k" using assms by (simp add: routed_def)
  ultimately show ?thesis
    using assms(2,3)
    by (auto simp: ipv4_output_def source_allowed_def bindM_apply [of "\<lambda>w. (route_lookup (routeTable w) d, w)"]
        packet_start_layout packet_finish_layout ip_gen_id_def bindM_assoc simp del: of_nat_add)
qed

text \<open>Data that no packet can carry: the identification is used up before the copy leaves its vector.\<close>

lemma ipv4_output_too_long:
  assumes "routeTable w = route # rs" "source_allowed s d route" "65515 < length data"
  shows "ipv4_output prot data s d w = (Inl (Undefined OutOfBounds), w\<lparr>ipGenId := ipGenId w + 1\<rparr>)"
  using assms
  by (auto simp: ipv4_output_def source_allowed_def bindM_apply [of "\<lambda>w. (route_lookup (routeTable w) d, w)"]
      packet_start_layout packet_finish_header set_ip_payload_overflow ip_gen_id_def bindM_assoc simp del: of_nat_add)

lemma ipv4_output_sent:
  assumes "routed w k dev route" "source_allowed s d route" "length data \<le> 65515"
    and "cache_select (arpCache w) (route_gateway route) = Some c" "length (hardwareAddress c) = 6"
  shows "ipv4_output prot data s d w =
    (Inr 0, w\<lparr>ipGenId := ipGenId w + 1,
       written := written w @ [(k, ip_frame dev (hardwareAddress c)
                    (ip_layout (out_header prot (length data) (ipGenId w) s d) data))]\<rparr>)"
proof -
  let ?w = "w\<lparr>ipGenId := ipGenId w + 1\<rparr>"
  have "valid_device ?w k dev" using assms(1) by (simp add: routed_def)
  then show ?thesis
    using assms arpResolve_hit [of ?w "route_gateway route" c "route_interface route"]
    by (simp add: ipv4_output_step bindM_apply transmit_valid ip_frame_def)
qed

lemma ipv4_output_unresolved:
  assumes "routed w k dev route" "source_allowed s d route" "length data \<le> 65515"
    and "cache_select (arpCache w) (route_gateway route) = None"
  shows "ipv4_output prot data s d w =
    (Inl (ArpResolveException ''not find arp cache. call arp reqest''),
     w\<lparr>ipGenId := ipGenId w + 1,
       written := written w @ [(k, request_frame dev (route_interface route) (route_gateway route))]\<rparr>)"
proof -
  let ?w = "w\<lparr>ipGenId := ipGenId w + 1\<rparr>"
  have "valid_device ?w k dev" "if_devicePtr (route_interface route) = Some k"
    using assms(1) by (simp_all add: routed_def)
  then show ?thesis
    using assms arpResolve_miss [of ?w "route_gateway route" k dev "route_interface route"]
    by (simp add: ipv4_output_step bindM_apply)
qed

lemma ipv4_output_refused:
  assumes "routeTable w = route # rs" "\<not> source_allowed s d route"
  shows "\<exists>m. ipv4_output prot data s d w = (Inl (RuntimeError m), w)"
  using assms by (auto simp: ipv4_output_def source_allowed_def bindM_apply)

lemma ipv4_output_no_route:
  assumes "routeTable w = []" "\<not> (s = IP_ADDR_ANY \<and> d = IP_ADDR_BROADCAST)"
  shows "ipv4_output prot data s d w = (Inl (Undefined OutOfBounds), w)"
  using assms by (auto simp: ipv4_output_def bindM_apply)

lemma ipv4_output_keeps [frame_intros]:
  assumes "\<And>w x. I w \<Longrightarrow> I (w\<lparr>written := x\<rparr>)" "\<And>w x. I w \<Longrightarrow> I (w\<lparr>ipGenId := x\<rparr>)"
  shows "keeps I (ipv4_output prot data s d)"
proof -
  have "keeps I (\<lambda>w. (route_lookup (routeTable w) d, w))" by (simp add: keeps_def)
  with assms show ?thesis
    unfolding ipv4_output_def ip_gen_id_def by (intro frame_intros)
qed

section \<open>Properties\<close>

text \<open>
  C23. \<open>ipv4_output\<close>, every outcome: a missing source for a broadcast and a source that is not the
  interface's address are refused and leave everything as it was; data longer than 65515 bytes wraps
  the 16-bit length and is copied past the end of the packet; without the gateway in the cache the
  identification is used up, a request goes out and the packet is lost; else one frame to the gateway
  leaves with the header of \<open>out_header\<close> and the data.
\<close>

theorem ipv4_output_outcomes:
  assumes "routed w k dev route"
    and "\<forall>c. cache_select (arpCache w) (route_gateway route) = Some c \<longrightarrow> length (hardwareAddress c) = 6"
  shows "ipv4_output prot data s d w =
    (if s = IP_ADDR_ANY \<and> d = IP_ADDR_BROADCAST then (Inl (RuntimeError ''src is required''), w)
     else if s \<noteq> IP_ADDR_ANY \<and> s \<noteq> unicast (route_interface route) then (Inl (RuntimeError ''ip not match''), w)
     else if 65515 < length data then (Inl (Undefined OutOfBounds), w\<lparr>ipGenId := ipGenId w + 1\<rparr>)
     else case cache_select (arpCache w) (route_gateway route) of
       None \<Rightarrow> (Inl (ArpResolveException ''not find arp cache. call arp reqest''),
                w\<lparr>ipGenId := ipGenId w + 1,
                  written := written w @ [(k, request_frame dev (route_interface route) (route_gateway route))]\<rparr>)
     | Some c \<Rightarrow> (Inr 0, w\<lparr>ipGenId := ipGenId w + 1, written := written w @
                [(k, ip_frame dev (hardwareAddress c)
                       (ip_layout (out_header prot (length data) (ipGenId w) s d) data))]\<rparr>))"
proof -
  obtain rs where r: "routeTable w = route # rs" using assms(1) by (auto simp: routed_def)
  consider "\<not> source_allowed s d route" | "source_allowed s d route" "65515 < length data"
    | "source_allowed s d route" "length data \<le> 65515" by linarith
  then show ?thesis
  proof cases
    case 1
    with r show ?thesis by (auto simp: ipv4_output_def source_allowed_def bindM_peek)
  next
    case 2
    with ipv4_output_too_long [OF r 2, of prot] show ?thesis by (auto simp: source_allowed_def)
  next
    case 3
    then show ?thesis
      using assms(2) ipv4_output_sent [OF assms(1) 3, of _ prot] ipv4_output_unresolved [OF assms(1) 3, of prot]
      by (auto simp: source_allowed_def split: option.split)
  qed
qed

definition one_route :: Route where
  "one_route = \<lparr>route_network = 0, route_mask = 0, route_gateway = 0xC0000201, route_interface = one_iface\<rparr>"

definition route_world :: world where
  "route_world = (learn 0xC0000201 [2, 0, 0, 0, 0, 1] iface_world)\<lparr>routeTable := [one_route]\<rparr>"

lemma route_world_facts:
  "routed route_world 0 one_device one_route"
  "cache_select (arpCache route_world) 0xC0000201 = Some \<lparr>protocolAddress = 0xC0000201, hardwareAddress = [2, 0, 0, 0, 0, 1]\<rparr>"
  by (simp_all add: routed_def valid_device_def route_world_def learn_def iface_world_def one_device_def one_route_def
      one_iface_def cache_create_def cache_select_def one_device_world_def)

theorem ipv4_output_outcomes_witness:
  "ipv4_output 0x11 [1, 2, 3, 4] 0xC0000202 0x08080808 route_world =
     (Inr 0, route_world\<lparr>ipGenId := 129, written :=
        [(0, ip_frame one_device [2, 0, 0, 0, 0, 1]
               (ip_layout (out_header 0x11 (length [1 :: u8, 2, 3, 4]) 128 0xC0000202 0x08080808) [1, 2, 3, 4]))]\<rparr>) \<and>
   ipv4_output 0x11 [1, 2, 3, 4] 0xC0000207 0x08080808 route_world = (Inl (RuntimeError ''ip not match''), route_world) \<and>
   ipv4_output 0x11 (replicate 65516 0) 0xC0000202 0x08080808 route_world =
     (Inl (Undefined OutOfBounds), route_world\<lparr>ipGenId := 129\<rparr>)"
proof -
  have f: "route_gateway one_route = 0xC0000201" "unicast (route_interface one_route) = 0xC0000202"
    "ipGenId route_world = 128" "written route_world = []"
    by (simp_all add: one_route_def one_iface_def route_world_def learn_def iface_world_def one_device_world_def)
  show ?thesis
    by (simp add: ipv4_output_outcomes [OF route_world_facts(1)] f route_world_facts(2) IP_ADDR_ANY_def)
qed

end
