(* ===== verification/IcmpData.thy ===== *)
theory IcmpData
  imports BinaryPayload Checksum StdText
begin

unbundle bit_operations_syntax

text \<open>lib/IcmpData.h: ICMP messages, and echo messages with their identifier and sequence number.\<close>

section \<open>Accessors\<close>

definition IcmpData_of :: "bytes \<Rightarrow> bytes result" where
  "IcmpData_of d = copy_into (replicate (length d) 0) 0 d"

definition IcmpData_sized :: "nat \<Rightarrow> bytes" where
  "IcmpData_sized n = replicate n 0"

definition icmp_type :: "bytes \<Rightarrow> u8 result" where
  "icmp_type data = readUint8 data 0"

definition set_icmp_type :: "bytes \<Rightarrow> u8 \<Rightarrow> bytes result" where
  "set_icmp_type data v = writeUint8 data v 0"

definition icmp_code :: "bytes \<Rightarrow> u8 result" where
  "icmp_code data = readUint8 data 1"

definition set_icmp_code :: "bytes \<Rightarrow> u8 \<Rightarrow> bytes result" where
  "set_icmp_code data v = writeUint8 data v 1"

definition icmp_checksum :: "bytes \<Rightarrow> u16 result" where
  "icmp_checksum data = readUint16 data 2"

definition set_icmp_checksum :: "bytes \<Rightarrow> u16 \<Rightarrow> bytes result" where
  "set_icmp_checksum data v = writeUint16 data v 2"

text \<open>\<open>IcmpDataEcho\<close>: built from data as its base class is, or 8 zero bytes.\<close>

definition IcmpDataEcho_of :: "bytes \<Rightarrow> bytes result" where
  "IcmpDataEcho_of d = IcmpData_of d"

definition IcmpDataEcho_new :: bytes where
  "IcmpDataEcho_new = IcmpData_sized 8"

definition icmp_identifier :: "bytes \<Rightarrow> u16 result" where
  "icmp_identifier data = readUint16 data 4"

definition set_icmp_identifier :: "bytes \<Rightarrow> u16 \<Rightarrow> bytes result" where
  "set_icmp_identifier data v = writeUint16 data v 4"

definition sequenceNumber :: "bytes \<Rightarrow> u16 result" where
  "sequenceNumber data = readUint16 data 6"

definition set_sequenceNumber :: "bytes \<Rightarrow> u16 \<Rightarrow> bytes result" where
  "set_sequenceNumber data v = writeUint16 data v 6"

definition IcmpDataEcho_info :: "bytes \<Rightarrow> string result" where
  "IcmpDataEcho_info data =
     bindE (icmp_type data) (\<lambda>t. bindE (icmp_code data) (\<lambda>c. bindE (icmp_checksum data) (\<lambda>k.
     bindE (icmp_identifier data) (\<lambda>i. bindE (sequenceNumber data) (\<lambda>s.
     Inr (''type = '' @ fmt_dec (unat t) @ '', code = '' @ fmt_dec (unat c) @
          '', checksum = '' @ fmt_dec (unat k) @ '', identifier = '' @ fmt_dec (unat i) @
          '', sequenceNumber = '' @ fmt_dec (unat s)))))))"

lemmas icmp_accessor_defs =
  icmp_type_def set_icmp_type_def icmp_code_def set_icmp_code_def icmp_checksum_def set_icmp_checksum_def
  icmp_identifier_def set_icmp_identifier_def sequenceNumber_def set_sequenceNumber_def

section \<open>Layout\<close>

record icmp_header =
  i_type :: u8
  i_code :: u8
  i_check :: u16
  i_id :: u16
  i_seq :: u16

definition icmp_layout :: "icmp_header \<Rightarrow> bytes \<Rightarrow> bytes" where
  "icmp_layout h rest =
     [i_type h, i_code h] @ be16 (i_check h) @ be16 (i_id h) @ be16 (i_seq h) @ rest"

lemma length_icmp_layout [simp]: "length (icmp_layout h rest) = 8 + length rest"
  by (simp add: icmp_layout_def)

lemma IcmpDataEcho_of_copy [simp]: "IcmpDataEcho_of d = Inr d"
  by (simp add: IcmpDataEcho_of_def IcmpData_of_def copy_into_all)

lemma icmp_read [wire]:
  "icmp_type (icmp_layout h r) = Inr (i_type h)"
  "icmp_code (icmp_layout h r) = Inr (i_code h)"
  "icmp_checksum (icmp_layout h r) = Inr (i_check h)"
  "icmp_identifier (icmp_layout h r) = Inr (i_id h)"
  "sequenceNumber (icmp_layout h r) = Inr (i_seq h)"
  using readUint8_wire [of "[]" 0 "i_type h"] readUint8_wire [of "[i_type h]" 1 "i_code h"]
    readUint16_wire [of "[i_type h, i_code h]" 2 "i_check h"]
    readUint16_wire [of "[i_type h, i_code h] @ be16 (i_check h)" 4 "i_id h"]
    readUint16_wire [of "[i_type h, i_code h] @ be16 (i_check h) @ be16 (i_id h)" 6 "i_seq h"]
  by (simp_all add: icmp_accessor_defs icmp_layout_def)

lemma icmp_write [wire]:
  "set_icmp_type (icmp_layout h r) b = Inr (icmp_layout (h\<lparr>i_type := b\<rparr>) r)"
  "set_icmp_code (icmp_layout h r) b = Inr (icmp_layout (h\<lparr>i_code := b\<rparr>) r)"
  "set_icmp_checksum (icmp_layout h r) v = Inr (icmp_layout (h\<lparr>i_check := v\<rparr>) r)"
  "set_icmp_identifier (icmp_layout h r) v = Inr (icmp_layout (h\<lparr>i_id := v\<rparr>) r)"
  "set_sequenceNumber (icmp_layout h r) v = Inr (icmp_layout (h\<lparr>i_seq := v\<rparr>) r)"
  using writeUint8_wire [of "[]" 0 "i_type h"] writeUint8_wire [of "[i_type h]" 1 "i_code h"]
    writeUint16_wire [of "[i_type h, i_code h]" 2 "be16 (i_check h)"]
    writeUint16_wire [of "[i_type h, i_code h] @ be16 (i_check h)" 4 "be16 (i_id h)"]
    writeUint16_wire [of "[i_type h, i_code h] @ be16 (i_check h) @ be16 (i_id h)" 6 "be16 (i_seq h)"]
  by (simp_all add: icmp_accessor_defs icmp_layout_def)

definition icmp_header_zero :: icmp_header where
  "icmp_header_zero = \<lparr>i_type = 0, i_code = 0, i_check = 0, i_id = 0, i_seq = 0\<rparr>"

lemma IcmpDataEcho_new_layout: "IcmpDataEcho_new = icmp_layout icmp_header_zero []"
  by (simp add: IcmpDataEcho_new_def IcmpData_sized_def icmp_layout_def icmp_header_zero_def be16_def
      eval_nat_numeral)

lemma icmp_layout_cases:
  assumes "8 \<le> length d"
  obtains h r where "d = icmp_layout h r"
proof -
  obtain a0 a1 a2 a3 a4 a5 a6 a7 r where
    d: "d = [a0, a1] @ [a2, a3] @ [a4, a5] @ [a6, a7] @ r"
    using assms by (auto simp: eval_nat_numeral Suc_le_length_iff)
  obtain v1 v2 v3 where "[a2, a3] = be16 v1" "[a4, a5] = be16 v2" "[a6, a7] = be16 v3"
    using be16_ex by metis
  then have "d = icmp_layout \<lparr>i_type = a0, i_code = a1, i_check = v1, i_id = v2, i_seq = v3\<rparr> r"
    unfolding d icmp_layout_def by simp
  then show thesis by (rule that)
qed

lemma IcmpDataEcho_info_layout [wire]: "\<exists>s. IcmpDataEcho_info (icmp_layout h r) = Inr s"
  by (simp add: IcmpDataEcho_info_def wire)

lemma icmp_short_header: "length d < 8 \<Longrightarrow> sequenceNumber d = Inl (Undefined OutOfBounds)"
  by (simp add: sequenceNumber_def u16f.get_short)

section \<open>The message checksum\<close>

definition icmp_sum :: "icmp_header \<Rightarrow> bytes \<Rightarrow> nat" where
  "icmp_sum h r = word_sum (icmp_layout h r)"

lemma icmp_sum_check: "icmp_sum (h\<lparr>i_check := c\<rparr>) r = icmp_sum (h\<lparr>i_check := 0\<rparr>) r + unat c"
proof -
  have "word_sum (be16 0) = 0" by (simp add: be16_def)
  then show ?thesis by (simp add: icmp_sum_def icmp_layout_def)
qed

end
