(* ===== verification/Icmp.thy ===== *)
theory Icmp
  imports IpOutput IcmpData
begin

unbundle bit_operations_syntax

text \<open>lib/Icmp.h and lib/Icmp.cpp: sending echo requests, and answering received ones.\<close>

definition TYPE_ECHO_REPLY :: u8 where "TYPE_ECHO_REPLY = 0"
definition TYPE_ECHO :: u8 where "TYPE_ECHO = 8"
definition ICMP_TYPE :: u8 where "ICMP_TYPE = 0x01"

lemmas icmp_consts = TYPE_ECHO_REPLY_def TYPE_ECHO_def ICMP_TYPE_def

section \<open>Operations\<close>

definition echo_message :: "u16 \<Rightarrow> u16 \<Rightarrow> bytes result" where
  "echo_message ident sn =
     bindE (set_icmp_identifier IcmpDataEcho_new ident) (\<lambda>echo.
     bindE (set_sequenceNumber echo sn) (\<lambda>echo.
     bindE (set_icmp_type echo TYPE_ECHO) (\<lambda>echo.
     bindE (set_icmp_code echo 0) (\<lambda>echo.
     bindE (set_icmp_checksum echo 0) (\<lambda>echo.
     bindE (calculateChecksum echo 0 (length echo)) (\<lambda>c.
     bindE (set_icmp_checksum echo (NOT c)) (\<lambda>echo.
     bindE (IcmpDataEcho_info echo) (\<lambda>_. Inr echo))))))))"

text \<open>\<open>sendIcmp\<close>: a failed resolution is logged and the call returns 0.\<close>

definition sendIcmp :: "u16 \<Rightarrow> u16 \<Rightarrow> u32 \<Rightarrow> IpNetworkInterface \<Rightarrow> (world, int) eff" where
  "sendIcmp ident sn d iface =
     bindM (liftM (echo_message ident sn)) (\<lambda>echo. \<lambda>w.
     case ipv4_output ICMP_TYPE echo (unicast iface) d w of
       (Inl (ArpResolveException m), w') \<Rightarrow> (Inr 0, w')
     | (Inl e, w') \<Rightarrow> (Inl e, w')
     | (Inr _, w') \<Rightarrow> (Inr 0, w'))"

definition reply_message :: "bytes \<Rightarrow> bytes result" where
  "reply_message request =
     bindE (IcmpDataEcho_of request) (\<lambda>reply.
     bindE (set_icmp_type reply TYPE_ECHO_REPLY) (\<lambda>reply.
     bindE (set_icmp_checksum reply 0) (\<lambda>reply.
     bindE (calculateChecksum reply 0 (length reply)) (\<lambda>c.
     bindE (set_icmp_checksum reply (NOT c)) (\<lambda>reply.
     bindE (IcmpDataEcho_info reply) (\<lambda>_. Inr reply))))))"

definition replyIcmp :: "bytes \<Rightarrow> u32 \<Rightarrow> IpNetworkInterface \<Rightarrow> (world, int) eff" where
  "replyIcmp request d iface =
     bindM (liftM (reply_message request)) (\<lambda>reply.
     bindM (ipv4_output ICMP_TYPE reply (unicast iface) d) (\<lambda>_.
     retM 0))"

text \<open>\<open>IcmpHandler::handle\<close>: the fields are printed before the checksum is looked at.\<close>

definition icmp_handle :: "Ipv4ProtocolData \<Rightarrow> (world, int) eff" where
  "icmp_handle pd =
     bindM (liftM (IcmpDataEcho_of (ip_data pd))) (\<lambda>d.
     bindM (liftM (icmp_type d)) (\<lambda>type.
     bindM (liftM (icmp_code d)) (\<lambda>_.
     bindM (liftM (icmp_checksum d)) (\<lambda>_.
     bindM (liftM (icmp_identifier d)) (\<lambda>_.
     bindM (liftM (sequenceNumber d)) (\<lambda>_.
     bindM (liftM (verifyChecksum d 0 (length d))) (\<lambda>ok.
     if \<not> ok then throwM (RuntimeError ''invalid icmp payload'')
     else if type = TYPE_ECHO then
       bindM (replyIcmp d (ip_src_addr pd) (ip_interface pd)) (\<lambda>_. retM 0)
     else if type = TYPE_ECHO_REPLY then
       bindM (liftM (IcmpDataEcho_info d)) (\<lambda>_. retM 0)
     else retM 0)))))))"

section \<open>Messages\<close>

definition icmp_checksum_of :: "icmp_header \<Rightarrow> bytes \<Rightarrow> u16" where
  "icmp_checksum_of h r = NOT (fold_carry (of_nat (icmp_sum (h\<lparr>i_check := 0\<rparr>) r)))"

definition reply_header :: "icmp_header \<Rightarrow> bytes \<Rightarrow> icmp_header" where
  "reply_header h r = (let g = h\<lparr>i_type := TYPE_ECHO_REPLY\<rparr> in g\<lparr>i_check := icmp_checksum_of g r\<rparr>)"

lemma reply_header_fields [simp]:
  "i_type (reply_header h r) = TYPE_ECHO_REPLY"
  "i_code (reply_header h r) = i_code h"
  "i_id (reply_header h r) = i_id h"
  "i_seq (reply_header h r) = i_seq h"
  by (simp_all add: reply_header_def Let_def)

lemma checksum_icmp_layout:
  "even (length r) \<Longrightarrow> calculateChecksum (icmp_layout h r) 0 (8 + length r) =
     Inr (fold_carry (of_nat (icmp_sum h r)))"
  by (simp add: calculateChecksum_sum icmp_sum_def)

lemma reply_message_layout:
  assumes "even (length r)"
  shows "reply_message (icmp_layout h r) = Inr (icmp_layout (reply_header h r) r)"
proof -
  obtain i where "IcmpDataEcho_info (icmp_layout (reply_header h r) r) = Inr i"
    using IcmpDataEcho_info_layout by blast
  then show ?thesis
    using assms
    by (simp add: reply_message_def wire checksum_icmp_layout reply_header_def Let_def icmp_checksum_of_def)
qed

lemma icmp_sum_le: "length r \<le> 131064 \<Longrightarrow> icmp_sum h r \<le> 4294901760"
  unfolding icmp_sum_def by (rule word_sum_le) simp

lemma verify_icmp_layout:
  assumes "even (length r)" "length r \<le> 131064"
  shows "verifyChecksum (icmp_layout h r) 0 (8 + length r) = Inr (0 < icmp_sum h r \<and> 65535 dvd icmp_sum h r)"
  using assms verifyChecksum_sum [of "8 + length r" "icmp_layout h r"] by (simp add: icmp_sum_def)

text \<open>A checksum that was computed and stored verifies, unless adding the carries back once is not enough.\<close>

lemma checked_sum:
  assumes "even (length r)" "length r \<le> 65535"
  shows "0 < icmp_sum (g\<lparr>i_check := icmp_checksum_of g r\<rparr>) r \<and> 65535 dvd icmp_sum (g\<lparr>i_check := icmp_checksum_of g r\<rparr>) r
    \<longleftrightarrow> carry_safe (icmp_sum (g\<lparr>i_check := 0\<rparr>) r)"
proof -
  let ?S = "icmp_sum (g\<lparr>i_check := 0\<rparr>) r"
  have "?S \<le> 65535 * ((8 + length r) div 2)"
    using word_sum_bound [of "icmp_layout (g\<lparr>i_check := 0\<rparr>) r"] by (simp add: icmp_sum_def)
  also have "\<dots> < 4294901760" using assms(2) by linarith
  finally have "?S < 4294901760" .
  moreover have "icmp_sum (g\<lparr>i_check := icmp_checksum_of g r\<rparr>) r = ?S + unat (NOT (fold_carry (of_nat ?S)))"
    unfolding icmp_sum_check [of "icmp_checksum_of g r" g r] by (simp add: icmp_checksum_of_def)
  ultimately show ?thesis by (simp only: complement_verifies_iff)
qed

lemma reply_verifies:
  assumes "even (length r)" "length r \<le> 65535"
  shows "verifyChecksum (icmp_layout (reply_header h r) r) 0 (8 + length r) =
     Inr (carry_safe (icmp_sum (h\<lparr>i_type := TYPE_ECHO_REPLY, i_check := 0\<rparr>) r))"
  using checked_sum [OF assms, of "h\<lparr>i_type := TYPE_ECHO_REPLY\<rparr>"] assms
  by (simp add: verify_icmp_layout reply_header_def Let_def)

text \<open>The request \<open>sendIcmp\<close> builds.\<close>

definition echo_header :: "u16 \<Rightarrow> u16 \<Rightarrow> icmp_header" where
  "echo_header ident sn =
     (let g = \<lparr>i_type = TYPE_ECHO, i_code = 0, i_check = 0, i_id = ident, i_seq = sn\<rparr>
      in g\<lparr>i_check := icmp_checksum_of g []\<rparr>)"

lemma echo_header_fields [simp]:
  "i_type (echo_header ident sn) = TYPE_ECHO" "i_code (echo_header ident sn) = 0"
  "i_id (echo_header ident sn) = ident" "i_seq (echo_header ident sn) = sn"
  by (simp_all add: echo_header_def Let_def)

lemma echo_message_layout: "echo_message ident sn = Inr (icmp_layout (echo_header ident sn) [])"
proof -
  let ?g = "\<lparr>i_type = TYPE_ECHO, i_code = 0, i_check = 0, i_id = ident, i_seq = sn\<rparr>"
  have c: "calculateChecksum (icmp_layout ?g []) 0 8 = Inr (fold_carry (of_nat (icmp_sum ?g [])))"
    using checksum_icmp_layout [of "[]" ?g] by simp
  obtain i where "IcmpDataEcho_info (icmp_layout (echo_header ident sn) []) = Inr i"
    using IcmpDataEcho_info_layout by blast
  then show ?thesis
    by (simp add: echo_message_def IcmpDataEcho_new_layout icmp_header_zero_def wire c echo_header_def Let_def
        icmp_checksum_of_def)
qed

section \<open>The handler\<close>

lemma icmp_handle_layout:
  assumes "ip_data pd = icmp_layout h r" "even (length r)" "length r \<le> 65507"
  shows "icmp_handle pd w =
    (if \<not> (0 < icmp_sum h r \<and> 65535 dvd icmp_sum h r) then (Inl (RuntimeError ''invalid icmp payload''), w)
     else if i_type h = TYPE_ECHO then
       bindM (ipv4_output ICMP_TYPE (icmp_layout (reply_header h r) r) (unicast (ip_interface pd)) (ip_src_addr pd))
         (\<lambda>_. retM 0) w
     else (Inr 0, w))"
proof -
  obtain i where "IcmpDataEcho_info (icmp_layout h r) = Inr i"
    using IcmpDataEcho_info_layout by blast
  then show ?thesis
    using assms
    by (simp add: icmp_handle_def wire verify_icmp_layout replyIcmp_def reply_message_layout)
qed

lemma icmp_handle_odd:
  assumes "8 \<le> length (ip_data pd)" "odd (length (ip_data pd))"
  shows "icmp_handle pd w = (Inl (Undefined OutOfBounds), w)"
proof -
  obtain h r where l: "ip_data pd = icmp_layout h r" using assms(1) by (rule icmp_layout_cases)
  then have "verifyChecksum (icmp_layout h r) 0 (length (icmp_layout h r)) = Inl (Undefined OutOfBounds)"
    using assms(2) by (simp add: verifyChecksum_def calculateChecksum_odd)
  with l show ?thesis by (simp add: icmp_handle_def wire)
qed

lemma icmp_handle_short:
  assumes "length (ip_data pd) < 8"
  shows "icmp_handle pd w = (Inl (Undefined OutOfBounds), w)"
proof -
  have "readUint8 d n = Inl e \<Longrightarrow> e = Undefined OutOfBounds" "readUint16 d n = Inl e \<Longrightarrow> e = Undefined OutOfBounds"
    for d n e by (auto simp: readUint8_def vec_at_def readUint16_eq split: if_splits)
  then show ?thesis
    using assms
    by (auto simp: icmp_handle_def icmp_accessor_defs u16f.get_short bindM_liftM_apply split: sum.splits)
qed

lemma icmp_handle_keeps [frame_intros]:
  assumes "\<And>w x. I w \<Longrightarrow> I (w\<lparr>written := x\<rparr>)" "\<And>w x. I w \<Longrightarrow> I (w\<lparr>ipGenId := x\<rparr>)"
  shows "keeps I (icmp_handle pd)"
  unfolding icmp_handle_def replyIcmp_def using assms by (intro frame_intros)

section \<open>Properties\<close>

text \<open>
  The checksum of an echo reply is accepted by the program's own test if and only if one
  addition of the carries was enough for the sum it was computed from.
\<close>

theorem echo_reply_checksum:
  assumes "even (length r)" "length r \<le> 65535"
  shows "bindE (reply_message (icmp_layout h r)) (\<lambda>m. verifyChecksum m 0 (length m)) =
     Inr (carry_safe (icmp_sum (h\<lparr>i_type := TYPE_ECHO_REPLY, i_check := 0\<rparr>) r))"
  using assms by (simp add: reply_message_layout reply_verifies)

theorem echo_reply_checksum_witness:
  "bindE (reply_message (icmp_layout \<lparr>i_type = 8, i_code = 0, i_check = 0, i_id = 7, i_seq = 1\<rparr> [1, 2]))
     (\<lambda>m. verifyChecksum m 0 (length m)) = Inr True \<and>
   bindE (reply_message (icmp_layout \<lparr>i_type = 8, i_code = 0, i_check = 0, i_id = 0xFFFF, i_seq = 0xFFFF\<rparr> [0xFF, 0xFF, 0, 2]))
     (\<lambda>m. verifyChecksum m 0 (length m)) = Inr False"
  by (simp add: echo_reply_checksum) (simp add: icmp_sum_def icmp_layout_def be16_def TYPE_ECHO_REPLY_def carry_safe_def)

text \<open>
  C28. The handler on a message of any length.  Fewer than eight bytes, or an odd number of them, are
  read past their end; a sum that is not a positive multiple of 65535 throws; an echo request makes
  one reply to its source leave, with the outcome of \<open>ipv4_output\<close>; every other type is ignored.
\<close>

theorem icmp_handle_outcomes:
  assumes "length (ip_data pd) \<le> 65515"
  shows "(length (ip_data pd) < 8 \<or> odd (length (ip_data pd)) \<longrightarrow>
            icmp_handle pd w = (Inl (Undefined OutOfBounds), w)) \<and>
    (\<forall>h r. ip_data pd = icmp_layout h r \<longrightarrow> even (length r) \<longrightarrow>
       icmp_handle pd w =
         (if \<not> (0 < icmp_sum h r \<and> 65535 dvd icmp_sum h r) then (Inl (RuntimeError ''invalid icmp payload''), w)
          else if i_type h = TYPE_ECHO then
            bindM (ipv4_output ICMP_TYPE (icmp_layout (reply_header h r) r) (unicast (ip_interface pd)) (ip_src_addr pd))
              (\<lambda>_. retM 0) w
          else (Inr 0, w)))"
proof (intro conjI impI allI)
  assume "length (ip_data pd) < 8 \<or> odd (length (ip_data pd))"
  then show "icmp_handle pd w = (Inl (Undefined OutOfBounds), w)"
    by (cases "length (ip_data pd) < 8") (auto intro: icmp_handle_short icmp_handle_odd)
next
  fix h r assume "ip_data pd = icmp_layout h r" "even (length r)"
  then show "icmp_handle pd w =
         (if \<not> (0 < icmp_sum h r \<and> 65535 dvd icmp_sum h r) then (Inl (RuntimeError ''invalid icmp payload''), w)
          else if i_type h = TYPE_ECHO then
            bindM (ipv4_output ICMP_TYPE (icmp_layout (reply_header h r) r) (unicast (ip_interface pd)) (ip_src_addr pd))
              (\<lambda>_. retM 0) w
          else (Inr 0, w))"
    using assms by (intro icmp_handle_layout) simp_all
qed

theorem icmp_handle_outcomes_witness:
  "icmp_handle \<lparr>ip_type = 1, ip_data = icmp_layout \<lparr>i_type = 8, i_code = 0, i_check = 0xF7F7, i_id = 7, i_seq = 1\<rparr> [],
      ip_src_addr = 0xC0000201, ip_dst_addr = 0xC0000202, ip_interface = one_iface\<rparr> route_world =
     bindM (ipv4_output ICMP_TYPE (icmp_layout (reply_header
         \<lparr>i_type = 8, i_code = 0, i_check = 0xF7F7, i_id = 7, i_seq = 1\<rparr> []) []) (unicast one_iface) 0xC0000201)
       (\<lambda>_. retM 0) route_world \<and>
   icmp_handle \<lparr>ip_type = 1, ip_data = [8, 0, 0], ip_src_addr = 0xC0000201, ip_dst_addr = 0xC0000202,
      ip_interface = one_iface\<rparr> route_world = (Inl (Undefined OutOfBounds), route_world)"
proof -
  let ?h = "\<lparr>i_type = 8, i_code = 0, i_check = 0xF7F7, i_id = 7, i_seq = 1\<rparr>"
  let ?pd = "\<lambda>d. \<lparr>ip_type = 1, ip_data = d, ip_src_addr = 0xC0000201, ip_dst_addr = 0xC0000202,
      ip_interface = one_iface\<rparr>"
  have "icmp_sum ?h [] = 65535" by (simp add: icmp_sum_def icmp_layout_def be16_def)
  then show ?thesis
    using icmp_handle_outcomes [of "?pd (icmp_layout ?h [])" route_world] icmp_handle_outcomes [of "?pd [8, 0, 0]" route_world]
    by (simp add: TYPE_ECHO_def)
qed

end
