(* ===== verification/UdpSocket.thy ===== *)
theory UdpSocket
  imports IpOutput
begin

unbundle bit_operations_syntax

text \<open>
  lib/Udp.h and lib/Udp.cpp: sockets, sending, delivery of received datagrams to the control
  blocks, and the interruption of waiting receivers.  The operations run to completion one at a time
  here; the waiting of \<open>recvFrom\<close> between threads is the subject of the theory CvWait.
\<close>

section \<open>Sockets\<close>

record UdpSocket =
  sock_id :: int
  sock_pcbId :: int

text \<open>\<open>std::expected<T, int>\<close>: \<open>Inl\<close> holds the unexpected value.\<close>

type_synonym 'a expected = "int + 'a"

definition SOURCE_PORT_MIN :: u16 where "SOURCE_PORT_MIN = 39584"
definition SOURCE_PORT_MAX :: u16 where "SOURCE_PORT_MAX = 65535"

definition udp_open :: "(world, UdpSocket expected) eff" where
  "udp_open =
     bindM (getM (\<lambda>w. pcb_alloc (udpPcbs w))) (\<lambda>(r, pcbs).
     bindM (putM (\<lambda>w. w\<lparr>udpPcbs := pcbs\<rparr>)) (\<lambda>_.
     case r of
       Some i \<Rightarrow> retM (Inr \<lparr>sock_id = pcb_id (pcbs ! i), sock_pcbId = pcb_id (pcbs ! i)\<rparr>)
     | None \<Rightarrow> retM (Inl (-1))))"

definition udp_bind :: "UdpSocket \<Rightarrow> string \<Rightarrow> u16 \<Rightarrow> (world, int expected) eff" where
  "udp_bind sock ipv4str p =
     bindM (liftM (Ipv4strToUint32 ipv4str)) (\<lambda>ipv4.
     bindM (getM (\<lambda>w. pcb_select (udpPcbs w) ipv4 p)) (\<lambda>u.
     case u of
       Some _ \<Rightarrow> retM (Inl (-1))
     | None \<Rightarrow>
         bindM (\<lambda>w. (pcb_get (udpPcbs w) (sock_pcbId sock), w)) (\<lambda>i.
         bindM (putM (\<lambda>w. w\<lparr>udpPcbs := pcb_set_endpoint (udpPcbs w) i \<lparr>addr = ipv4, port = p\<rparr>\<rparr>)) (\<lambda>_.
         retM (Inr 0)))))"

section \<open>Sending\<close>

text \<open>The datagram \<open>udp_output\<close> builds.\<close>

definition udp_message :: "IpEndpoint \<Rightarrow> IpEndpoint \<Rightarrow> bytes \<Rightarrow> bytes result" where
  "udp_message s d data =
     bindE (set_srcPort UdpData_new (port s)) (\<lambda>payload.
     bindE (set_dstPort payload (port d)) (\<lambda>payload.
     bindE (set_udp_payload payload data) (\<lambda>payload.
     bindE (set_udp_checksum payload 0) (\<lambda>payload.
     bindE (set_udp_length payload (of_nat (length payload))) (\<lambda>payload.
     bindE (build_pseudo (addr s) (addr d) payload) (\<lambda>pseudo.
     bindE (combined_checksum pseudo payload) (\<lambda>checksum.
     bindE (set_udp_checksum payload checksum) (\<lambda>payload.
     bindE (PseudoHeader_info pseudo) (\<lambda>_.
     bindE (UdpData_info payload) (\<lambda>_.
     Inr payload))))))))))"

definition udp_output :: "IpEndpoint \<Rightarrow> IpEndpoint \<Rightarrow> bytes \<Rightarrow> (world, int) eff" where
  "udp_output s d data =
     bindM (liftM (udp_message s d data)) (\<lambda>payload. ipv4_output UDP_TYPE payload (addr s) (addr d))"

text \<open>
  The search for a free source port.  The loop variable has 16 bits and the bound is the largest
  16-bit value, so the loop condition never fails; \<open>None\<close> is a loop that does not end,
  \<open>Some None\<close> a loop that ends without a port.
\<close>

partial_function (option) port_loop :: "pcb_table \<Rightarrow> u32 \<Rightarrow> u16 \<Rightarrow> u16 option option" where
  "port_loop pcbs a p =
     (if p \<le> SOURCE_PORT_MAX then
        (case pcb_select pcbs a p of Some _ \<Rightarrow> port_loop pcbs a (p + 1) | None \<Rightarrow> Some (Some p))
      else Some None)"

definition assign_port :: "nat \<Rightarrow> u32 \<Rightarrow> (world, unit) eff" where
  "assign_port i localAddr = (\<lambda>w.
     if port (endpoint (udpPcbs w ! i)) = 0 then
       (case port_loop (udpPcbs w) localAddr SOURCE_PORT_MIN of
          None \<Rightarrow> (Inl Hang, w)
        | Some found \<Rightarrow>
            let pcbs = (case found of None \<Rightarrow> udpPcbs w
                        | Some p \<Rightarrow> pcb_set_endpoint (udpPcbs w) i ((endpoint (udpPcbs w ! i))\<lparr>port := p\<rparr>));
                w' = w\<lparr>udpPcbs := pcbs\<rparr>
            in if port (endpoint (pcbs ! i)) = 0
               then (Inl (RuntimeError ''cant assign port dimamically''), w') else (Inr (), w'))
     else (Inr (), w))"

definition sendTo :: "UdpSocket \<Rightarrow> bytes \<Rightarrow> string \<Rightarrow> u32 \<Rightarrow> (world, int) eff" where
  "sendTo sock payload ipv4str p =
     bindM (liftM (Ipv4strToUint32 ipv4str)) (\<lambda>ipAddr.
     let target = \<lparr>addr = ipAddr, port = ucast p\<rparr> in
     bindM (\<lambda>w. (pcb_get (udpPcbs w) (sock_pcbId sock), w)) (\<lambda>i.
     bindM (getM (\<lambda>w. udpPcbs w ! i)) (\<lambda>pcb.
     if state pcb \<noteq> OPEN then throwM (RuntimeError ''pcb not found'')
     else
       bindM (if addr (endpoint pcb) = IP_ADDR_ANY
              then bindM (\<lambda>w. (route_lookup (routeTable w) ipAddr, w)) (\<lambda>route.
                   retM (unicast (route_interface route)))
              else retM (addr (endpoint pcb))) (\<lambda>localAddr.
       bindM (assign_port i localAddr) (\<lambda>_.
       bindM (getM (\<lambda>w. port (endpoint (udpPcbs w ! i)))) (\<lambda>localPort.
       udp_output \<lparr>addr = localAddr, port = localPort\<rparr> target payload))))))"

section \<open>Receiving\<close>

text \<open>\<open>UdpHandler::handle\<close>.\<close>

definition udp_handle :: "Ipv4ProtocolData \<Rightarrow> (world, int) eff" where
  "udp_handle pd =
     bindM (liftM (UdpData_of (ip_data pd))) (\<lambda>payload.
     bindM (liftM (build_pseudo (ip_src_addr pd) (ip_dst_addr pd) payload)) (\<lambda>pseudo.
     bindM (liftM (combined_checksum pseudo payload)) (\<lambda>checksum.
     bindM (liftM (UdpData_info payload)) (\<lambda>info.
     if checksum \<noteq> 0 then throwM (RuntimeError (''udp checksum error invalid payload '' @ info))
     else
       bindM (liftM (dstPort payload)) (\<lambda>dp.
       bindM (getM (\<lambda>w. pcb_select (udpPcbs w) (ip_dst_addr pd) dp)) (\<lambda>udpPcb.
       case udpPcb of
         None \<Rightarrow> retM (-1)
       | Some i \<Rightarrow>
           bindM (liftM (srcPort payload)) (\<lambda>sp.
           bindM (liftM (udp_payload payload)) (\<lambda>b.
           bindM (putM (\<lambda>w. w\<lparr>udpPcbs := pcb_push (udpPcbs w) i
                    \<lparr>pl_data = b, pl_endpoint = \<lparr>addr = ip_src_addr pd, port = sp\<rparr>\<rparr>\<rparr>)) (\<lambda>_.
           retM 0))))))))) "

definition udp_event_handle :: "(world, int) eff" where
  "udp_event_handle =
     bindM (putM (\<lambda>w. w\<lparr>udpPcbs := interruptAll (udpPcbs w)\<rparr>)) (\<lambda>_. retM 0)"

text \<open>
  \<open>recvFrom\<close>, run when its thread has the block's lock; \<open>None\<close> is waiting.  The front element is
  read again after it has been popped, that is, after it has been destroyed: \<open>stale\<close> is what such a
  read finds, a parameter of the model.  The reference parameters \<open>buf\<close>, \<open>ipv4\<close> and \<open>port\<close> are
  returned with the result.
\<close>

record recv_out =
  r_len :: int
  r_buf :: bytes
  r_ipv4 :: u32
  r_port :: u16

definition recvFrom ::
  "(UdpPcbPayload \<Rightarrow> UdpPcbPayload) \<Rightarrow> UdpSocket \<Rightarrow> bytes \<Rightarrow> u32 \<Rightarrow> u16 \<Rightarrow> world \<Rightarrow>
     (recv_out result \<times> world) option" where
  "recvFrom stale sock buf ipv4 p w =
     (case pcb_get (udpPcbs w) (sock_pcbId sock) of
        Inl e \<Rightarrow> Some (Inl e, w)
      | Inr i \<Rightarrow>
          let pcb = udpPcbs w ! i in
          if \<not> (que pcb \<noteq> [] \<or> interrupted pcb = 1) then None
          else if interrupted pcb = 1 then
            Some (Inr \<lparr>r_len = -1, r_buf = buf, r_ipv4 = ipv4, r_port = p\<rparr>, w)
          else
            let payload = hd (que pcb) in
            (case copy_into buf 0 (pl_data payload) of
               Inl e \<Rightarrow> Some (Inl e, w)
             | Inr buf' \<Rightarrow>
                 let w' = w\<lparr>udpPcbs := pcb_pop (udpPcbs w) i\<rparr> in
                 let gone = stale payload in
                 Some (Inr \<lparr>r_len = int (length (pl_data gone)), r_buf = buf',
                            r_ipv4 = addr (pl_endpoint gone), r_port = port (pl_endpoint gone)\<rparr>, w')))"

section \<open>Messages\<close>

definition udp_out_header0 :: "IpEndpoint \<Rightarrow> IpEndpoint \<Rightarrow> nat \<Rightarrow> udp_header" where
  "udp_out_header0 s d n = \<lparr>u_src = port s, u_dst = port d, u_len = of_nat (8 + n), u_check = 0\<rparr>"

definition udp_check_of :: "u32 \<Rightarrow> u32 \<Rightarrow> bytes \<Rightarrow> u16" where
  "udp_check_of s d payload =
     NOT (fold_carry (of_nat (unat (pseudo_fold s d (length payload)) +
                              unat (fold_carry (of_nat (word_sum payload))))))"

definition udp_out_header :: "IpEndpoint \<Rightarrow> IpEndpoint \<Rightarrow> bytes \<Rightarrow> udp_header" where
  "udp_out_header s d data =
     (let h = udp_out_header0 s d (length data)
      in h\<lparr>u_check := udp_check_of (addr s) (addr d) (udp_layout h data)\<rparr>)"

lemma udp_out_header_fields [simp]:
  "u_src (udp_out_header s d data) = port s"
  "u_dst (udp_out_header s d data) = port d"
  "u_len (udp_out_header s d data) = of_nat (8 + length data)"
  by (simp_all add: udp_out_header_def udp_out_header0_def Let_def)

lemma combined_checksum_layout:
  "even (length payload) \<Longrightarrow>
    combined_checksum (ph_layout s d UDP_TYPE (of_nat (length payload))) payload = Inr (udp_check_of s d payload)"
  by (simp add: combined_checksum_even udp_check_of_def del: of_nat_add)

lemma udp_message_layout:
  assumes "even (length data)" "length data \<le> 65527"
  shows "udp_message s d data = Inr (udp_layout (udp_out_header s d data) data)"
proof -
  let ?base = "udp_out_header0 s d (length data)"
  let ?h = "udp_out_header s d data"
  have pay: "set_udp_payload (udp_layout (udp_header_zero\<lparr>u_src := port s, u_dst := port d\<rparr>) []) data
      = Inr (udp_layout (udp_header_zero\<lparr>u_src := port s, u_dst := port d\<rparr>) data)"
    using assms(2) by (rule set_udp_payload_layout)
  have h0: "udp_header_zero\<lparr>u_src := port s, u_dst := port d, u_check := 0, u_len := of_nat (8 + length data)\<rparr> = ?base"
    by (simp add: udp_header_zero_def udp_out_header0_def)
  have len: "length (udp_layout h data) = 8 + length data" for h by simp
  have "combined_checksum (ph_layout (addr s) (addr d) UDP_TYPE (of_nat (8 + length data))) (udp_layout ?base data)
      = Inr (udp_check_of (addr s) (addr d) (udp_layout ?base data))"
    using combined_checksum_layout [of "udp_layout ?base data" "addr s" "addr d"] assms(1)
    by (simp del: of_nat_add)
  moreover have "?h = ?base\<lparr>u_check := udp_check_of (addr s) (addr d) (udp_layout ?base data)\<rparr>"
    by (simp add: udp_out_header_def Let_def)
  moreover obtain i where "UdpData_info (udp_layout ?h data) = Inr i" using UdpData_info_layout by blast
  moreover obtain j where "PseudoHeader_info (ph_layout (addr s) (addr d) UDP_TYPE (of_nat (8 + length data))) = Inr j"
    by (simp add: PseudoHeader_info_def ph_read)
  ultimately show ?thesis
    unfolding udp_message_def UdpData_new_layout
    by (simp only: udp_write bindE_simps pay len h0 build_pseudo_layout)
qed

text \<open>An odd number of data bytes: the checksum loop reads past the end of the datagram.\<close>

lemma udp_message_odd:
  assumes "odd (length data)" "length data \<le> 65527"
  shows "udp_message s d data = Inl (Undefined OutOfBounds)"
proof -
  have pay: "set_udp_payload (udp_layout (udp_header_zero\<lparr>u_src := port s, u_dst := port d\<rparr>) []) data
      = Inr (udp_layout (udp_header_zero\<lparr>u_src := port s, u_dst := port d\<rparr>) data)"
    using assms(2) by (rule set_udp_payload_layout)
  have "combined_checksum (ph_layout a b UDP_TYPE l) (udp_layout h data) = Inl (Undefined OutOfBounds)" for a b l h
    using assms(1) by (intro combined_checksum_odd) simp
  then show ?thesis
    unfolding udp_message_def UdpData_new_layout
    by (simp only: udp_write bindE_simps pay build_pseudo_layout)
qed

text \<open>More data than the 16-bit length can count: the vector is made too small, and the copy leaves it.\<close>

lemma udp_message_overflow:
  assumes "65527 < length data"
  shows "udp_message s d data = Inl (Undefined OutOfBounds)"
proof -
  have "unat (of_nat (8 + length data) :: u16) < 65536" by (rule unat_u16_lt)
  with assms have "unat (of_nat (8 + length data) :: u16) < 8 + length data" by linarith
  then have "set_udp_payload m data = Inl (Undefined OutOfBounds)" for m
    by (simp add: set_udp_payload_def udp_consts copy_into_def del: of_nat_add)
  then show ?thesis
    unfolding udp_message_def UdpData_new_layout by (simp only: udp_write bindE_simps)
qed

section \<open>The search for a port ends\<close>

text \<open>The bound is the largest value of the loop variable's type.\<close>

lemma port_le_max: "p \<le> SOURCE_PORT_MAX"
proof -
  have "unat p \<le> 65535" using unat_u16_lt [of p] by linarith
  then show ?thesis by (simp add: SOURCE_PORT_MAX_def word_le_nat_alt)
qed

lemma port_loop_steps:
  assumes "\<forall>j < k. pcb_select pcbs a (p + of_nat j) \<noteq> None" "pcb_select pcbs a (p + of_nat k) = None"
  shows "port_loop pcbs a p = Some (Some (p + of_nat k))"
  using assms
proof (induction k arbitrary: p)
  case 0
  then show ?case using port_loop.simps [of pcbs a p] by (simp add: port_le_max)
next
  case (Suc k)
  have "pcb_select pcbs a (p + of_nat 0) \<noteq> None" using Suc.prems(1) by blast
  then obtain i where i: "pcb_select pcbs a p = Some i" by auto
  have "port_loop pcbs a (p + 1) = Some (Some (p + 1 + of_nat k))"
  proof (rule Suc.IH)
    show "\<forall>j < k. pcb_select pcbs a (p + 1 + of_nat j) \<noteq> None"
    proof (intro allI impI)
      fix j assume "j < k"
      then have "pcb_select pcbs a (p + of_nat (Suc j)) \<noteq> None" using Suc.prems(1) by blast
      then show "pcb_select pcbs a (p + 1 + of_nat j) \<noteq> None" by (simp add: add.assoc)
    qed
    show "pcb_select pcbs a (p + 1 + of_nat k) = None"
      using Suc.prems(2) by (simp add: add.assoc)
  qed
  with i show ?case
    using port_loop.simps [of pcbs a p] by (simp add: add.assoc port_le_max)
qed

text \<open>
  Pigeonhole: \<open>n\<close> blocks occupy at most \<open>n\<close> ports, so among \<open>n + 1\<close> consecutive ones is a free one.
\<close>

lemma free_port_exists:
  assumes "length pcbs < 25952"
  shows "\<exists>k \<le> length pcbs. pcb_select pcbs a (SOURCE_PORT_MIN + of_nat k) = None"
proof (rule ccontr)
  let ?f = "\<lambda>k. SOURCE_PORT_MIN + of_nat k :: u16"
  let ?K = "{..length pcbs}"
  assume "\<not> ?thesis"
  then have used: "\<forall>k \<in> ?K. pcb_select pcbs a (?f k) \<noteq> None" by auto
  have "?f ` ?K \<subseteq> (port \<circ> endpoint) ` set pcbs"
  proof
    fix q assume "q \<in> ?f ` ?K"
    then have "pcb_select pcbs a q \<noteq> None" using used by blast
    then obtain i where "pcb_select pcbs a q = Some i" by blast
    then have "i < length pcbs" "port (endpoint (pcbs ! i)) = q"
      by (auto simp: pcb_select_Some_iff matches_def)
    then show "q \<in> (port \<circ> endpoint) ` set pcbs" by force
  qed
  then have "card (?f ` ?K) \<le> card ((port \<circ> endpoint) ` set pcbs)" by (intro card_mono) auto
  also have "\<dots> \<le> length pcbs" by (metis card_image_le card_length finite_set le_trans)
  finally have "card (?f ` ?K) \<le> length pcbs" .
  moreover have "inj_on ?f ?K"
  proof (rule inj_onI)
    fix x y assume xy: "x \<in> ?K" "y \<in> ?K" "?f x = ?f y"
    then have "unat (of_nat x :: u16) = unat (of_nat y :: u16)" by simp
    moreover have "x < 65536" "y < 65536" using xy assms by simp_all
    ultimately show "x = y" by (metis unat_of_nat_u16)
  qed
  then have "card (?f ` ?K) = Suc (length pcbs)" by (simp add: card_image)
  ultimately show False by simp
qed

lemma port_loop_terminates:
  assumes "length pcbs < 25952"
  obtains k where "k \<le> length pcbs" "pcb_select pcbs a (SOURCE_PORT_MIN + of_nat k) = None"
    "port_loop pcbs a SOURCE_PORT_MIN = Some (Some (SOURCE_PORT_MIN + of_nat k))"
proof -
  let ?free = "\<lambda>k. pcb_select pcbs a (SOURCE_PORT_MIN + of_nat k) = None"
  obtain k0 where k0: "k0 \<le> length pcbs" "?free k0" using free_port_exists [OF assms] by blast
  define k where "k = (LEAST k. ?free k)"
  have "?free k" unfolding k_def using k0(2) by (rule LeastI)
  moreover have "k \<le> length pcbs" unfolding k_def using k0 by (meson Least_le le_trans)
  moreover have "\<forall>j < k. pcb_select pcbs a (SOURCE_PORT_MIN + of_nat j) \<noteq> None"
    unfolding k_def by (auto dest: not_less_Least)
  ultimately show thesis using that port_loop_steps by blast
qed

lemma source_port_value:
  "k \<le> 25951 \<Longrightarrow> unat (SOURCE_PORT_MIN + of_nat k :: u16) = 39584 + k"
  by (simp add: SOURCE_PORT_MIN_def unat_word_ariths unat_of_nat take_bit_eq_mod)

text \<open>
  C17. The search for a source port ends with a port, although its loop condition is never false: as
  long as there are fewer blocks than ports in the dynamic range, it stops at a port of the range
  that no block uses on the address, at most as many steps up as there are blocks.
\<close>

theorem source_port_found:
  assumes "length pcbs < 25952"
  shows "\<exists>p. port_loop pcbs a SOURCE_PORT_MIN = Some (Some p) \<and> pcb_select pcbs a p = None \<and>
    39584 \<le> unat p \<and> unat p \<le> 39584 + length pcbs"
proof -
  obtain k where k: "k \<le> length pcbs" "pcb_select pcbs a (SOURCE_PORT_MIN + of_nat k) = None"
    "port_loop pcbs a SOURCE_PORT_MIN = Some (Some (SOURCE_PORT_MIN + of_nat k))"
    using assms by (rule port_loop_terminates)
  moreover have "unat (SOURCE_PORT_MIN + of_nat k :: u16) = 39584 + k"
    using assms k(1) by (intro source_port_value) simp
  ultimately show ?thesis by (intro exI [of _ "SOURCE_PORT_MIN + of_nat k"]) simp
qed

theorem source_port_found_witness:
  "\<exists>p. port_loop (UdpPcbManager_new \<lparr>addr = 0, port = 0\<rparr>) 0xC0000202 SOURCE_PORT_MIN = Some (Some p) \<and>
    39584 \<le> unat p \<and> unat p \<le> 39684"
  using source_port_found [of "UdpPcbManager_new \<lparr>addr = 0, port = 0\<rparr>" "0xC0000202"]
  by (auto simp: UdpPcbManager_new_def)

end
