(* ===== verification/UdpDelivery.thy ===== *)
theory UdpDelivery
  imports UdpSocket
begin

unbundle bit_operations_syntax

text \<open>
  What the operations of lib/Udp.cpp do: opening and binding, delivery of datagrams to control
  blocks, reception, and what a datagram one side sends is on the other side.
\<close>

section \<open>Acceptance of a datagram\<close>

text \<open>One fold of the carries loses a unit of 65535 when it overflows.\<close>

lemma fold_carry_value:
  assumes "S < 4294967296"
  shows "S = 65535 * (S div 65536) + unat (fold_carry (of_nat S)) + (if carry_safe S then 0 else 65536)"
proof -
  define hi lo where "hi = S div 65536" and "lo = S mod 65536"
  have S: "S = 65535 * hi + (lo + hi)" unfolding hi_def lo_def by (rule sum_split)
  have lt: "hi < 65536" "lo < 65536" using assms by (auto simp: hi_def lo_def)
  have f: "unat (fold_carry (of_nat S)) = (lo + hi) mod 65536"
    using assms by (simp add: fold_carry_of_nat hi_def lo_def)
  show ?thesis
  proof (cases "lo + hi < 65536")
    case True
    then have "carry_safe S" by (simp add: carry_safe_def hi_def lo_def)
    moreover have "S = 65535 * hi + unat (fold_carry (of_nat S)) + 0" using True S f by simp
    ultimately show ?thesis by (simp only: hi_def if_True)
  next
    case False
    then have "(lo + hi) mod 65536 = lo + hi - 65536" using lt by (simp add: le_mod_geq)
    moreover have "\<not> carry_safe S" using False by (simp add: carry_safe_def hi_def lo_def)
    ultimately have "S = 65535 * hi + unat (fold_carry (of_nat S)) + 65536" using False S f by linarith
    then show ?thesis using \<open>\<not> carry_safe S\<close> by (simp only: hi_def if_False)
  qed
qed

lemma NOT_eq_0_iff: "NOT (c :: u16) = 0 \<longleftrightarrow> c = 0xFFFF"
proof -
  have "unat c < 65536" by simp
  then have "65535 - unat c = 0 \<longleftrightarrow> unat c = 65535" by linarith
  then show ?thesis by (simp add: word_unat_eq_iff unat_NOT_u16)
qed

lemma fold_balance:
  fixes p :: nat
  assumes "D + F = D0 + k" "D0 = k * q0 + f0 + e0" "D = k * q1 + f1 + e1" "p + f0 = k * q2 + F"
  shows "p + f1 + k * q1 + e1 = k * (q0 + q2 + 1) + e0"
  using assms by (simp add: algebra_simps)

lemma fold_balance_dvd:
  fixes x :: nat
  assumes "x + k * a + e = k * b + e"
  shows "k dvd x"
proof -
  from assms have "x + k * a = k * b" by simp
  then show ?thesis by (metis dvd_add_left_iff dvd_triv_left)
qed

lemma fold_off_by_one: "65535 * a \<noteq> 65535 * b + (65536 :: nat)"
proof
  assume "65535 * a = 65535 * b + (65536 :: nat)"
  then have "(65535 * a) mod 65535 = (65535 * b + 65536) mod (65535 :: nat)" by (simp only:)
  then show False by (simp add: mod_add_right_eq)
qed

text \<open>
  The two folds of the sender and the receiver agree modulo 65535 when both are exact or neither is.
\<close>

lemma two_folds_verify:
  fixes P :: u16
  assumes D: "D = D0 + unat (NOT (fold_carry (of_nat (unat P + unat (fold_carry (of_nat D0))))))"
    and lt: "D0 < 4294000000" and pos: "0 < D0"
  shows "carry_safe D0 \<Longrightarrow> carry_safe D \<Longrightarrow>
           NOT (fold_carry (of_nat (unat P + unat (fold_carry (of_nat D))))) = 0"
    and "carry_safe D0 \<noteq> carry_safe D \<Longrightarrow>
           NOT (fold_carry (of_nat (unat P + unat (fold_carry (of_nat D))))) \<noteq> 0"
proof -
  define f0 f1 where "f0 = unat (fold_carry (of_nat D0))" and "f1 = unat (fold_carry (of_nat D))"
  define q0 q1 q2 where "q0 = D0 div 65536" and "q1 = D div 65536" and "q2 = (unat P + f0) div 65536"
  define F where "F = unat (fold_carry (of_nat (unat P + f0)))"
  have f_lt: "f0 < 65536" "f1 < 65536" "F < 65536" by (simp_all add: f0_def f1_def F_def)
  have c: "D = D0 + (65535 - F)" using D by (simp add: F_def f0_def unat_NOT_u16)
  have Plt: "unat P < 65536" by simp
  have e0: "D0 = 65535 * q0 + f0 + (if carry_safe D0 then 0 else 65536)"
    unfolding f0_def q0_def using lt by (intro fold_carry_value) simp
  have Dlt: "D < 4294967296" using lt c by linarith
  have e1: "D = 65535 * q1 + f1 + (if carry_safe D then 0 else 65536)"
    unfolding f1_def q1_def using Dlt by (rule fold_carry_value)
  have safe: "carry_safe (unat P + f0)" unfolding f0_def by (rule carry_safe_pair)
  have "unat P + f0 < 4294967296" using Plt f_lt by linarith
  then have e2: "unat P + f0 = 65535 * q2 + F"
    using fold_carry_value [of "unat P + f0"] safe by (simp add: F_def q2_def)
  have "D + F = D0 + 65535" using c f_lt(3) by linarith
  then have tot: "unat P + f1 + 65535 * q1 + (if carry_safe D then 0 else 65536) =
      65535 * (q0 + q2 + 1) + (if carry_safe D0 then 0 else 65536)"
    using e0 e1 e2 by (rule fold_balance)
  have acc: "NOT (fold_carry (of_nat (unat P + f1))) = 0 \<longleftrightarrow> 0 < unat P + f1 \<and> 65535 dvd (unat P + f1)"
    unfolding NOT_eq_0_iff using Plt f_lt by (intro fold_carry_all_ones) linarith
  show "NOT (fold_carry (of_nat (unat P + unat (fold_carry (of_nat D))))) = 0" if s: "carry_safe D0" "carry_safe D"
  proof -
    have "0 < D" using c pos by simp
    moreover have "f1 = D mod 65536 + D div 65536" unfolding f1_def using Dlt s(2) by (rule fold_carry_safe)
    ultimately have "0 < f1" using div_mult_mod_eq [of D 65536] by (cases "D div 65536 = 0") auto
    moreover have "65535 dvd unat P + f1"
      by (rule fold_balance_dvd [OF tot [unfolded if_P [OF s(1)] if_P [OF s(2)]]])
    ultimately show ?thesis using acc by (simp add: f1_def)
  qed
  show "NOT (fold_carry (of_nat (unat P + unat (fold_carry (of_nat D))))) \<noteq> 0" if "carry_safe D0 \<noteq> carry_safe D"
  proof -
    have "\<not> 65535 dvd unat P + f1"
    proof
      assume "65535 dvd unat P + f1"
      then obtain m where m: "unat P + f1 = 65535 * m" by (auto simp: dvd_def)
      have "65535 * (m + q1) + (if carry_safe D then 0 else 65536) =
          65535 * (q0 + q2 + 1) + (if carry_safe D0 then 0 else 65536)"
        using tot unfolding m by (simp only: distrib_left)
      then show False
        using that fold_off_by_one [of "m + q1" "q0 + q2 + 1"] fold_off_by_one [of "q0 + q2 + 1" "m + q1"]
        by (cases "carry_safe D") (simp_all only: if_True if_False add_0_right simp_thms)
    qed
    then show ?thesis using acc by (simp add: f1_def)
  qed
qed


section \<open>Delivery\<close>

definition udp_accepts :: "u32 \<Rightarrow> u32 \<Rightarrow> bytes \<Rightarrow> bool" where
  "udp_accepts s d payload \<longleftrightarrow> udp_check_of s d payload = 0"

lemma udp_handle_layout:
  assumes data: "ip_data pd = udp_layout h r" and ev: "even (length r)"
  shows "udp_handle pd w =
    (if \<not> udp_accepts (ip_src_addr pd) (ip_dst_addr pd) (udp_layout h r)
     then (Inl (RuntimeError (''udp checksum error invalid payload '' @ projr (UdpData_info (udp_layout h r)))), w)
     else case pcb_select (udpPcbs w) (ip_dst_addr pd) (u_dst h) of
       None \<Rightarrow> (Inr (-1), w)
     | Some i \<Rightarrow>
         if length r \<le> unat (u_len h)
         then (Inr 0, w\<lparr>udpPcbs := pcb_push (udpPcbs w) i
                 \<lparr>pl_data = r @ replicate (unat (u_len h) - length r) 0,
                  pl_endpoint = \<lparr>addr = ip_src_addr pd, port = u_src h\<rparr>\<rparr>\<rparr>)
         else (Inl (Undefined OutOfBounds), w))"
proof -
  obtain info where "UdpData_info (udp_layout h r) = Inr info" using UdpData_info_layout by blast
  moreover have "combined_checksum (ph_layout (ip_src_addr pd) (ip_dst_addr pd) UDP_TYPE (of_nat (8 + length r)))
      (udp_layout h r) = Inr (udp_check_of (ip_src_addr pd) (ip_dst_addr pd) (udp_layout h r))"
    using combined_checksum_layout [of "udp_layout h r" "ip_src_addr pd" "ip_dst_addr pd"] ev
    by (simp del: of_nat_add)
  ultimately show ?thesis
    by (simp add: udp_handle_def data build_pseudo_layout udp_read udp_accepts_def udp_payload_layout
        bindM_liftM_apply split: option.split del: of_nat_add)
qed

lemma udp_handle_odd:
  assumes "odd (length (ip_data pd))"
  shows "udp_handle pd w = (Inl (Undefined OutOfBounds), w)"
  using assms by (simp add: udp_handle_def build_pseudo_layout combined_checksum_odd)

lemma udp_info_short: "length d < 8 \<Longrightarrow> UdpData_info d = Inl (Undefined OutOfBounds)"
proof -
  assume "length d < 8"
  moreover have "readUint16 d n = Inl e \<Longrightarrow> e = Undefined OutOfBounds" for n e
    by (auto simp: vec_at_def readUint16_eq split: if_splits)
  ultimately show ?thesis
    by (auto simp: UdpData_info_def udp_accessor_defs u16f.get_short bindE_def split: sum.splits)
qed

lemma udp_handle_short:
  assumes "even (length (ip_data pd))" "length (ip_data pd) < 8"
  shows "udp_handle pd w = (Inl (Undefined OutOfBounds), w)"
proof -
  have "combined_checksum (ph_layout s d UDP_TYPE (of_nat (length (ip_data pd)))) (ip_data pd) =
      Inr (udp_check_of s d (ip_data pd))" for s d
    using assms(1) by (rule combined_checksum_layout)
  with assms show ?thesis by (simp add: udp_handle_def build_pseudo_layout udp_info_short)
qed

lemma udp_handle_keeps [frame_intros]:
  assumes "\<And>w i pl. I w \<Longrightarrow> I (w\<lparr>udpPcbs := pcb_push (udpPcbs w) i pl\<rparr>)"
  shows "keeps I (udp_handle pd)"
  unfolding udp_handle_def using assms by (intro frame_intros)

lemma udp_event_handle_keeps [frame_intros]:
  assumes "\<And>w. I w \<Longrightarrow> I (w\<lparr>udpPcbs := interruptAll (udpPcbs w)\<rparr>)"
  shows "keeps I udp_event_handle"
  unfolding udp_event_handle_def using assms by (intro frame_intros)

text \<open>What a peer of the program accepts: the datagrams it builds, unless a fold overflows.\<close>

definition datagram_sum :: "udp_header \<Rightarrow> bytes \<Rightarrow> nat" where
  "datagram_sum h r = word_sum (udp_layout h r)"

lemma datagram_sum_check:
  "datagram_sum (h\<lparr>u_check := c\<rparr>) r = datagram_sum (h\<lparr>u_check := 0\<rparr>) r + unat c"
proof -
  have "word_sum (be16 0) = 0" by (simp add: be16_def)
  then show ?thesis by (simp add: datagram_sum_def udp_layout_def)
qed

lemma out_datagram_sums:
  fixes s d :: IpEndpoint and data :: bytes
  defines "D0 \<equiv> datagram_sum (udp_out_header0 s d (length data)) data"
  assumes "length data \<le> 65527"
  shows "datagram_sum (udp_out_header s d data) data = D0 +
      unat (NOT (fold_carry (of_nat (unat (pseudo_fold (addr s) (addr d) (8 + length data)) +
                                     unat (fold_carry (of_nat D0))))))"
    and "D0 < 4294000000" and "0 < D0"
proof -
  let ?base = "udp_out_header0 s d (length data)"
  have base: "?base\<lparr>u_check := 0\<rparr> = ?base" by (simp add: udp_out_header0_def)
  have checked: "datagram_sum (?base\<lparr>u_check := c\<rparr>) data = D0 + unat c" for c
    using datagram_sum_check [where h = ?base and r = data and c = c] unfolding base D0_def .
  have "datagram_sum (udp_out_header s d data) data =
      D0 + unat (udp_check_of (addr s) (addr d) (udp_layout ?base data))"
    unfolding udp_out_header_def Let_def by (rule checked)
  then show "datagram_sum (udp_out_header s d data) data = D0 +
      unat (NOT (fold_carry (of_nat (unat (pseudo_fold (addr s) (addr d) (8 + length data)) +
                                     unat (fold_carry (of_nat D0))))))"
    by (simp only: udp_check_of_def datagram_sum_def length_udp_layout D0_def)
  have "D0 \<le> 65535 * ((8 + length data) div 2)"
    using word_sum_bound [of "udp_layout ?base data"] by (simp add: datagram_sum_def D0_def)
  also have "\<dots> < 4294000000" using assms(2) by linarith
  finally show "D0 < 4294000000" .
  have "unat (of_nat (8 + length data) :: u16) = 8 + length data"
    using assms(2) by (intro unat_of_nat_u16) simp
  then show "0 < D0" by (simp add: datagram_sum_def udp_layout_def udp_out_header0_def D0_def)
qed

lemma out_datagram_accepted:
  assumes "even (length data)" "length data \<le> 65527"
    and s0: "carry_safe (datagram_sum (udp_out_header0 s d (length data)) data)"
    and s1: "carry_safe (datagram_sum (udp_out_header s d data) data)"
  shows "udp_accepts (addr s) (addr d) (udp_layout (udp_out_header s d data) data)"
  using two_folds_verify(1) [OF out_datagram_sums [OF assms(2)] s0 s1]
  by (simp only: udp_accepts_def udp_check_of_def datagram_sum_def length_udp_layout)

lemma out_datagram_refused:
  assumes "length data \<le> 65527"
    and "carry_safe (datagram_sum (udp_out_header0 s d (length data)) data) \<noteq>
         carry_safe (datagram_sum (udp_out_header s d data) data)"
  shows "\<not> udp_accepts (addr s) (addr d) (udp_layout (udp_out_header s d data) data)"
proof -
  note sums = out_datagram_sums [OF assms(1), of s d]
  show ?thesis
    using two_folds_verify(2) [OF sums(1,2,3)] assms(2)
    by (simp only: udp_accepts_def udp_check_of_def datagram_sum_def length_udp_layout) blast
qed

section \<open>Properties\<close>

text \<open>What the UDP handler is given of a packet from \<open>s\<close> to \<open>d\<close>.\<close>

definition received_as :: "IpEndpoint \<Rightarrow> IpEndpoint \<Rightarrow> IpNetworkInterface \<Rightarrow> bytes \<Rightarrow> Ipv4ProtocolData" where
  "received_as s d iface m = \<lparr>ip_type = UDP_TYPE, ip_data = m, ip_src_addr = addr s, ip_dst_addr = addr d,
     ip_interface = iface\<rparr>"

text \<open>
  C20. From \<open>udp_output\<close> to the queue of the receiver: the datagram built for even data is accepted by
  the handler of the destination, when the two sums of the datagram need their carries added back
  only once, and delivered to the block its destination selects, with eight zero bytes behind the
  data.
\<close>

theorem datagram_roundtrip:
  assumes "even (length data)" "length data \<le> 65527"
    and "carry_safe (datagram_sum (udp_out_header0 s d (length data)) data)"
    and "carry_safe (datagram_sum (udp_out_header s d data) data)"
    and "pcb_select (udpPcbs w) (addr d) (port d) = Some i"
  shows "bindM (liftM (udp_message s d data)) (\<lambda>m. udp_handle (received_as s d iface m)) w =
    (Inr 0, w\<lparr>udpPcbs := pcb_push (udpPcbs w) i \<lparr>pl_data = data @ replicate 8 0, pl_endpoint = s\<rparr>\<rparr>)"
proof -
  let ?pd = "received_as s d iface (udp_layout (udp_out_header s d data) data)"
  have "unat (of_nat (8 + length data) :: u16) = 8 + length data"
    using assms(2) by (intro unat_of_nat_u16) simp
  then show ?thesis
    using udp_handle_layout [of ?pd "udp_out_header s d data" data w] out_datagram_accepted [OF assms(1-4)] assms
    by (simp add: udp_message_layout received_as_def del: of_nat_add)
qed

text \<open>Two blocks, the second one bound, and the endpoints of the two sides.\<close>

definition two_blocks :: pcb_table where
  "two_blocks = [opened 0 (UdpControlBlock_new \<lparr>addr = 0, port = 0\<rparr>),
     (opened 1 (UdpControlBlock_new \<lparr>addr = 0, port = 0\<rparr>))\<lparr>endpoint := \<lparr>addr = 0xC0000202, port = 5555\<rparr>\<rparr>]"

definition pcb_world :: world where
  "pcb_world = route_world\<lparr>udpPcbs := two_blocks\<rparr>"

lemma two_blocks_select: "pcb_select two_blocks 0xC0000202 5555 = Some 1"
  by (simp add: pcb_select_def two_blocks_def matches_def opened_def UdpControlBlock_new_def)

lemma sample_datagram_safe:
  "carry_safe (datagram_sum (udp_out_header0 \<lparr>addr = 0xC0000201, port = 4000\<rparr> \<lparr>addr = 0xC0000202, port = 5555\<rparr> 2) [0x68, 0x69])"
  "carry_safe (datagram_sum (udp_out_header \<lparr>addr = 0xC0000201, port = 4000\<rparr> \<lparr>addr = 0xC0000202, port = 5555\<rparr> [0x68, 0x69]) [0x68, 0x69])"
  by (simp_all add: datagram_sum_def udp_out_header_def udp_out_header0_def Let_def udp_layout_def udp_check_of_def
      pseudo_fold_def ph_layout_def be16_def be32_def UDP_TYPE_def fold_carry_def carry_safe_def)

theorem datagram_roundtrip_witness:
  "bindM (liftM (udp_message \<lparr>addr = 0xC0000201, port = 4000\<rparr> \<lparr>addr = 0xC0000202, port = 5555\<rparr> [0x68, 0x69]))
     (\<lambda>m. udp_handle (received_as \<lparr>addr = 0xC0000201, port = 4000\<rparr> \<lparr>addr = 0xC0000202, port = 5555\<rparr> one_iface m)) pcb_world =
    (Inr 0, pcb_world\<lparr>udpPcbs := pcb_push two_blocks 1
       \<lparr>pl_data = [0x68, 0x69] @ replicate 8 0, pl_endpoint = \<lparr>addr = 0xC0000201, port = 4000\<rparr>\<rparr>\<rparr>)"
  using datagram_roundtrip [of "[0x68, 0x69]" "\<lparr>addr = 0xC0000201, port = 4000\<rparr>" "\<lparr>addr = 0xC0000202, port = 5555\<rparr>"
      pcb_world 1 one_iface] sample_datagram_safe two_blocks_select
  by (simp add: pcb_world_def numeral_2_eq_2)

text \<open>
  C21. When exactly one of the two sums overflows its fold, the program refuses the datagram it
  built itself: the handler throws.
\<close>

theorem overflowing_datagram_refused:
  assumes "even (length data)" "length data \<le> 65527"
    and "carry_safe (datagram_sum (udp_out_header0 s d (length data)) data) \<noteq>
         carry_safe (datagram_sum (udp_out_header s d data) data)"
  shows "\<exists>m. bindM (liftM (udp_message s d data)) (\<lambda>m. udp_handle (received_as s d iface m)) w = (Inl (RuntimeError m), w)"
proof -
  let ?pd = "received_as s d iface (udp_layout (udp_out_header s d data) data)"
  show ?thesis
    using udp_handle_layout [of ?pd "udp_out_header s d data" data w] out_datagram_refused [OF assms(2,3)] assms(1,2)
    by (simp add: udp_message_layout received_as_def)
qed

theorem overflowing_datagram_refused_witness:
  "\<exists>m. bindM (liftM (udp_message \<lparr>addr = 0xC0000201, port = 65535\<rparr> \<lparr>addr = 0xC0000202, port = 65525\<rparr> [0, 1]))
     (\<lambda>m. udp_handle (received_as \<lparr>addr = 0xC0000201, port = 65535\<rparr> \<lparr>addr = 0xC0000202, port = 65525\<rparr> one_iface m))
     pcb_world = (Inl (RuntimeError m), pcb_world)"
  by (rule overflowing_datagram_refused)
    (simp_all add: datagram_sum_def udp_out_header_def udp_out_header0_def Let_def udp_layout_def udp_check_of_def
      pseudo_fold_def ph_layout_def be16_def be32_def UDP_TYPE_def fold_carry_def carry_safe_def)

text \<open>
  C22. An odd number of data bytes: sending them, and receiving them, reads a byte past the end of
  the datagram.  More bytes than the 16-bit length counts together with the header: sending them
  copies past the end of the datagram.
\<close>

theorem odd_datagram_undefined:
  assumes "odd (length data) \<or> 65527 < length data"
  shows "udp_output s d data w = (Inl (Undefined OutOfBounds), w) \<and>
    (length data \<le> 65527 \<longrightarrow>
       udp_handle (received_as s d iface (udp_layout h data)) w = (Inl (Undefined OutOfBounds), w))"
proof (cases "length data \<le> 65527")
  case True
  with assms show ?thesis by (simp add: udp_output_def udp_message_odd udp_handle_odd received_as_def)
qed (simp add: udp_output_def udp_message_overflow)

theorem odd_datagram_undefined_witness:
  "udp_output \<lparr>addr = 0xC0000202, port = 5555\<rparr> \<lparr>addr = 0xC0000201, port = 4000\<rparr> [0x68] pcb_world =
    (Inl (Undefined OutOfBounds), pcb_world) \<and>
   udp_output \<lparr>addr = 0xC0000202, port = 5555\<rparr> \<lparr>addr = 0xC0000201, port = 4000\<rparr> (replicate 65528 0) pcb_world =
    (Inl (Undefined OutOfBounds), pcb_world)"
  using odd_datagram_undefined [of "[0x68]"] odd_datagram_undefined [of "replicate 65528 0"] by simp

end
