(* ===== verification/IpInput.thy ===== *)
theory IpInput
  imports Icmp UdpDelivery
begin

unbundle bit_operations_syntax

text \<open>
  The receiving half of lib/Ipv4.cpp: \<open>Ipv4ProtocolHandler::handle\<close>, which checks a packet and
  hands its payload to the handler of its protocol.
\<close>

section \<open>Operation\<close>

text \<open>The virtual call \<open>protocolHandlers[protocol]->handle(d)\<close>.\<close>

fun ip_run :: "IpProtocolHandler \<Rightarrow> Ipv4ProtocolData \<Rightarrow> (world, int) eff" where
  "ip_run IcmpHandler pd = icmp_handle pd"
| "ip_run UdpHandler pd = udp_handle pd"

definition ip_handle :: "ProtocolData \<Rightarrow> (world, int) eff" where
  "ip_handle pd =
     bindM (liftM (Ipv4Data_of (pd_data pd))) (\<lambda>packet.
     bindM (liftM (ip_src packet)) (\<lambda>_.
     bindM (liftM (ip_dst packet)) (\<lambda>_.
     bindM (liftM (ip_protocol packet)) (\<lambda>_.
     bindM (liftM (headerLength packet)) (\<lambda>_.
     bindM (liftM (Ipv4Data_info packet)) (\<lambda>_.
     bindM (liftM (verifyHeader packet)) (\<lambda>ok.
     if \<not> ok then throwM (RuntimeError ''invalid header'')
     else
       bindM (liftM (ip_protocol packet)) (\<lambda>prot.
       bindM (liftM (ip_payload packet)) (\<lambda>data.
       bindM (\<lambda>w. (deref_device (pd_devicePtr pd) w, w)) (\<lambda>dev.
       bindM (liftM (getTargetInterface dev INTERFACE_FAMILY_IP)) (\<lambda>interface.
       case cast_to_ip interface of
         None \<Rightarrow> throwM (RuntimeError ''cast error'')
       | Some iface \<Rightarrow>
           bindM (liftM (ip_dst packet)) (\<lambda>d.
           if unicast iface \<noteq> d then throwM (RuntimeError ''ip not match error'')
           else
             bindM (getM (\<lambda>w. ipHandlers w prot)) (\<lambda>hdl.
             case hdl of
               None \<Rightarrow> retM 0
             | Some h \<Rightarrow>
                 bindM (liftM (ip_src packet)) (\<lambda>s.
                 bindM (ip_run h \<lparr>ip_type = prot, ip_data = data, ip_src_addr = s, ip_dst_addr = d,
                                   ip_interface = iface\<rparr>) (\<lambda>_.
                 retM 0)))))))))))))))"

section \<open>Outcomes\<close>

definition header_valid :: "ip_header \<Rightarrow> bool" where
  "header_valid h \<longleftrightarrow> 0 < header_sum h \<and> 65535 dvd header_sum h"

lemma header_valid_sum: "no_options h \<Longrightarrow> sums_to_ones (take (header_bytes h) (ip_layout h r)) = header_valid h"
  unfolding header_bytes_no_options sums_to_ones_def header_valid_def word_sum_header ..

text \<open>A packet with a header of any length.\<close>

lemma ip_handle_any:
  assumes "valid_device w k dev" "pd_devicePtr pd = Some k" "ip_iface_of dev iface"
    and pkt: "pd_data pd = ip_layout h r"
  shows "ip_handle pd w =
    (if 20 + length r < header_bytes h \<and> odd (length r) then (Inl (Undefined OutOfBounds), w)
     else if \<not> sums_to_ones (take (header_bytes h) (ip_layout h r)) then (Inl (RuntimeError ''invalid header''), w)
     else if unat (h_total h) < header_bytes h then (Inl LengthError, w)
     else if 20 + length r < unat (h_total h) then (Inl (Undefined OutOfBounds), w)
     else if unicast iface \<noteq> h_dst h then (Inl (RuntimeError ''ip not match error''), w)
     else case ipHandlers w (h_proto h) of
       None \<Rightarrow> (Inr 0, w)
     | Some hdl \<Rightarrow> bindM (ip_run hdl \<lparr>ip_type = h_proto h,
           ip_data = take (unat (h_total h) - header_bytes h) (drop (header_bytes h) (ip_layout h r)),
           ip_src_addr = h_src h, ip_dst_addr = h_dst h, ip_interface = iface\<rparr>) (\<lambda>_. retM 0) w)"
proof -
  obtain i where "Ipv4Data_info (ip_layout h r) = Inr i"
    using Ipv4Data_info_total [of "ip_layout h r"] by auto
  then show ?thesis
    using assms
    by (simp add: ip_handle_def ip_read ip_nibbles(2) verifyHeader_any ip_payload_any bindM_deref deref_valid
        ip_iface_of_def split: option.split)
qed

lemma ip_handle_layout:
  assumes dev: "valid_device w k dev" "pd_devicePtr pd = Some k"
    and iface: "ip_iface_of dev iface"
    and pkt: "pd_data pd = ip_layout h (p @ trailer)" "no_options h" "unat (h_total h) = 20 + length p"
  shows "ip_handle pd w =
    (if \<not> header_valid h then (Inl (RuntimeError ''invalid header''), w)
     else if unicast iface \<noteq> h_dst h then (Inl (RuntimeError ''ip not match error''), w)
     else case ipHandlers w (h_proto h) of
       None \<Rightarrow> (Inr 0, w)
     | Some hdl \<Rightarrow> bindM (ip_run hdl \<lparr>ip_type = h_proto h, ip_data = p, ip_src_addr = h_src h,
                                     ip_dst_addr = h_dst h, ip_interface = iface\<rparr>) (\<lambda>_. retM 0) w)"
proof -
  have "drop 20 (ip_layout h (p @ trailer)) = p @ trailer" by (simp add: ip_layout_def be16_def be32_def)
  then show ?thesis
    unfolding ip_handle_any [OF dev iface pkt(1)] header_valid_sum [OF pkt(2)]
    by (simp add: header_bytes_no_options [OF pkt(2)] pkt(3) split: option.split)
qed

lemma ip_handle_short:
  assumes "length (pd_data pd) < 20"
  shows "ip_handle pd w = (Inl (Undefined OutOfBounds), w)"
proof -
  have "ip_dst (pd_data pd) = Inl (Undefined OutOfBounds)"
    using assms by (simp add: ip_dst_def u32f.get_short)
  moreover have "ip_src (pd_data pd) = Inl (Undefined OutOfBounds) \<or> (\<exists>v. ip_src (pd_data pd) = Inr v)"
    using u32f.get_short [of "pd_data pd" 12] u32f.get_total [of 12 "pd_data pd"]
    by (cases "length (pd_data pd) < 16") (auto simp: ip_src_def)
  ultimately show ?thesis by (auto simp: ip_handle_def)
qed

lemma ip_run_keeps [frame_intros]:
  assumes "\<And>w x. I w \<Longrightarrow> I (w\<lparr>written := x\<rparr>)" "\<And>w x. I w \<Longrightarrow> I (w\<lparr>ipGenId := x\<rparr>)"
    and "\<And>w i pl. I w \<Longrightarrow> I (w\<lparr>udpPcbs := pcb_push (udpPcbs w) i pl\<rparr>)"
  shows "keeps I (ip_run h pd)"
  using assms by (cases h) (auto intro!: frame_intros)

lemma ip_handle_keeps [frame_intros]:
  assumes "\<And>w x. I w \<Longrightarrow> I (w\<lparr>written := x\<rparr>)" "\<And>w x. I w \<Longrightarrow> I (w\<lparr>ipGenId := x\<rparr>)"
    and "\<And>w i pl. I w \<Longrightarrow> I (w\<lparr>udpPcbs := pcb_push (udpPcbs w) i pl\<rparr>)"
  shows "keeps I (ip_handle pd)"
  unfolding ip_handle_def using assms by (intro frame_intros)

section \<open>What the program sends, it accepts\<close>

text \<open>
  The packet \<open>ipv4_output\<close> writes, with the padding of its frame, in the hands of the handler of the
  machine it is addressed to.
\<close>

lemma out_header_valid:
  "header_valid (out_header prot n ident s d) \<longleftrightarrow> carry_safe (header_sum (out_header0 prot n ident s d))"
  using out_header_verifies [of prot n ident s d "[]"] verifyHeader_layout [of "out_header prot n ident s d" "[]"]
  by (simp add: header_valid_def)

lemma ip_output_input:
  assumes "valid_device w k dev" "pd_devicePtr pd = Some k" "ip_iface_of dev iface" "unicast iface = d"
    and "pd_data pd = ip_layout (out_header prot (length data) ident s d) data @ padding" "length data \<le> 65515"
    and "carry_safe (header_sum (out_header0 prot (length data) ident s d))"
    and "ipHandlers w prot = Some hdl"
  shows "ip_handle pd w =
    bindM (ip_run hdl \<lparr>ip_type = prot, ip_data = data, ip_src_addr = s, ip_dst_addr = d, ip_interface = iface\<rparr>)
      (\<lambda>_. retM 0) w"
proof -
  let ?h = "out_header prot (length data) ident s d"
  have "pd_data pd = ip_layout ?h (data @ padding)" using assms(5) by (simp add: ip_layout_def)
  moreover have "unat (h_total ?h) = 20 + length data"
    unfolding out_header_fields using assms(6) by (intro unat_of_nat_u16) simp
  ultimately show ?thesis
    using assms ip_handle_layout [of w k dev pd iface ?h data padding]
    by (simp add: out_header_valid del: of_nat_add)
qed

section \<open>Properties\<close>

text \<open>
  C24. What \<open>ipv4_output\<close> puts into a frame, the handler of the machine it is addressed to hands to
  the handler of its protocol unchanged, with its source and destination, whatever padding the
  frame has added; but if adding the carries of the header's sum back once gives a carry again, the
  packet is refused as invalid.
\<close>

theorem packet_roundtrip:
  assumes "valid_device w k dev" "ip_iface_of dev iface" "unicast iface = d" "length data \<le> 65515"
    and "ipHandlers w prot = Some hdl"
  shows "\<exists>p. ipv4_packet prot data ident s d = Inr p \<and>
    (\<forall>padding. ip_handle \<lparr>pd_type = ipType, pd_data = p @ padding, pd_devicePtr = Some k\<rparr> w =
      (if carry_safe (header_sum (out_header0 prot (length data) ident s d))
       then bindM (ip_run hdl \<lparr>ip_type = prot, ip_data = data, ip_src_addr = s, ip_dst_addr = d, ip_interface = iface\<rparr>)
              (\<lambda>_. retM 0) w
       else (Inl (RuntimeError ''invalid header''), w)))"
proof -
  let ?h = "out_header prot (length data) ident s d"
  have t: "unat (h_total ?h) = 20 + length data"
    unfolding out_header_fields using assms(4) by (intro unat_of_nat_u16) simp
  have "ip_handle \<lparr>pd_type = ipType, pd_data = ip_layout ?h data @ padding, pd_devicePtr = Some k\<rparr> w =
      (if carry_safe (header_sum (out_header0 prot (length data) ident s d))
       then bindM (ip_run hdl \<lparr>ip_type = prot, ip_data = data, ip_src_addr = s, ip_dst_addr = d, ip_interface = iface\<rparr>)
              (\<lambda>_. retM 0) w
       else (Inl (RuntimeError ''invalid header''), w))" for padding
  proof -
    have "ip_layout ?h data @ padding = ip_layout ?h (data @ padding)" by (simp add: ip_layout_def)
    then show ?thesis
      using ip_handle_layout [OF assms(1) _ assms(2) _ _ t] assms(3,5)
      by (simp add: out_header_valid del: of_nat_add)
  qed
  with assms(4) show ?thesis by (simp add: ipv4_packet_layout del: of_nat_add)
qed

definition udp_world :: world where
  "udp_world = pcb_world\<lparr>ipHandlers := [ICMP_TYPE \<mapsto> IcmpHandler, UDP_TYPE \<mapsto> UdpHandler]\<rparr>"

lemma udp_world_facts:
  "valid_device udp_world 0 one_device" "ipHandlers udp_world UDP_TYPE = Some UdpHandler"
  by (simp_all add: udp_world_def pcb_world_def route_world_def learn_def iface_world_def valid_device_def one_device_def)

theorem packet_roundtrip_witness:
  "(\<exists>p. ipv4_packet UDP_TYPE [1, 2] 128 0xC0000201 0xC0000202 = Inr p \<and>
     ip_handle \<lparr>pd_type = ipType, pd_data = p @ replicate 24 0, pd_devicePtr = Some 0\<rparr> udp_world =
       bindM (ip_run UdpHandler \<lparr>ip_type = UDP_TYPE, ip_data = [1, 2], ip_src_addr = 0xC0000201,
                ip_dst_addr = 0xC0000202, ip_interface = one_iface\<rparr>) (\<lambda>_. retM 0) udp_world) \<and>
   (\<exists>p. ipv4_packet UDP_TYPE [1, 2] 14292 0xC0000201 0xC0000202 = Inr p \<and>
     ip_handle \<lparr>pd_type = ipType, pd_data = p @ replicate 24 0, pd_devicePtr = Some 0\<rparr> udp_world =
       (Inl (RuntimeError ''invalid header''), udp_world))"
proof -
  have sums: "carry_safe (header_sum (out_header0 UDP_TYPE (length [1 :: u8, 2]) 128 0xC0000201 0xC0000202))"
    "\<not> carry_safe (header_sum (out_header0 UDP_TYPE (length [1 :: u8, 2]) 14292 0xC0000201 0xC0000202))"
    by (simp_all add: header_sum_def out_header0_def be32_def UDP_TYPE_def carry_safe_def)
  have u: "unicast one_iface = 0xC0000202" by (simp add: one_iface_def)
  show ?thesis
    using packet_roundtrip [OF udp_world_facts(1) iface_world_facts(2) u _ udp_world_facts(2), of "[1, 2]" 128 "0xC0000201"]
      packet_roundtrip [OF udp_world_facts(1) iface_world_facts(2) u _ udp_world_facts(2), of "[1, 2]" 14292 "0xC0000201"] sums
    by auto
qed

text \<open>
  C25. The handler on the body of any IPv4 frame, every outcome.  Fewer than 20 bytes are read past
  their end.  Otherwise the bytes are a header \<open>h\<close> and the rest, and the header's own length, from 0 to
  60 bytes, is believed: bytes of it beyond the packet are read if the packet has an odd size, and
  otherwise left out of the sum; a wrong sum throws.  The total length is believed, so that one
  below the header's length ends in an exception that no handler of runtime errors catches, and one
  beyond the end of the frame in a read past it.  Another destination throws; a protocol nobody
  handles is dropped; otherwise the outcome is that of the protocol's handler on the bytes between
  the header's length and the total length, without the padding of the frame.
\<close>

theorem ip_handle_outcomes:
  assumes "valid_device w k dev" "pd_devicePtr pd = Some k" "ip_iface_of dev iface"
  shows "(length (pd_data pd) < 20 \<longrightarrow> ip_handle pd w = (Inl (Undefined OutOfBounds), w)) \<and>
    (20 \<le> length (pd_data pd) \<longrightarrow> (\<exists>h r. pd_data pd = ip_layout h r)) \<and>
    (\<forall>h r. pd_data pd = ip_layout h r \<longrightarrow> ip_handle pd w =
      (if 20 + length r < header_bytes h \<and> odd (length r) then (Inl (Undefined OutOfBounds), w)
       else if \<not> sums_to_ones (take (header_bytes h) (ip_layout h r)) then (Inl (RuntimeError ''invalid header''), w)
       else if unat (h_total h) < header_bytes h then (Inl LengthError, w)
       else if 20 + length r < unat (h_total h) then (Inl (Undefined OutOfBounds), w)
       else if unicast iface \<noteq> h_dst h then (Inl (RuntimeError ''ip not match error''), w)
       else case ipHandlers w (h_proto h) of
         None \<Rightarrow> (Inr 0, w)
       | Some hdl \<Rightarrow> bindM (ip_run hdl \<lparr>ip_type = h_proto h,
             ip_data = take (unat (h_total h) - header_bytes h) (drop (header_bytes h) (ip_layout h r)),
             ip_src_addr = h_src h, ip_dst_addr = h_dst h, ip_interface = iface\<rparr>) (\<lambda>_. retM 0) w))"
proof (intro conjI allI impI)
  assume "20 \<le> length (pd_data pd)"
  then show "\<exists>h r. pd_data pd = ip_layout h r" by (metis ip_layout_cases)
qed (rule ip_handle_short, assumption, rule ip_handle_any [OF assms], assumption)

definition lying_header :: "u16 \<Rightarrow> u16 \<Rightarrow> ip_header" where
  "lying_header len chk = \<lparr>h_vhl = 0x45, h_tos = 0, h_total = len, h_id = 1, h_flags = 0, h_ttl = 64,
     h_proto = 0x11, h_check = chk, h_src = 0xC0000201, h_dst = 0xC0000202\<rparr>"

text \<open>A header of 24 bytes, the last four of them options.\<close>

definition options_header :: ip_header where
  "options_header = (lying_header 26 0xF3CD)\<lparr>h_vhl := 0x46\<rparr>"

lemma lying_sums:
  "sums_to_ones (take 20 (ip_layout (lying_header 10 0xF6DE) []))"
  "sums_to_ones (take 20 (ip_layout (lying_header 100 0xF684) []))"
  "sums_to_ones (take 24 (ip_layout options_header [1, 1, 1, 0, 7, 9]))"
  by (simp_all add: sums_to_ones_def ip_layout_def lying_header_def options_header_def be16_def be32_def)

theorem ip_handle_outcomes_witness:
  "ip_handle \<lparr>pd_type = ipType, pd_data = ip_layout (lying_header 10 0xF6DE) [], pd_devicePtr = Some 0\<rparr> udp_world =
     (Inl LengthError, udp_world) \<and>
   ip_handle \<lparr>pd_type = ipType, pd_data = ip_layout (lying_header 100 0xF684) [], pd_devicePtr = Some 0\<rparr> udp_world =
     (Inl (Undefined OutOfBounds), udp_world) \<and>
   ip_handle \<lparr>pd_type = ipType, pd_data = ip_layout options_header [1, 1, 1, 0, 7, 9], pd_devicePtr = Some 0\<rparr> udp_world =
     bindM (ip_run UdpHandler \<lparr>ip_type = 0x11, ip_data = [7, 9], ip_src_addr = 0xC0000201, ip_dst_addr = 0xC0000202,
        ip_interface = one_iface\<rparr>) (\<lambda>_. retM 0) udp_world"
proof -
  have h: "header_bytes (lying_header t c) = 20" "unat (h_total (lying_header t c)) = unat t" for t c
    by (simp_all add: lying_header_def header_bytes_def)
  have o: "header_bytes options_header = 24" "unat (h_total options_header) = 26" "h_proto options_header = 0x11"
    "h_src options_header = 0xC0000201" "h_dst options_header = 0xC0000202"
    "drop 24 (ip_layout options_header [1, 1, 1, 0, 7, 9]) = [7, 9]"
    by (simp_all add: lying_header_def options_header_def header_bytes_def ip_layout_def be16_def be32_def)
  note outcomes = ip_handle_outcomes [OF udp_world_facts(1) _ iface_world_facts(2), THEN conjunct2, THEN conjunct2,
      rule_format, where pd = "\<lparr>pd_type = ipType, pd_data = d, pd_devicePtr = Some 0\<rparr>" for d, simplified]
  have u: "ipHandlers udp_world 0x11 = Some UdpHandler" "unicast one_iface = 0xC0000202"
    using udp_world_facts(2) by (simp_all add: UDP_TYPE_def one_iface_def)
  show ?thesis
    by (intro conjI; subst outcomes [OF refl]) (simp_all add: h o u lying_sums [simplified])
qed

end
