(* ===== verification/Interrupt.thy ===== *)
theory Interrupt
  imports IpInput
begin

unbundle bit_operations_syntax

text \<open>
  lib/Interrupt.h: the thread that waits for signals, reads frames from the devices, and runs the
  protocol handlers on the queued packets.
\<close>

section \<open>Protocol handlers\<close>

text \<open>The virtual call \<open>protocolHandlers[type]->handle(d)\<close>.\<close>

fun proto_run :: "ProtocolHandler \<Rightarrow> ProtocolData \<Rightarrow> (world, int) eff" where
  "proto_run ArpProtocolHandler pd = arp_handle pd"
| "proto_run Ipv4ProtocolHandler pd = ip_handle pd"

text \<open>
  The contract between the queues and the handlers: a handler neither looks at the queues nor
  changes them, changes nothing of the configuration and raises no signal.  This is what lets the
  loop that runs handlers iterate over the queues, and what makes it end.
\<close>

definition set_queues :: "(u16 \<times> ProtocolData list) list \<Rightarrow> world \<Rightarrow> world" where
  "set_queues q w = w\<lparr>protocolQueues := q\<rparr>"

lemma set_queues_twice [simp]: "set_queues q (set_queues p w) = set_queues q w"
  by (simp add: set_queues_def)

lemma set_queues_get [simp]: "protocolQueues (set_queues q w) = q"
  by (simp add: set_queues_def)

lemma set_queues_frame [simp]:
  "protocolHandlers (set_queues q w) = protocolHandlers w" "pending (set_queues q w) = pending w"
  "config (set_queues q w) = config w" "devices (set_queues q w) = devices w"
  "ipHandlers (set_queues q w) = ipHandlers w" "eventHandlers (set_queues q w) = eventHandlers w"
  by (simp_all add: set_queues_def config_def)

locale protocol_handler =
  fixes run :: "ProtocolData \<Rightarrow> (world, int) eff"
  assumes queues_unused: "blind (set_queues q) (run pd)"
    and config_kept: "keeps (\<lambda>w. config w = c) (run pd)"
    and pending_kept: "keeps (\<lambda>w. pending w = p) (run pd)"
begin

lemma queues_kept: "protocolQueues (snd (run pd w)) = protocolQueues w"
proof -
  let ?q = "protocolQueues w"
  have "run pd w = (fst (run pd w), set_queues ?q (snd (run pd w)))"
    using blindD [OF queues_unused [of ?q pd], where s = w] by (simp add: set_queues_def)
  then have "snd (run pd w) = set_queues ?q (snd (run pd w))" by (metis snd_conv)
  then have "protocolQueues (snd (run pd w)) = protocolQueues (set_queues ?q (snd (run pd w)))" by (rule arg_cong)
  then show ?thesis by (simp add: set_queues_def)
qed

lemma config_same: "config (snd (run pd w)) = config w"
  using keepsD [OF config_kept, of w "config w"] by simp

lemma pending_same: "pending (snd (run pd w)) = pending w"
  using keepsD [OF pending_kept, of w "pending w"] by simp

end

section \<open>The handlers of the program satisfy it\<close>

lemma transmit_blind [blind_intros]: "blind (set_queues q) (transmit p data dst type)"
  unfolding transmit_def by (intro blind_intros) (simp_all add: set_queues_def deref_device_def split: option.split)

lemma deref_blind [blind_intros]: "blind (set_queues q) (\<lambda>w. (deref_device p w, w))"
  by (intro blind_intros) (simp add: set_queues_def deref_device_def split: option.split)

lemma arpRequest_blind [blind_intros]: "blind (set_queues q) (arpRequest iface ip)"
  unfolding arpRequest_def by (intro blind_intros)

lemma arp_reply_blind [blind_intros]: "blind (set_queues q) (arp_reply iface d)"
  unfolding arp_reply_def by (intro blind_intros)

lemma arpResolve_blind [blind_intros]: "blind (set_queues q) (arpResolve iface ip)"
  unfolding arpResolve_def by (intro blind_intros) (simp add: set_queues_def)

lemma arp_handle_blind: "blind (set_queues q) (arp_handle pd)"
  unfolding arp_handle_def Let_def by (intro blind_intros) (simp add: set_queues_def)

lemma ipv4_output_blind [blind_intros]: "blind (set_queues q) (ipv4_output prot data s d)"
  unfolding ipv4_output_def ip_gen_id_def by (intro blind_intros) (simp_all add: set_queues_def)

lemma ip_run_blind [blind_intros]: "blind (set_queues q) (ip_run h pd)"
proof (cases h)
  case IcmpHandler
  have "blind (set_queues q) (icmp_handle pd)"
    unfolding icmp_handle_def replyIcmp_def by (intro blind_intros)
  then show ?thesis by (simp add: IcmpHandler)
next
  case UdpHandler
  have "blind (set_queues q) (udp_handle pd)"
    unfolding udp_handle_def by (intro blind_intros) (simp_all add: set_queues_def)
  then show ?thesis by (simp add: UdpHandler)
qed

lemma ip_handle_blind: "blind (set_queues q) (ip_handle pd)"
  unfolding ip_handle_def by (intro blind_intros) (simp_all add: set_queues_def)

interpretation arp_proto: protocol_handler arp_handle
  by unfold_locales (auto intro!: arp_handle_blind arp_handle_keeps simp: config_def)

interpretation ip_proto: protocol_handler ip_handle
  by unfold_locales (auto intro!: ip_handle_blind ip_handle_keeps simp: config_def)

interpretation proto: protocol_handler "proto_run h" for h
  by (cases h) (unfold_locales; simp add: arp_proto.queues_unused arp_proto.config_kept arp_proto.pending_kept
      ip_proto.queues_unused ip_proto.config_kept ip_proto.pending_kept)+

section \<open>Draining the queues\<close>

text \<open>
  The inner loop of \<open>handleProtocolSignal\<close>.  The element is popped before it is handled;
  \<open>operator[]\<close> of the handler map makes a null pointer for a type without a handler.
\<close>

function drain_queue :: "u16 \<Rightarrow> (world, unit) eff" where
  "drain_queue type w =
     (case map_of (protocolQueues w) type of
        Some (d # ds) \<Rightarrow>
          (let w' = set_queues (map_update type (\<lambda>_. ds) (protocolQueues w)) w in
           case protocolHandlers w' type of
             None \<Rightarrow> (Inl (Undefined NullDereference), w')
           | Some h \<Rightarrow>
               (case proto_run h d w' of
                  (Inl e, w'') \<Rightarrow> (Inl e, w'')
                | (Inr _, w'') \<Rightarrow> drain_queue type w''))
      | _ \<Rightarrow> (Inr (), w))"
  by pat_completeness auto

definition queue_of :: "u16 \<Rightarrow> world \<Rightarrow> ProtocolData list" where
  "queue_of type w = (case map_of (protocolQueues w) type of None \<Rightarrow> [] | Some q \<Rightarrow> q)"

text \<open>Each round makes the queue one shorter, because handlers keep the queues.\<close>

lemma drain_round_shorter:
  assumes q: "map_of (protocolQueues w) type = Some (d # ds)"
    and run: "proto_run h d (set_queues (map_update type (\<lambda>_. ds) (protocolQueues w)) w) = (r, w')"
  shows "length (queue_of type w') < length (queue_of type w)"
proof -
  have "protocolQueues w' = map_update type (\<lambda>_. ds) (protocolQueues w)"
    using proto.queues_kept [of h d "set_queues (map_update type (\<lambda>_. ds) (protocolQueues w)) w"] run by simp
  with q show ?thesis by (simp add: queue_of_def)
qed

termination drain_queue
  by (relation "measure (\<lambda>(type, w). length (queue_of type w))") (auto intro: drain_round_shorter [OF _ sym])

declare drain_queue.simps [simp del]

fun drain_all :: "u16 list \<Rightarrow> (world, unit) eff" where
  "drain_all [] = retM ()"
| "drain_all (type # types) = bindM (drain_queue type) (\<lambda>_. drain_all types)"

definition handleProtocolSignal :: "(world, unit) eff" where
  "handleProtocolSignal w = drain_all (map fst (protocolQueues w)) w"

text \<open>The specification: handle a list of packets one after another, stopping at an exception.\<close>

fun run_all :: "(ProtocolData \<Rightarrow> (world, int) eff) \<Rightarrow> ProtocolData list \<Rightarrow> (world, unit) eff" where
  "run_all run [] = retM ()"
| "run_all run (d # ds) = bindM (run d) (\<lambda>_. run_all run ds)"

lemma run_all_append:
  "run_all run (xs @ ys) = bindM (run_all run xs) (\<lambda>_. run_all run ys)"
  by (induction xs) (simp_all add: bindM_assoc)

context protocol_handler
begin

lemma run_all_blind: "blind (set_queues q) (run_all run ds)"
  by (induction ds) (auto intro!: blind_intros queues_unused)

lemma run_all_queues: "protocolQueues (snd (run_all run ds w)) = protocolQueues w"
  by (induction ds arbitrary: w) (auto simp: bindM_def queues_kept split_beta split: sum.split)

lemma run_all_config: "config (snd (run_all run ds w)) = config w"
  by (induction ds arbitrary: w) (auto simp: bindM_def config_same split_beta split: sum.split)

lemma run_all_pending: "pending (snd (run_all run ds w)) = pending w"
  by (induction ds arbitrary: w) (auto simp: bindM_def pending_same split_beta split: sum.split)

end

text \<open>
  Draining a queue handles its packets in their order of arrival; if no handler throws, the queue
  is empty afterwards, and only the queue was touched beside what the handlers do.
\<close>

lemma map_update_twice [simp]: "map_update k f (map_update k g m) = map_update k (f \<circ> g) m"
  by (induction m) (auto simp: map_update_def)

lemma config_handlers: "config w = config w' \<Longrightarrow> protocolHandlers w = protocolHandlers w'"
  by (simp add: config_def)

definition drained :: "u16 \<Rightarrow> world \<Rightarrow> world" where
  "drained type w = set_queues (map_update type (\<lambda>_. []) (protocolQueues w)) w"

lemma drain_queue_empty: "queue_of type w = [] \<Longrightarrow> drain_queue type w = (Inr (), w)"
  by (subst drain_queue.simps) (auto simp: queue_of_def split: option.splits)

lemma drain_queue_step:
  assumes "map_of (protocolQueues w) type = Some (d # ds)" "protocolHandlers w type = Some h"
  shows "drain_queue type w =
    bindM (proto_run h d) (\<lambda>_. drain_queue type) (set_queues (map_update type (\<lambda>_. ds) (protocolQueues w)) w)"
  using assms by (subst drain_queue.simps) (simp add: Let_def bindM_def split_beta split: sum.split)

lemma map_update_same:
  assumes "distinct (map fst m)" "map_of m k = Some v" "f v = v"
  shows "map_update k f m = m"
  unfolding map_update_def
proof (rule map_idI)
  fix x assume "x \<in> set m"
  then have "map_of m (fst x) = Some (snd x)" using assms(1) by (intro map_of_is_SomeI) simp_all
  then have "fst x = k \<Longrightarrow> snd x = v" using assms(2) by simp
  then show "(case x of (k', v) \<Rightarrow> if k' = k then (k', f v) else (k', v)) = x"
    using assms(3) by (cases x) auto
qed

text \<open>The handlers see the world with any queue; the queue's contents run through them in order.\<close>

lemma drain_queue_run_all:
  assumes "distinct (map fst (protocolQueues w))" "protocolHandlers w type = Some h"
    and "map_of (protocolQueues w) type = Some q" "run_all (proto_run h) q w = (Inr (), w')"
  shows "drain_queue type w = (Inr (), drained type w')"
  using assms
proof (induction q arbitrary: w w')
  case Nil
  then have "drained type w = w"
    by (simp add: drained_def set_queues_def map_update_same)
  with Nil show ?case by (auto simp: drain_queue_empty queue_of_def)
next
  case (Cons d q)
  let ?m = "protocolQueues w" let ?q = "map_update type (\<lambda>_. q) ?m"
  obtain v w1 where d: "proto_run h d w = (Inr v, w1)" and rest: "run_all (proto_run h) q w1 = (Inr (), w')"
    using Cons.prems(4) by (auto simp: bindM_eq_Inr_iff)
  have "config w1 = config w" using proto.config_same [of h d w] d by simp
  then have keep: "protocolHandlers w1 = protocolHandlers w" "protocolQueues w1 = ?m"
    using proto.queues_kept [of h d w] d by (simp_all add: config_def)
  let ?w = "set_queues ?q w1"
  have "proto_run h d (set_queues ?q w) = (Inr v, ?w)"
    using blindD [OF proto.queues_unused [of ?q h d], of w] d by simp
  then have "drain_queue type w = drain_queue type ?w"
    using Cons.prems(2,3) by (simp add: drain_queue_step bindM_Inr)
  also have "\<dots> = (Inr (), drained type (set_queues ?q w'))"
  proof (rule Cons.IH)
    show "run_all (proto_run h) q ?w = (Inr (), set_queues ?q w')"
      using blindD [OF proto.run_all_blind [of ?q h q], of w1] rest by simp
  qed (use Cons.prems keep in simp_all)
  also have "drained type (set_queues ?q w') = drained type w'"
  proof -
    have "protocolQueues w' = ?m"
      using proto.run_all_queues [of h q w1] rest keep by simp
    then show ?thesis by (simp add: drained_def comp_def)
  qed
  finally show ?case .
qed

text \<open>An exception stops the drain; the packet that caused it is gone, the later ones stay queued.\<close>

lemma drain_queue_error:
  assumes "map_of (protocolQueues w) type = Some (d # ds)" "protocolHandlers w type = Some h"
    and "proto_run h d w = (Inl e, w')"
  shows "drain_queue type w = (Inl e, set_queues (map_update type (\<lambda>_. ds) (protocolQueues w)) w')"
  using assms blindD [OF proto.queues_unused [of "map_update type (\<lambda>_. ds) (protocolQueues w)" h d], of w]
  by (simp add: drain_queue_step bindM_Inl)

section \<open>Properties\<close>

text \<open>
  C12. One signal for the protocol queues is one pass over their contents: the IPv4 packets in their
  order of arrival, then the ARP packets in theirs, each handled in the world the one before left;
  if no handler throws, both queues are empty at the end and nothing else has happened.
\<close>

theorem packets_handled_in_order:
  assumes "map fst (protocolQueues w) = [ipType, arpType]"
    and "protocolHandlers w ipType = Some Ipv4ProtocolHandler" "protocolHandlers w arpType = Some ArpProtocolHandler"
    and "run_all ip_handle (queue_of ipType w) w = (Inr (), w1)"
    and "run_all arp_handle (queue_of arpType w) w1 = (Inr (), w2)"
  shows "handleProtocolSignal w = (Inr (), set_queues [(ipType, []), (arpType, [])] w2)"
proof -
  have ne: "ipType \<noteq> arpType" by (simp add: ipType_def arpType_def)
  obtain qi qa where q: "protocolQueues w = [(ipType, qi), (arpType, qa)]" using assms(1) by auto
  have run: "proto_run Ipv4ProtocolHandler = ip_handle" "proto_run ArpProtocolHandler = arp_handle"
    by (simp_all add: fun_eq_iff)
  have w1: "protocolQueues w1 = protocolQueues w" "config w1 = config w"
    using ip_proto.run_all_queues [of "queue_of ipType w" w] ip_proto.run_all_config [of "queue_of ipType w" w] assms(4)
    by simp_all
  have w2: "protocolQueues w2 = protocolQueues w"
    using arp_proto.run_all_queues [of "queue_of arpType w" w1] assms(5) w1 by simp
  have first: "drain_queue ipType w = (Inr (), set_queues [(ipType, []), (arpType, qa)] w1)"
    using drain_queue_run_all [OF _ assms(2), of qi w1] assms(4) q ne w1(1)
    by (simp add: run queue_of_def drained_def map_update_def)
  let ?v = "set_queues [(ipType, []), (arpType, qa)] w1"
  have "run_all arp_handle qa ?v = (Inr (), set_queues [(ipType, []), (arpType, qa)] w2)"
    using blindD [OF arp_proto.run_all_blind [of "[(ipType, []), (arpType, qa)]" qa], of w1] assms(5) q ne
    by (simp add: queue_of_def)
  moreover have "protocolHandlers ?v arpType = Some ArpProtocolHandler"
    using assms(3) w1(2) by (simp add: config_def)
  ultimately have "drain_queue arpType ?v = (Inr (), set_queues [(ipType, []), (arpType, [])] w2)"
    using drain_queue_run_all [of ?v arpType ArpProtocolHandler qa] ne
    by (simp add: run drained_def map_update_def)
  with first show ?thesis by (simp add: handleProtocolSignal_def q bindM_Inr)
qed

text \<open>Two ARP packets for one queue, the other one empty.\<close>

definition two_packets_world :: world where
  "two_packets_world = iface_world\<lparr>protocolQueues := [(ipType, []), (arpType, [one_request, one_request])],
     protocolHandlers := [ipType \<mapsto> Ipv4ProtocolHandler, arpType \<mapsto> ArpProtocolHandler]\<rparr>"

lemma one_request_handled:
  assumes "valid_device w 0 one_device"
  shows "arp_handle one_request w = (Inr 0, (learn 0xC0000201 [2, 0, 0, 0, 0, 1] w)\<lparr>written := written w @
     [(0, reply_frame one_device one_iface [2, 0, 0, 0, 0, 1] (be32 0xC0000201))]\<rparr>)"
  using arp_handle_layout [OF assms _ iface_world_facts(2,3), of one_request 1 1 "[2, 0, 0, 0, 0, 1]" "0xC0000201"
      "replicate 6 0" "0xC0000202" "[]"]
  by (simp add: one_request_def one_iface_def OP_REQUEST_def)

theorem packets_handled_in_order_witness:
  "\<exists>w'. handleProtocolSignal two_packets_world = (Inr (), w') \<and> length (written w') = 2"
proof -
  let ?l = "\<lambda>w. (learn 0xC0000201 [2, 0, 0, 0, 0, 1] w)\<lparr>written := written w @
     [(0, reply_frame one_device one_iface [2, 0, 0, 0, 0, 1] (be32 0xC0000201))]\<rparr>"
  have v: "valid_device two_packets_world 0 one_device" "valid_device (?l two_packets_world) 0 one_device"
    using iface_world_facts(1) by (simp_all add: two_packets_world_def valid_device_def learn_def)
  have ne: "ipType \<noteq> arpType" by (simp add: ipType_def arpType_def)
  have "run_all arp_handle (queue_of arpType two_packets_world) two_packets_world = (Inr (), ?l (?l two_packets_world))"
    using one_request_handled [OF v(1)] one_request_handled [OF v(2)] ne
    by (simp add: two_packets_world_def queue_of_def bindM_Inr)
  moreover have "run_all ip_handle (queue_of ipType two_packets_world) two_packets_world = (Inr (), two_packets_world)"
    by (simp add: two_packets_world_def queue_of_def)
  ultimately have "handleProtocolSignal two_packets_world =
      (Inr (), set_queues [(ipType, []), (arpType, [])] (?l (?l two_packets_world)))"
    using packets_handled_in_order [of two_packets_world two_packets_world] ne by (simp add: two_packets_world_def)
  moreover have "written two_packets_world = []"
    by (simp add: two_packets_world_def iface_world_def one_device_world_def)
  ultimately show ?thesis by (simp add: set_queues_def)
qed

end
