(* ===== verification/UdpSockets.thy ===== *)
theory UdpSockets
  imports UdpDelivery
begin

unbundle bit_operations_syntax

text \<open>
  The socket operations of lib/Udp.cpp as their callers see them: opening until the table is full,
  binding, sending from a bound and from an unbound socket, receiving in order, and the invariants
  of the table of control blocks that all of them keep.
\<close>

section \<open>Opening\<close>

lemma udp_open_counter:
  assumes "first_n_open n (udpPcbs w)"
  shows "n < length (udpPcbs w) \<Longrightarrow>
      udp_open w = (Inr (Inr \<lparr>sock_id = int n, sock_pcbId = int n\<rparr>), w\<lparr>udpPcbs := snd (pcb_alloc (udpPcbs w))\<rparr>) \<and>
      first_n_open (Suc n) (snd (pcb_alloc (udpPcbs w)))"
    and "n = length (udpPcbs w) \<Longrightarrow> udp_open w = (Inr (Inl (-1)), w)"
proof -
  show "udp_open w = (Inr (Inr \<lparr>sock_id = int n, sock_pcbId = int n\<rparr>), w\<lparr>udpPcbs := snd (pcb_alloc (udpPcbs w))\<rparr>) \<and>
      first_n_open (Suc n) (snd (pcb_alloc (udpPcbs w)))" if n: "n < length (udpPcbs w)"
  proof -
    obtain pcbs where p: "pcb_alloc (udpPcbs w) = (Some n, pcbs)" "first_n_open (Suc n) pcbs"
      using alloc_counter(1) [OF assms n] by (cases "pcb_alloc (udpPcbs w)") auto
    then have "pcb_id (pcbs ! n) = int n" by (auto simp: first_n_open_def)
    with p show ?thesis by (simp add: udp_open_def)
  qed
  show "udp_open w = (Inr (Inl (-1)), w)" if "n = length (udpPcbs w)"
    using alloc_counter(2) [OF assms that] by (simp add: udp_open_def)
qed

text \<open>\<open>n\<close> calls of \<open>open\<close> in a row.\<close>

fun open_many :: "nat \<Rightarrow> world \<Rightarrow> UdpSocket expected result list \<times> world" where
  "open_many 0 w = ([], w)"
| "open_many (Suc n) w =
     (let (r, w1) = udp_open w; (rs, w2) = open_many n w1 in (r # rs, w2))"

definition nth_socket :: "nat \<Rightarrow> UdpSocket expected result" where
  "nth_socket i = Inr (Inr \<lparr>sock_id = int i, sock_pcbId = int i\<rparr>)"

lemma open_many_free:
  assumes "first_n_open n (udpPcbs w)" "n + k \<le> length (udpPcbs w)"
  shows "fst (open_many k w) = map nth_socket [n..<n + k] \<and>
         first_n_open (n + k) (udpPcbs (snd (open_many k w))) \<and>
         length (udpPcbs (snd (open_many k w))) = length (udpPcbs w)"
  using assms
proof (induction k arbitrary: n w)
  case 0
  then show ?case by simp
next
  case (Suc k)
  let ?w = "w\<lparr>udpPcbs := snd (pcb_alloc (udpPcbs w))\<rparr>"
  have "n < length (udpPcbs w)" using Suc.prems by simp
  then have "udp_open w = (nth_socket n, ?w)" "first_n_open (Suc n) (udpPcbs ?w)"
    using udp_open_counter(1) [OF Suc.prems(1)] by (simp_all add: nth_socket_def)
  moreover have "[n..<n + Suc k] = n # [Suc n..<Suc n + k]" by (simp add: upt_conv_Cons)
  ultimately show ?case
    using Suc.IH [of "Suc n" ?w] Suc.prems(2) by (simp add: split_beta)
qed

lemma open_many_append:
  "open_many (m + n) w =
     (let (rs, w1) = open_many m w; (ss, w2) = open_many n w1 in (rs @ ss, w2))"
  by (induction m arbitrary: w) (simp_all add: split_beta Let_def)

lemma open_many_full:
  assumes "first_n_open (length (udpPcbs w)) (udpPcbs w)"
  shows "open_many k w = (replicate k (Inr (Inl (-1))), w)"
  using udp_open_counter(2) [OF assms] by (induction k) simp_all

section \<open>Binding\<close>

definition socket_block :: "UdpSocket \<Rightarrow> world \<Rightarrow> nat \<Rightarrow> bool" where
  "socket_block sock w i \<longleftrightarrow> sock_pcbId sock = int i \<and> i < length (udpPcbs w) \<and> state (udpPcbs w ! i) = OPEN"

lemma socket_block_get: "socket_block sock w i \<Longrightarrow> pcb_get (udpPcbs w) (sock_pcbId sock) = Inr i"
  by (simp add: socket_block_def pcb_get_def)

lemma socket_block_state: "socket_block sock w i \<Longrightarrow> state (udpPcbs w ! i) = OPEN"
  by (simp add: socket_block_def)

lemma socket_block_open: "socket_block sock w i \<Longrightarrow> open_endpoint (udpPcbs w) i = Some (endpoint (udpPcbs w ! i))"
  by (simp add: socket_block_def open_endpoint_def)

lemma udp_bind_free:
  assumes "Ipv4strToUint32 s = Inr a" "socket_block sock w i" "pcb_select (udpPcbs w) a p = None"
  shows "udp_bind sock s p w = (Inr (Inr 0), w\<lparr>udpPcbs := pcb_set_endpoint (udpPcbs w) i \<lparr>addr = a, port = p\<rparr>\<rparr>)"
  using assms by (simp add: udp_bind_def socket_block_get bindM_apply)

lemma udp_bind_selected:
  assumes "socket_block sock w i" "pcb_select (udpPcbs w) a p = None"
  shows "pcb_select (pcb_set_endpoint (udpPcbs w) i \<lparr>addr = a, port = p\<rparr>) a p = Some i"
  using pcb.rebind_selected [of "udpPcbs w" i "\<lparr>addr = a, port = p\<rparr>"] assms socket_block_open by simp

lemma udp_bind_taken:
  assumes "Ipv4strToUint32 s = Inr a" "pcb_select (udpPcbs w) a p = Some j"
  shows "udp_bind sock s p w = (Inr (Inl (-1)), w)"
  using assms by (simp add: udp_bind_def)

section \<open>Sending\<close>

lemma udp_output_layout:
  assumes "even (length data)" "length data \<le> 65527"
  shows "udp_output s d data = ipv4_output UDP_TYPE (udp_layout (udp_out_header s d data) data) (addr s) (addr d)"
  using assms by (simp add: udp_output_def udp_message_layout)

lemma sendTo_bound:
  assumes "Ipv4strToUint32 s = Inr a" "socket_block sock w i"
    and "addr (endpoint (udpPcbs w ! i)) \<noteq> IP_ADDR_ANY" "port (endpoint (udpPcbs w ! i)) \<noteq> 0"
  shows "sendTo sock payload s p w = udp_output (endpoint (udpPcbs w ! i)) \<lparr>addr = a, port = ucast p\<rparr> payload w"
proof -
  show ?thesis
    using assms
    by (simp add: sendTo_def Let_def socket_block_get bindM_apply assign_port_def socket_block_state)
qed

text \<open>
  A socket that was never bound: the address is that of the route's interface, and a port of the
  dynamic range that no block uses on this address is bound to the block before the datagram leaves.
\<close>

lemma sendTo_unbound:
  assumes "Ipv4strToUint32 s = Inr a" "socket_block sock w i" "length (udpPcbs w) < 25952"
    and "endpoint (udpPcbs w ! i) = \<lparr>addr = IP_ADDR_ANY, port = 0\<rparr>"
    and "routeTable w = route # rs"
  obtains k where "k \<le> length (udpPcbs w)"
    "pcb_select (udpPcbs w) (unicast (route_interface route)) (SOURCE_PORT_MIN + of_nat k) = None"
    "sendTo sock payload s p w =
       udp_output \<lparr>addr = unicast (route_interface route), port = SOURCE_PORT_MIN + of_nat k\<rparr>
         \<lparr>addr = a, port = ucast p\<rparr> payload
         (w\<lparr>udpPcbs := pcb_set_endpoint (udpPcbs w) i \<lparr>addr = IP_ADDR_ANY, port = SOURCE_PORT_MIN + of_nat k\<rparr>\<rparr>)"
proof -
  let ?u = "unicast (route_interface route)"
  obtain k where k: "k \<le> length (udpPcbs w)" "pcb_select (udpPcbs w) ?u (SOURCE_PORT_MIN + of_nat k) = None"
    "port_loop (udpPcbs w) ?u SOURCE_PORT_MIN = Some (Some (SOURCE_PORT_MIN + of_nat k))"
    using port_loop_terminates [OF assms(3)] by blast
  let ?p = "SOURCE_PORT_MIN + of_nat k :: u16"
  have "unat ?p \<noteq> 0" using k(1) assms(3) source_port_value [of k] by linarith
  then have nz: "?p \<noteq> 0" by (metis unat_0)
  let ?v = "w\<lparr>udpPcbs := pcb_set_endpoint (udpPcbs w) i \<lparr>addr = IP_ADDR_ANY, port = ?p\<rparr>\<rparr>"
  have i: "i < length (udpPcbs w)" using assms(2) by (simp add: socket_block_def)
  have ep: "endpoint (udpPcbs ?v ! i) = \<lparr>addr = IP_ADDR_ANY, port = ?p\<rparr>"
    using i by (simp add: pcb_set_endpoint_def)
  have "assign_port i ?u w = (Inr (), ?v)"
    using k(3) nz ep assms(4) by (simp add: assign_port_def)
  then have "sendTo sock payload s p w = udp_output \<lparr>addr = ?u, port = ?p\<rparr> \<lparr>addr = a, port = ucast p\<rparr> payload ?v"
    using assms ep
    by (simp add: sendTo_def Let_def socket_block_get bindM_peek bindM_assoc socket_block_state bindM_Inr)
  with k show thesis using that by blast
qed

section \<open>Receiving\<close>

text \<open>
  A datagram at the front of the queue is copied to the front of the buffer.  This takes what the
  code reads after the pop to be what was there before.
\<close>

lemma recvFrom_front:
  assumes "socket_block sock w i" "que (udpPcbs w ! i) = pl # rest" "interrupted (udpPcbs w ! i) = 0"
    and "length (pl_data pl) \<le> length buf" "stale pl = pl"
  shows "recvFrom stale sock buf a p w =
    Some (Inr \<lparr>r_len = int (length (pl_data pl)), r_buf = pl_data pl @ drop (length (pl_data pl)) buf,
            r_ipv4 = addr (pl_endpoint pl), r_port = port (pl_endpoint pl)\<rparr>,
          w\<lparr>udpPcbs := pcb_pop (udpPcbs w) i\<rparr>)"
  using assms by (simp add: recvFrom_def socket_block_get copy_into_def Let_def)

lemma recvFrom_overflow:
  assumes "socket_block sock w i" "que (udpPcbs w ! i) = pl # rest" "interrupted (udpPcbs w ! i) = 0"
    and "length buf < length (pl_data pl)"
  shows "recvFrom stale sock buf a p w = Some (Inl (Undefined OutOfBounds), w)"
  using assms by (simp add: recvFrom_def socket_block_get copy_into_def Let_def)

lemma recvFrom_interrupted:
  assumes "socket_block sock w i" "interrupted (udpPcbs w ! i) = 1"
  shows "recvFrom stale sock buf a p w = Some (Inr \<lparr>r_len = -1, r_buf = buf, r_ipv4 = a, r_port = p\<rparr>, w)"
  using assms by (simp add: recvFrom_def socket_block_get Let_def)

lemma recvFrom_waits_iff:
  assumes "socket_block sock w i"
  shows "recvFrom stale sock buf a p w = None \<longleftrightarrow>
    que (udpPcbs w ! i) = [] \<and> interrupted (udpPcbs w ! i) \<noteq> 1"
  using assms by (auto simp: recvFrom_def socket_block_get Let_def split: sum.split)

section \<open>Invariants of the table\<close>

text \<open>
  Two open blocks never have the same address and port, and allocation is a counter.  Every
  operation on the table keeps both; the proofs follow the structure of the operations.
\<close>

definition table_ok :: "pcb_table \<Rightarrow> bool" where
  "table_ok pcbs \<longleftrightarrow> pcb.unique_endpoints pcbs \<and> (\<exists>n. first_n_open n pcbs)"

lemma table_ok_new: "table_ok (UdpPcbManager_new g)"
proof -
  have "open_endpoint (UdpPcbManager_new g) i = None" for i
    by (simp add: open_endpoint_def UdpPcbManager_new_def UdpControlBlock_new_def)
  then have "pcb.unique_endpoints (UdpPcbManager_new g)" by (simp add: pcb.unique_endpoints_def)
  then show ?thesis using first_n_open_new unfolding table_ok_def by blast
qed

lemma table_ok_alloc: "table_ok pcbs \<Longrightarrow> table_ok (snd (pcb_alloc pcbs))"
proof -
  assume ok: "table_ok pcbs"
  then obtain n where n: "first_n_open n pcbs" by (auto simp: table_ok_def)
  have "n \<le> length pcbs" using n by (simp add: first_n_open_def)
  then have "\<exists>m. first_n_open m (snd (pcb_alloc pcbs))"
    using alloc_counter [OF n] n by (cases "n < length pcbs") auto
  with ok show ?thesis by (simp add: table_ok_def alloc_unique)
qed

lemma table_ok_updates:
  assumes "table_ok pcbs"
  shows "table_ok (pcb_push pcbs i pl)" "table_ok (pcb_pop pcbs i)" "table_ok (interruptAll pcbs)"
  using assms first_n_open_updates unfolding table_ok_def unique_frame by blast+

lemma closed_endpoint_frame:
  "open_endpoint pcbs i = None \<Longrightarrow> open_endpoint (pcb_set_endpoint pcbs i e) = open_endpoint pcbs"
  by (auto simp: open_endpoint_def pcb_set_endpoint_def fun_eq_iff nth_update_in split: if_splits)

lemma table_ok_set_endpoint:
  assumes "table_ok pcbs" "pcb_select pcbs (addr e) (port e) = None"
  shows "table_ok (pcb_set_endpoint pcbs i e)"
proof -
  have "pcb.unique_endpoints (pcb_set_endpoint pcbs i e)"
  proof (cases "open_endpoint pcbs i")
    case None
    then show ?thesis using assms(1) by (simp add: table_ok_def pcb.unique_endpoints_def closed_endpoint_frame)
  next
    case (Some e')
    then show ?thesis using assms by (intro pcb.rebind_unique) (auto simp: table_ok_def)
  qed
  then show ?thesis using assms(1) first_n_open_updates(1) unfolding table_ok_def by blast
qed

text \<open>
  The interface of the table to the socket operations: an assertion that survives the updates they
  make, endpoints being set only to free ones.  Each operation then keeps it.
\<close>

lemma select_None_any: "pcb_select pcbs a p = None \<Longrightarrow> pcb_select pcbs IP_ADDR_ANY p = None"
  by (auto simp: pcb_select_None_iff matches_def)

lemma port_loop_sound:
  assumes "port_loop pcbs a p = Some (Some q)"
  shows "pcb_select pcbs a q = None"
proof -
  have "\<forall>q. r = Some q \<longrightarrow> pcb_select pcbs a q = None" if ret: "port_loop pcbs a p = Some r" for r
  proof (rule port_loop.raw_induct [where P = "\<lambda>pcbs a p r. \<forall>q. r = Some q \<longrightarrow> pcb_select pcbs a q = None",
          OF _ ret])
  qed (auto split: if_splits option.splits)
  with assms show ?thesis by blast
qed

locale table_invariant =
  fixes T :: "pcb_table \<Rightarrow> bool"
  assumes alloc: "T pcbs \<Longrightarrow> T (snd (pcb_alloc pcbs))"
    and push: "T pcbs \<Longrightarrow> T (pcb_push pcbs i pl)"
    and pop: "T pcbs \<Longrightarrow> T (pcb_pop pcbs i)"
    and interrupt: "T pcbs \<Longrightarrow> T (interruptAll pcbs)"
    and rebind: "T pcbs \<Longrightarrow> pcb_select pcbs (addr e) (port e) = None \<Longrightarrow> T (pcb_set_endpoint pcbs i e)"
begin

definition holds :: "world \<Rightarrow> bool" where
  "holds w \<longleftrightarrow> T (udpPcbs w)"

lemma open_keeps: "keeps holds udp_open"
  using alloc by (auto intro!: keepsI simp: udp_open_def holds_def split_beta split: option.split)

lemma bind_keeps: "keeps holds (udp_bind sock s p)"
proof (rule keepsI)
  fix w assume w: "holds w"
  have "pcb_select (udpPcbs w) a p = None \<Longrightarrow> T (pcb_set_endpoint (udpPcbs w) i \<lparr>addr = a, port = p\<rparr>)" for a i
    using rebind [of "udpPcbs w" "\<lparr>addr = a, port = p\<rparr>"] w by (simp add: holds_def)
  with w show "holds (snd (udp_bind sock s p w))"
    by (simp add: udp_bind_def bindM_liftM_apply bindM_apply holds_def split: sum.split option.split)
qed

lemma assign_port_keeps:
  assumes "holds w" "local = addr (endpoint (udpPcbs w ! i)) \<or> addr (endpoint (udpPcbs w ! i)) = IP_ADDR_ANY"
  shows "holds (snd (assign_port i local w))"
proof -
  let ?e = "endpoint (udpPcbs w ! i)"
  have "T (pcb_set_endpoint (udpPcbs w) i (?e\<lparr>port := q\<rparr>))"
    if "port_loop (udpPcbs w) local SOURCE_PORT_MIN = Some (Some q)" for q
  proof (rule rebind)
    show "T (udpPcbs w)" using assms(1) by (simp add: holds_def)
    have "pcb_select (udpPcbs w) local q = None" using that by (rule port_loop_sound)
    then show "pcb_select (udpPcbs w) (addr (?e\<lparr>port := q\<rparr>)) (port (?e\<lparr>port := q\<rparr>)) = None"
      using assms(2) select_None_any by auto
  qed
  with assms(1) show ?thesis
    by (auto simp: assign_port_def holds_def Let_def split: option.split)
qed

lemma output_keeps: "keeps holds (udp_output s d data)"
  unfolding udp_output_def by (intro frame_intros) (simp_all add: holds_def)

lemma sendTo_keeps: "keeps holds (sendTo sock payload s p)"
proof (rule keepsI)
  fix w assume w: "holds w"
  show "holds (snd (sendTo sock payload s p w))"
  proof (cases "Ipv4strToUint32 s")
    case ip: (Inr a)
    show ?thesis
    proof (cases "pcb_get (udpPcbs w) (sock_pcbId sock)")
      case i: (Inr i)
      have out: "holds (snd (bindM (assign_port i local) (\<lambda>_. bindM (getM (\<lambda>w. port (endpoint (udpPcbs w ! i))))
            (\<lambda>localPort. udp_output \<lparr>addr = local, port = localPort\<rparr> t payload)) w))"
        if "local = addr (endpoint (udpPcbs w ! i)) \<or> addr (endpoint (udpPcbs w ! i)) = IP_ADDR_ANY" for local t
        using assign_port_keeps [OF w that] keepsD [OF output_keeps]
        by (auto simp: bindM_apply split: sum.split prod.split)
      show ?thesis
        using w ip i out
        by (auto simp: sendTo_def Let_def bindM_peek bindM_assoc split: sum.split)
    qed (use w ip in \<open>simp add: sendTo_def bindM_apply\<close>)
  qed (use w in \<open>simp add: sendTo_def\<close>)
qed

lemma handle_keeps: "keeps holds (udp_handle pd)"
  using push by (intro frame_intros) (simp add: holds_def)

lemma event_keeps: "keeps holds udp_event_handle"
  using interrupt by (intro frame_intros) (simp add: holds_def)

lemma recv_keeps: "holds w \<Longrightarrow> recvFrom stale sock buf a p w = Some (r, w') \<Longrightarrow> holds w'"
  using pop by (auto simp: recvFrom_def holds_def Let_def split: sum.splits if_splits)

end

interpretation table: table_invariant table_ok
  by unfold_locales (auto intro: table_ok_alloc table_ok_updates table_ok_set_endpoint)

lemma states_advance_refl: "states_advance pcbs pcbs"
  by (simp add: states_advance_def)

lemma states_advance_trans: "states_advance a b \<Longrightarrow> states_advance b c \<Longrightarrow> states_advance a c"
  unfolding states_advance_def by (metis order.trans)

interpretation advance: table_invariant "states_advance old" for old
  by unfold_locales (blast intro: states_advance_trans states_advance_ops)+

section \<open>Properties\<close>

text \<open>
  A new table yields exactly one hundred sockets, numbered from 0, and refuses every further
  one without changing anything.
\<close>

theorem hundred_sockets:
  assumes "udpPcbs w = UdpPcbManager_new g"
  shows "fst (open_many (100 + k) w) = map nth_socket [0..<100] @ replicate k (Inr (Inl (-1)))"
proof -
  have len: "length (udpPcbs w) = 100" using assms by (simp add: UdpPcbManager_new_def)
  obtain rs w1 where first: "open_many 100 w = (rs, w1)" by (cases "open_many 100 w")
  have "first_n_open 0 (udpPcbs w)" using assms first_n_open_new by simp
  from open_many_free [OF this, of 100] len first
  have rs: "rs = map nth_socket [0..<100]" and full: "first_n_open (length (udpPcbs w1)) (udpPcbs w1)" by simp_all
  show ?thesis
    unfolding open_many_append [of 100 k] first by (simp add: open_many_full [OF full] rs)
qed

theorem hundred_sockets_witness:
  "fst (open_many (100 + 1) (pcb_world\<lparr>udpPcbs := UdpPcbManager_new \<lparr>addr = 7, port = 7\<rparr>\<rparr>)) =
     map nth_socket [0..<100] @ replicate 1 (Inr (Inl (-1)))"
  by (rule hundred_sockets [where g = "\<lparr>addr = 7, port = 7\<rparr>"]) simp

text \<open>
  C16. \<open>bind\<close> takes an endpoint that nothing is bound to, after which looking the endpoint up finds
  this socket's block and no other block has changed; an endpoint in use, by itself or through the
  wildcard address, is refused.
\<close>

theorem bind_outcomes:
  assumes "Ipv4strToUint32 s = Inr a" "socket_block sock w i"
  shows "case pcb_select (udpPcbs w) a p of
      Some j \<Rightarrow> udp_bind sock s p w = (Inr (Inl (-1)), w)
    | None \<Rightarrow> \<exists>pcbs. udp_bind sock s p w = (Inr (Inr 0), w\<lparr>udpPcbs := pcbs\<rparr>) \<and> pcb_select pcbs a p = Some i \<and>
        endpoint (pcbs ! i) = \<lparr>addr = a, port = p\<rparr> \<and> (\<forall>j. j \<noteq> i \<longrightarrow> pcbs ! j = udpPcbs w ! j)"
proof (cases "pcb_select (udpPcbs w) a p")
  case None
  have "i < length (udpPcbs w)" using assms(2) by (simp add: socket_block_def)
  then show ?thesis
    using None udp_bind_free [OF assms None] udp_bind_selected [OF assms(2) None]
    by (auto intro!: exI [of _ "pcb_set_endpoint (udpPcbs w) i \<lparr>addr = a, port = p\<rparr>"] simp: pcb_set_endpoint_def)
next
  case (Some j)
  then show ?thesis using udp_bind_taken [OF assms(1) Some] by simp
qed

definition first_socket :: UdpSocket where "first_socket = \<lparr>sock_id = 0, sock_pcbId = 0\<rparr>"

lemma first_socket_block: "socket_block first_socket pcb_world 0"
  by (simp add: socket_block_def first_socket_def pcb_world_def two_blocks_def opened_def)

theorem bind_outcomes_witness:
  "udp_bind first_socket (Uint32ToIpv4str 0xC0000202) 5555 pcb_world = (Inr (Inl (-1)), pcb_world) \<and>
   (\<exists>pcbs. udp_bind first_socket (Uint32ToIpv4str 0xC0000202) 8080 pcb_world = (Inr (Inr 0), pcb_world\<lparr>udpPcbs := pcbs\<rparr>) \<and>
      pcb_select pcbs 0xC0000202 8080 = Some 0)"
proof -
  have "pcb_select (udpPcbs pcb_world) 0xC0000202 5555 = Some 1" "pcb_select (udpPcbs pcb_world) 0xC0000202 8080 = None"
    by (simp_all add: pcb_world_def pcb_select_def two_blocks_def matches_def opened_def UdpControlBlock_new_def)
  then show ?thesis
    using bind_outcomes [OF ipv4_text_inverse first_socket_block, of "0xC0000202" 5555]
      bind_outcomes [OF ipv4_text_inverse first_socket_block, of "0xC0000202" 8080]
    by auto
qed

text \<open>
  C18. Sending from a socket that was never bound: the datagram's source is the address of the
  route's interface and a port of the dynamic range that is free on it, and the port, not the
  address, is bound to the block.
\<close>

theorem unbound_send_assigns_port:
  assumes "Ipv4strToUint32 s = Inr a" "socket_block sock w i" "length (udpPcbs w) < 25952"
    and "endpoint (udpPcbs w ! i) = \<lparr>addr = IP_ADDR_ANY, port = 0\<rparr>" "routeTable w = route # rs"
  shows "\<exists>q. 39584 \<le> unat q \<and> pcb_select (udpPcbs w) (unicast (route_interface route)) q = None \<and>
    sendTo sock payload s p w =
      udp_output \<lparr>addr = unicast (route_interface route), port = q\<rparr> \<lparr>addr = a, port = ucast p\<rparr> payload
        (w\<lparr>udpPcbs := pcb_set_endpoint (udpPcbs w) i \<lparr>addr = IP_ADDR_ANY, port = q\<rparr>\<rparr>)"
proof -
  obtain k where k: "k \<le> length (udpPcbs w)"
    "pcb_select (udpPcbs w) (unicast (route_interface route)) (SOURCE_PORT_MIN + of_nat k) = None"
    "sendTo sock payload s p w =
       udp_output \<lparr>addr = unicast (route_interface route), port = SOURCE_PORT_MIN + of_nat k\<rparr>
         \<lparr>addr = a, port = ucast p\<rparr> payload
         (w\<lparr>udpPcbs := pcb_set_endpoint (udpPcbs w) i \<lparr>addr = IP_ADDR_ANY, port = SOURCE_PORT_MIN + of_nat k\<rparr>\<rparr>)"
    using assms by (rule sendTo_unbound)
  moreover have "39584 \<le> unat (SOURCE_PORT_MIN + of_nat k :: u16)"
    using source_port_value [of k] k(1) assms(3) by simp
  ultimately show ?thesis by blast
qed

theorem unbound_send_assigns_port_witness:
  "\<exists>q. 39584 \<le> unat q \<and> sendTo first_socket [1, 2] (Uint32ToIpv4str 0xC0000201) 53 pcb_world =
     udp_output \<lparr>addr = unicast one_iface, port = q\<rparr> \<lparr>addr = 0xC0000201, port = 53\<rparr> [1, 2]
       (pcb_world\<lparr>udpPcbs := pcb_set_endpoint two_blocks 0 \<lparr>addr = IP_ADDR_ANY, port = q\<rparr>\<rparr>)"
proof -
  have "routeTable pcb_world = [one_route]" "udpPcbs pcb_world = two_blocks"
    by (simp_all add: pcb_world_def route_world_def)
  then show ?thesis
    using unbound_send_assigns_port [OF ipv4_text_inverse first_socket_block, of one_route "[]" "[1, 2]" "0xC0000201" 53]
    by (auto simp: two_blocks_def opened_def one_route_def)
qed

text \<open>Receives in a row, until one waits or fails.\<close>

fun receive_many :: "nat \<Rightarrow> UdpSocket \<Rightarrow> bytes \<Rightarrow> world \<Rightarrow> recv_out list \<times> world" where
  "receive_many 0 sock buf w = ([], w)"
| "receive_many (Suc n) sock buf w =
     (case recvFrom (\<lambda>pl. pl) sock buf 0 0 w of
        Some (Inr out, w1) \<Rightarrow> (let (outs, w2) = receive_many n sock buf w1 in (out # outs, w2))
      | _ \<Rightarrow> ([], w))"

definition out_of :: "bytes \<Rightarrow> UdpPcbPayload \<Rightarrow> recv_out" where
  "out_of buf pl = \<lparr>r_len = int (length (pl_data pl)), r_buf = pl_data pl @ drop (length (pl_data pl)) buf,
     r_ipv4 = addr (pl_endpoint pl), r_port = port (pl_endpoint pl)\<rparr>"

lemma receive_queue:
  assumes "socket_block sock w i" "que (udpPcbs w ! i) = q" "interrupted (udpPcbs w ! i) = 0"
    and "\<forall>pl \<in> set q. length (pl_data pl) \<le> length buf"
  shows "fst (receive_many (length q) sock buf w) = map (out_of buf) q \<and>
    recvFrom (\<lambda>pl. pl) sock buf 0 0 (snd (receive_many (length q) sock buf w)) = None"
  using assms
proof (induction q arbitrary: w)
  case Nil
  then show ?case using recvFrom_waits_iff [of sock w i "\<lambda>pl. pl" buf 0 0] by simp
next
  case (Cons pl q)
  let ?w = "w\<lparr>udpPcbs := pcb_pop (udpPcbs w) i\<rparr>"
  have "i < length (udpPcbs w)" using Cons.prems(1) by (simp add: socket_block_def)
  then have "socket_block sock ?w i" "que (udpPcbs ?w ! i) = q" "interrupted (udpPcbs ?w ! i) = 0"
    using Cons.prems by (simp_all add: socket_block_def pcb_pop_def)
  moreover have "recvFrom (\<lambda>pl. pl) sock buf 0 0 w = Some (Inr (out_of buf pl), ?w)"
    using recvFrom_front [OF Cons.prems(1-3), of buf "\<lambda>pl. pl" 0 0] Cons.prems(4) by (simp add: out_of_def)
  ultimately show ?case using Cons.IH [of ?w] Cons.prems(4) by (simp add: split_beta)
qed



end
