(* ===== verification/InterruptThread.thy ===== *)
theory InterruptThread
  imports Interrupt UdpSockets
begin

unbundle bit_operations_syntax

text \<open>
  The signal loop of lib/Interrupt.h as a step relation on the whole system: the interrupt thread,
  the frames the kernel has for it, and what other threads and processes do in between.
\<close>

section \<open>The interrupt object\<close>

record Interrupt =
  sigmask :: "signal set"
  inputDevices :: "nat list"

definition Interrupt_init :: Interrupt where
  "Interrupt_init = \<lparr>sigmask = {SIGHUP, SIGUSR1, SIGUSR2}, inputDevices = []\<rparr>"

definition addDevice :: "Interrupt \<Rightarrow> world \<Rightarrow> nat \<Rightarrow> Interrupt" where
  "addDevice intr w p =
     \<lparr>sigmask = insert (getIrq (devices w ! p)) (sigmask intr), inputDevices = inputDevices intr @ [p]\<rparr>"

text \<open>
  \<open>run\<close> up to the creation of the thread: the description of every device is printed, and the signals
  are blocked; \<open>err\<close> is what \<open>pthread_sigmask\<close> returned.
\<close>

fun info_loop :: "nat list \<Rightarrow> (world, unit) eff" where
  "info_loop [] = retM ()"
| "info_loop (p # ps) =
     bindM (\<lambda>w. (deref_device (Some p) w, w)) (\<lambda>d.
     bindM (liftM (EtherDevice_getInfo d)) (\<lambda>_.
     info_loop ps))"

definition Interrupt_run :: "int \<Rightarrow> string \<Rightarrow> Interrupt \<Rightarrow> (world, unit) eff" where
  "Interrupt_run err strerror intr =
     bindM (info_loop (inputDevices intr)) (\<lambda>_.
     if err \<noteq> 0 then throwM (RuntimeError (''erropthread_sigmask '' @ strerror)) else retM ())"

section \<open>Signal handlers\<close>

fun run_event :: "EventHandler \<Rightarrow> (world, int) eff" where
  "run_event UdpEventHandler = udp_event_handle"

fun event_loop :: "EventHandler list \<Rightarrow> (world, unit) eff" where
  "event_loop [] = retM ()"
| "event_loop (e # es) = bindM (run_event e) (\<lambda>_. event_loop es)"

definition handleEventSignal :: "(world, int) eff" where
  "handleEventSignal =
     bindM (getM eventHandlers) (\<lambda>es. bindM (event_loop es) (\<lambda>_. retM 0))"

text \<open>
  Per device, the results of the successive calls of \<open>read\<close>; a call with none left blocks.
\<close>

type_synonym reads = "nat \<Rightarrow> bytes option list"

definition on_world :: "(world, 'a) eff \<Rightarrow> (world \<times> reads, 'a) eff" where
  "on_world m = (\<lambda>(w, rx). case m w of (r, w') \<Rightarrow> (r, (w', rx)))"

definition read_device :: "nat \<Rightarrow> (world \<times> reads, bytes option) eff" where
  "read_device k = (\<lambda>(w, rx). case rx k of
     [] \<Rightarrow> (Inl Hang, (w, rx))
   | rd # rest \<Rightarrow> (Inr (map_option (take 1514) rd), (w, rx(k := rest))))"

fun signal_loop :: "nat list \<Rightarrow> signal \<Rightarrow> (world \<times> reads, unit) eff" where
  "signal_loop [] sg = retM ()"
| "signal_loop (p # ps) sg =
     bindM (on_world (\<lambda>w. (deref_device (Some p) w, w))) (\<lambda>d.
     if getIrq d = sg then
       bindM (liftM (EtherDevice_getInfo d)) (\<lambda>_.
       bindM (read_device p) (\<lambda>rd.
       bindM (on_world (EtherDevice_handler d rd)) (\<lambda>_.
       signal_loop ps sg)))
     else signal_loop ps sg)"

definition handleSignal :: "Interrupt \<Rightarrow> signal \<Rightarrow> (world \<times> reads, unit) eff" where
  "handleSignal intr sg = signal_loop (inputDevices intr) sg"

text \<open>The body of the loop of \<open>interruptThread\<close>: the result is the new value of \<open>terminate\<close>.\<close>

fun dispatch :: "Interrupt \<Rightarrow> signal \<Rightarrow> (world \<times> reads, bool) eff" where
  "dispatch intr SIGHUP = retM True"
| "dispatch intr SIGUSR1 = bindM (on_world handleProtocolSignal) (\<lambda>_. retM False)"
| "dispatch intr SIGUSR2 = bindM (on_world handleEventSignal) (\<lambda>_. retM False)"
| "dispatch intr (SIGRT n) = bindM (handleSignal intr (SIGRT n)) (\<lambda>_. retM False)"

section \<open>The system\<close>

text \<open>
  An exception that leaves the thread's function ends the program (\<open>std::terminate\<close>), and so does
  undefined behaviour as far as anything can be said: no step leaves \<open>Crashed\<close>.
\<close>

datatype thread_state = Waiting | Exited | Crashed error

record system =
  sys_world :: world
  sys_rx :: reads
  sys_thread :: thread_state

fun after_dispatch :: "bool result \<Rightarrow> thread_state" where
  "after_dispatch (Inl e) = Crashed e"
| "after_dispatch (Inr True) = Exited"
| "after_dispatch (Inr False) = Waiting"

definition take_signal :: "signal \<Rightarrow> world \<Rightarrow> world" where
  "take_signal sg w = w\<lparr>pending := remove1 sg (pending w)\<rparr>"

text \<open>What other threads do to the sockets, one call at a time.\<close>

inductive socket_call :: "world \<Rightarrow> world \<Rightarrow> bool" where
  open_call: "udp_open w = (r, w') \<Longrightarrow> socket_call w w'"
| bind_call: "udp_bind sock s p w = (r, w') \<Longrightarrow> socket_call w w'"
| send_call: "sendTo sock payload s q w = (r, w') \<Longrightarrow> socket_call w w'"
| recv_call: "recvFrom stale sock buf a p w = Some (r, w') \<Longrightarrow> socket_call w w'"

text \<open>The kernel has a frame (or a failed read) for device \<open>k\<close> and sends the device's signal.\<close>

definition arrival :: "nat \<Rightarrow> bytes option \<Rightarrow> system \<Rightarrow> system" where
  "arrival k rd s = s\<lparr>sys_rx := (sys_rx s)(k := sys_rx s k @ [rd]),
     sys_world := (sys_world s)\<lparr>pending := raise_signal ETHER_TAN_IRQ (pending (sys_world s))\<rparr>\<rparr>"

inductive step :: "Interrupt \<Rightarrow> system \<Rightarrow> system \<Rightarrow> bool" for intr where
  wake: "sys_thread s = Waiting \<Longrightarrow> sg \<in> set (pending (sys_world s)) \<Longrightarrow> sg \<in> sigmask intr \<Longrightarrow>
    dispatch intr sg (take_signal sg (sys_world s), sys_rx s) = (r, (w', rx')) \<Longrightarrow>
    step intr s \<lparr>sys_world = w', sys_rx = rx', sys_thread = after_dispatch r\<rparr>"
| frame: "sys_thread s = Waiting \<or> sys_thread s = Exited \<Longrightarrow>
    step intr s (arrival k rd s)"
| signal: "sys_thread s = Waiting \<or> sys_thread s = Exited \<Longrightarrow> sg = SIGHUP \<or> sg = SIGUSR2 \<Longrightarrow>
    step intr s (s\<lparr>sys_world := (sys_world s)\<lparr>pending := raise_signal sg (pending (sys_world s))\<rparr>\<rparr>)"
| socket: "sys_thread s = Waiting \<or> sys_thread s = Exited \<Longrightarrow> socket_call (sys_world s) w' \<Longrightarrow>
    step intr s (s\<lparr>sys_world := w'\<rparr>)"

inductive_cases stepE: "step intr s t"
inductive_cases socket_callE: "socket_call w w'"
inductive_simps step_crashed_simps: "step intr (s\<lparr>sys_thread := Crashed e\<rparr>) t"

lemma crashed_stuck: "sys_thread s = Crashed e \<Longrightarrow> \<not> step intr s t"
  by (auto elim: stepE)

inductive reachable :: "Interrupt \<Rightarrow> system \<Rightarrow> system \<Rightarrow> bool" for intr s0 where
  start: "reachable intr s0 s0"
| next_step: "reachable intr s0 s \<Longrightarrow> step intr s t \<Longrightarrow> reachable intr s0 t"

section \<open>What the calls leave alone\<close>

text \<open>Socket calls change the control blocks, the identification counter and the written frames.\<close>

definition quiet :: "(world \<Rightarrow> bool) \<Rightarrow> bool" where
  "quiet I \<longleftrightarrow> (\<forall>w x. I w \<longrightarrow> I (w\<lparr>written := x\<rparr>)) \<and> (\<forall>w x. I w \<longrightarrow> I (w\<lparr>ipGenId := x\<rparr>)) \<and>
     (\<forall>w x. I w \<longrightarrow> I (w\<lparr>udpPcbs := x\<rparr>))"

lemma quiet_open: "quiet I \<Longrightarrow> keeps I udp_open"
  by (auto intro!: keepsI simp: udp_open_def split_beta quiet_def split: option.split)

lemma quiet_bind: "quiet I \<Longrightarrow> keeps I (udp_bind sock s p)"
  unfolding udp_bind_def by (intro frame_intros) (simp_all add: quiet_def keeps_def)

lemma quiet_assign: "quiet I \<Longrightarrow> keeps I (assign_port i a)"
  by (auto intro!: keepsI simp: assign_port_def quiet_def Let_def split: option.split)

lemma quiet_send: "quiet I \<Longrightarrow> keeps I (sendTo sock payload s q)"
  unfolding sendTo_def udp_output_def Let_def
  by (intro frame_intros quiet_assign) (simp_all add: quiet_def keeps_def)

lemma quiet_recv: "quiet I \<Longrightarrow> I w \<Longrightarrow> recvFrom stale sock buf a p w = Some (r, w') \<Longrightarrow> I w'"
  by (auto simp: recvFrom_def quiet_def Let_def split: sum.splits if_splits)

lemma quiet_socket_call: "quiet I \<Longrightarrow> socket_call w w' \<Longrightarrow> I w \<Longrightarrow> I w'"
  by (erule socket_callE)
    (auto dest: quiet_open quiet_bind quiet_send quiet_recv intro: keepsD')

lemma socket_call_frame:
  assumes "socket_call w w'"
  shows "protocolQueues w' = protocolQueues w" "pending w' = pending w" "config w' = config w"
    "arpCache w' = arpCache w"
proof -
  have "quiet (\<lambda>v. protocolQueues v = protocolQueues w \<and> pending v = pending w \<and> config v = config w \<and>
      arpCache v = arpCache w)"
    by (simp add: quiet_def config_def)
  from quiet_socket_call [OF this assms] show "protocolQueues w' = protocolQueues w" "pending w' = pending w"
    "config w' = config w" "arpCache w' = arpCache w" by simp_all
qed

lemma event_loop_frame:
  "protocolQueues (snd (event_loop es w)) = protocolQueues w \<and> pending (snd (event_loop es w)) = pending w \<and>
   config (snd (event_loop es w)) = config w"
proof (induction es arbitrary: w)
  case (Cons e es)
  then show ?case by (cases e) (simp add: udp_event_handle_def config_def bindM_def)
qed simp

section \<open>Draining leaves nothing behind\<close>

lemma drain_queue_frame:
  assumes "drain_queue type w = (r, w')"
  shows "map fst (protocolQueues w') = map fst (protocolQueues w) \<and> pending w' = pending w \<and> config w' = config w \<and>
    (\<forall>t. t \<noteq> type \<longrightarrow> queue_of t w' = queue_of t w) \<and> (r = Inr () \<longrightarrow> queue_of type w' = [])"
  using assms
proof (induction "length (queue_of type w)" arbitrary: w r w' rule: less_induct)
  case less
  show ?case
  proof (cases "queue_of type w")
    case Nil
    with less.prems show ?thesis by (simp add: drain_queue_empty)
  next
    case (Cons d ds)
    then have q: "map_of (protocolQueues w) type = Some (d # ds)" by (simp add: queue_of_def split: option.splits)
    let ?w = "set_queues (map_update type (\<lambda>_. ds) (protocolQueues w)) w"
    show ?thesis
    proof (cases "protocolHandlers w type")
      case None
      have "drain_queue type w = (Inl (Undefined NullDereference), ?w)"
        using q None by (simp add: drain_queue.simps [of type w] Let_def)
      with less.prems have "w' = ?w" "r = Inl (Undefined NullDereference)" by simp_all
      then show ?thesis by (simp add: queue_of_def)
    next
      case (Some h)
      obtain v w1 where run: "proto_run h d ?w = (v, w1)" by (cases "proto_run h d ?w")
      have keep: "protocolQueues w1 = protocolQueues ?w" "pending w1 = pending w" "config w1 = config w"
        using proto.queues_kept [of h d ?w] proto.pending_same [of h d ?w] proto.config_same [of h d ?w] run by simp_all
      then have other: "t \<noteq> type \<Longrightarrow> queue_of t w1 = queue_of t w" for t by (simp add: queue_of_def)
      show ?thesis
      proof (cases v)
        case (Inl e)
        then have "r = Inl e" "w' = w1"
          using less.prems drain_queue_step [OF q Some] run by (simp_all add: bindM_Inl)
        then show ?thesis using keep other by simp
      next
        case (Inr u)
        have "drain_queue type w1 = (r, w')"
          using less.prems drain_queue_step [OF q Some] run Inr by (simp add: bindM_Inr)
        moreover have "length (queue_of type w1) < length (queue_of type w)"
          using drain_round_shorter [OF q run] .
        ultimately show ?thesis using less.hyps [of w1 r w'] keep other by simp
      qed
    qed
  qed
qed

lemma drain_all_frame:
  assumes "drain_all types w = (r, w')"
  shows "map fst (protocolQueues w') = map fst (protocolQueues w) \<and> pending w' = pending w \<and> config w' = config w \<and>
    (r = Inr () \<longrightarrow> (\<forall>t. t \<in> set types \<or> queue_of t w = [] \<longrightarrow> queue_of t w' = []))"
  using assms
proof (induction types arbitrary: w)
  case (Cons type types)
  obtain v w1 where d: "drain_queue type w = (v, w1)" by (cases "drain_queue type w")
  note f = drain_queue_frame [OF d]
  show ?case
  proof (cases v)
    case (Inl e)
    with Cons.prems d f show ?thesis by (auto simp: bindM_Inl)
  next
    case (Inr u)
    then have "drain_all types w1 = (r, w')" using Cons.prems d by (simp add: bindM_Inr)
    from Cons.IH [OF this] f Inr show ?thesis by (metis set_ConsD old.unit.exhaust)
  qed
qed simp

lemma queue_of_key: "queue_of t w \<noteq> [] \<Longrightarrow> t \<in> set (map fst (protocolQueues w))"
  by (auto simp: queue_of_def split: option.splits dest: map_of_SomeD intro!: image_eqI)

lemma handleProtocolSignal_frame:
  assumes "handleProtocolSignal w = (r, w')"
  shows "map fst (protocolQueues w') = map fst (protocolQueues w)" "pending w' = pending w" "config w' = config w"
    "r = Inr () \<Longrightarrow> queue_of t w' = []"
proof -
  note f = drain_all_frame [OF assms [unfolded handleProtocolSignal_def]]
  from f show "map fst (protocolQueues w') = map fst (protocolQueues w)" "pending w' = pending w" "config w' = config w"
    by blast+
  show "queue_of t w' = []" if "r = Inr ()"
    using f that queue_of_key [of t w] by blast
qed

section \<open>Properties\<close>

text \<open>
  C13. A signal for the protocol queues always comes to an end.  Whatever the handlers do, the keys of
  the queues, the pending signals and the configuration are what they were; and if no handler
  throws, every queue is empty.
\<close>

theorem drain_leaves_nothing:
  "\<exists>r w'. handleProtocolSignal w = (r, w') \<and>
    map fst (protocolQueues w') = map fst (protocolQueues w) \<and> pending w' = pending w \<and> config w' = config w \<and>
    (r = Inr () \<longrightarrow> (\<forall>t. queue_of t w' = []))"
  by (cases "handleProtocolSignal w") (auto dest: handleProtocolSignal_frame)

theorem drain_leaves_nothing_witness:
  "\<exists>w'. handleProtocolSignal iface_world = (Inr (), w') \<and> queue_of arpType w' = [] \<and> config w' = config iface_world"
proof -
  have "queue_of t iface_world = []" for t by (auto simp: queue_of_def iface_world_def one_device_world_def)
  then have "handleProtocolSignal iface_world = (Inr (), iface_world)"
    by (simp add: handleProtocolSignal_def iface_world_def one_device_world_def drain_queue_empty bindM_Inr queue_of_def)
  then show ?thesis using drain_leaves_nothing [of iface_world] by auto
qed

end
