(* ===== verification/InterruptInv.thy ===== *)
theory InterruptInv
  imports InterruptThread
begin

unbundle bit_operations_syntax

text \<open>
  Invariants of the reachable states of the signal loop, and what happens to one frame from its
  arrival to the end of its handler.
\<close>

section \<open>Queued packets are announced\<close>

definition announces :: "world \<Rightarrow> world \<Rightarrow> bool" where
  "announces w w' \<longleftrightarrow> set (pending w) \<subseteq> set (pending w') \<and>
     (SIGUSR1 \<in> set (pending w') \<or> (\<forall>t. queue_of t w' = queue_of t w))"

lemma announces_refl: "announces w w"
  by (simp add: announces_def)

lemma announces_trans: "announces u v \<Longrightarrow> announces v w \<Longrightarrow> announces u w"
  unfolding announces_def by (metis subset_iff)

text \<open>A packet that the handler of a device may queue: its type is that of the queue, its size that of a frame.\<close>

definition packet_ok :: "u16 \<Rightarrow> ProtocolData \<Rightarrow> bool" where
  "packet_ok t d \<longleftrightarrow> pd_type d = t \<and> length (pd_data d) \<le> 1500"

definition queues_ok :: "world \<Rightarrow> bool" where
  "queues_ok w \<longleftrightarrow> (\<forall>t. \<forall>d \<in> set (queue_of t w). packet_ok t d)"

lemma raise_signal_set [simp]: "set (raise_signal sg p) = insert sg (set p)"
  by (auto simp: raise_signal_def)

lemma handler_success:
  assumes "EtherDevice_handler dev rd w = (Inr v, w')" "\<forall>f. rd = Some f \<longrightarrow> length f \<le> 1514"
  shows "announces w w' \<and> config w' = config w \<and> map fst (protocolQueues w') = map fst (protocolQueues w) \<and>
    (queues_ok w \<longrightarrow> queues_ok w')"
proof (cases rd)
  case None
  with assms show ?thesis by (simp add: EtherDevice_handler_def)
next
  case (Some f)
  have len: "14 \<le> length f"
    using assms(1) handler_short [of f dev w] Some by (cases "length f < 14") auto
  then show ?thesis
  proof (cases rule: handler_cases [where w = w and dev = dev])
    case unknown
    with assms Some show ?thesis by (simp add: announces_refl)
  next
    case (queued d s type b q)
    have b: "length b \<le> 1500" using queued(1-3) assms(2) Some by (simp add: ether_layout_def)
    have w': "w' = w\<lparr>protocolQueues := map_update type (\<lambda>q. q @ [\<lparr>pd_type = type, pd_data = b, pd_devicePtr = selfPtr dev\<rparr>])
                 (protocolQueues w), pending := raise_signal SIGUSR1 (pending w)\<rparr>"
      using queued assms(1) Some by simp
    have "queue_of t w' = (if t = type then q @ [\<lparr>pd_type = type, pd_data = b, pd_devicePtr = selfPtr dev\<rparr>] else queue_of t w)"
      for t using queued(4) by (simp add: w' queue_of_def)
    moreover have "queue_of type w = q" using queued(4) by (simp add: queue_of_def)
    ultimately have "queues_ok w \<longrightarrow> queues_ok w'"
      using b by (auto simp: queues_ok_def packet_ok_def)
    then show ?thesis by (auto simp: w' announces_def config_def)
  qed
qed

lemma signal_loop_success:
  assumes "signal_loop ps sg (w, rx) = (Inr v, (w', rx'))"
  shows "announces w w' \<and> config w' = config w \<and> map fst (protocolQueues w') = map fst (protocolQueues w) \<and>
    (queues_ok w \<longrightarrow> queues_ok w')"
  using assms
proof (induction ps arbitrary: w rx)
  case (Cons p ps)
  obtain d where d: "deref_device (Some p) w = Inr d"
    using Cons.prems by (cases "deref_device (Some p) w") (simp_all add: on_world_def bindM_apply)
  show ?case
  proof (cases "getIrq d = sg")
    case False
    with Cons.prems d have "signal_loop ps sg (w, rx) = (Inr v, (w', rx'))"
      by (simp add: on_world_def bindM_apply)
    then show ?thesis by (rule Cons.IH)
  next
    case True
    then obtain f w1 rx1 u where
      h: "EtherDevice_handler d (map_option (take 1514) f) w = (Inr u, w1)"
      and rest: "signal_loop ps sg (w1, rx1) = (Inr v, (w', rx'))"
      using Cons.prems d
      by (auto simp: on_world_def bindM_apply read_device_def split: sum.splits prod.splits list.splits)
    have "\<forall>g. map_option (take 1514) f = Some g \<longrightarrow> length g \<le> 1514" by auto
    from handler_success [OF h this] Cons.IH [OF rest] show ?thesis
      using announces_trans by auto
  qed
qed (simp add: announces_refl)

section \<open>The invariant\<close>

definition system_inv :: "world \<Rightarrow> system \<Rightarrow> bool" where
  "system_inv w0 s \<longleftrightarrow>
     (case sys_thread s of
        Crashed _ \<Rightarrow> True
      | th \<Rightarrow> config (sys_world s) = config w0 \<and>
              map fst (protocolQueues (sys_world s)) = map fst (protocolQueues w0) \<and>
              queues_ok (sys_world s) \<and>
              (\<forall>t. queue_of t (sys_world s) \<noteq> [] \<longrightarrow> SIGUSR1 \<in> set (pending (sys_world s))))"

lemma queue_of_cong: "protocolQueues w' = protocolQueues w \<Longrightarrow> queue_of t w' = queue_of t w"
  by (simp add: queue_of_def)

lemma take_signal_frame [simp]:
  "protocolQueues (take_signal sg w) = protocolQueues w" "config (take_signal sg w) = config w"
  "queue_of t (take_signal sg w) = queue_of t w" "devices (take_signal sg w) = devices w"
  "written (take_signal sg w) = written w" "arpCache (take_signal sg w) = arpCache w"
  "pending (take_signal sg w) = remove1 sg (pending w)"
  by (simp_all add: take_signal_def queue_of_def config_def)

text \<open>What one round of the signal loop keeps when it does not crash.\<close>

lemma dispatch_success:
  assumes d: "dispatch intr sg (take_signal sg w, rx) = (Inr v, (w', rx'))" and ok: "queues_ok w"
    and ann: "\<forall>t. queue_of t w \<noteq> [] \<longrightarrow> SIGUSR1 \<in> set (pending w)"
  shows "config w' = config w \<and> map fst (protocolQueues w') = map fst (protocolQueues w) \<and> queues_ok w' \<and>
    (\<forall>t. queue_of t w' \<noteq> [] \<longrightarrow> SIGUSR1 \<in> set (pending w'))"
proof (cases sg)
  case SIGHUP
  with d have "w' = take_signal sg w" by simp
  with SIGHUP ok ann show ?thesis
    by (auto simp: queues_ok_def in_set_remove1)
next
  case SIGUSR1
  then obtain u where "handleProtocolSignal (take_signal sg w) = (Inr u, w')"
    using d by (auto simp: bindM_eq_Inr_iff on_world_def split: prod.splits)
  from handleProtocolSignal_frame [OF this] show ?thesis by (simp add: queues_ok_def)
next
  case SIGUSR2
  then obtain u where "handleEventSignal (take_signal sg w) = (Inr u, w')"
    using d by (auto simp: bindM_eq_Inr_iff on_world_def split: prod.splits)
  then have "protocolQueues w' = protocolQueues w" "pending w' = remove1 sg (pending w)" "config w' = config w"
    using event_loop_frame [of "eventHandlers (take_signal sg w)" "take_signal sg w"]
    by (auto simp: handleEventSignal_def bindM_eq_Inr_iff)
  with SIGUSR2 ok ann show ?thesis
    by (auto simp: queues_ok_def queue_of_cong [of w' w] in_set_remove1)
next
  case (SIGRT n)
  then obtain u where "signal_loop (inputDevices intr) sg (take_signal sg w, rx) = (Inr u, (w', rx'))"
    using d by (auto simp: bindM_eq_Inr_iff handleSignal_def)
  from signal_loop_success [OF this] SIGRT ok ann show ?thesis
    by (auto simp: announces_def queues_ok_def in_set_remove1)
qed

lemma system_inv_step:
  assumes "step intr s t" "system_inv w0 s"
  shows "system_inv w0 t"
  using assms(1)
proof (cases rule: step.cases)
  case (wake sg r w' rx')
  show ?thesis
  proof (cases r)
    case (Inl e)
    with wake show ?thesis by (simp add: system_inv_def)
  next
    case (Inr v)
    with wake assms(2) dispatch_success [of intr sg "sys_world s" "sys_rx s" v w' rx'] show ?thesis
      by (cases v) (simp_all add: system_inv_def)
  qed
next
  case (frame k rd)
  have "queue_of t ((sys_world s)\<lparr>pending := p\<rparr>) = queue_of t (sys_world s)" for t p by (simp add: queue_of_def)
  with frame assms(2) show ?thesis by (auto simp: arrival_def system_inv_def queues_ok_def config_def split: thread_state.splits)
next
  case (signal sg)
  have "queue_of t ((sys_world s)\<lparr>pending := p\<rparr>) = queue_of t (sys_world s)" for t p by (simp add: queue_of_def)
  with signal assms(2) show ?thesis by (auto simp: system_inv_def queues_ok_def config_def split: thread_state.splits)
next
  case (socket w')
  note f = socket_call_frame [OF socket(3)]
  have "queue_of t w' = queue_of t (sys_world s)" for t using f(1) by (rule queue_of_cong)
  with socket f assms(2) show ?thesis by (auto simp: system_inv_def queues_ok_def split: thread_state.splits)
qed

lemma system_inv_reachable:
  "reachable intr s0 s \<Longrightarrow> system_inv w0 s0 \<Longrightarrow> system_inv w0 s"
  by (induction rule: reachable.induct) (auto intro: system_inv_step)

lemma reachable_trans: "reachable intr s t \<Longrightarrow> reachable intr t u \<Longrightarrow> reachable intr s u"
proof -
  assume "reachable intr t u" "reachable intr s t"
  then show "reachable intr s u"
    by (induction rule: reachable.induct) (auto intro: reachable.intros)
qed

section \<open>The table of control blocks under all steps\<close>

context table_invariant
begin

lemma proto_keeps: "keeps holds (proto_run h pd)"
  using push by (cases h) (auto intro!: frame_intros simp: holds_def)

lemma holds_queues [simp]: "holds (set_queues q w) = holds w"
  by (simp add: holds_def set_queues_def)

lemma drain_keeps: "drain_queue type w = (r, w') \<Longrightarrow> holds w \<Longrightarrow> holds w'"
proof (induction "length (queue_of type w)" arbitrary: w r w' rule: less_induct)
  case less
  show ?case
  proof (cases "queue_of type w")
    case Nil
    with less.prems show ?thesis by (simp add: drain_queue_empty)
  next
    case (Cons d ds)
    then have q: "map_of (protocolQueues w) type = Some (d # ds)" by (simp add: queue_of_def split: option.splits)
    let ?w = "set_queues (map_update type (\<lambda>_. ds) (protocolQueues w)) w"
    show ?thesis
    proof (cases "protocolHandlers w type")
      case None
      with q less.prems show ?thesis by (auto simp: drain_queue.simps [of type w] Let_def)
    next
      case (Some h)
      obtain v w1 where run: "proto_run h d ?w = (v, w1)" by (cases "proto_run h d ?w")
      have w1: "holds w1" using keepsD' [OF proto_keeps _ run] less.prems(2) by simp
      show ?thesis
      proof (cases v)
        case (Inl e)
        then show ?thesis using w1 less.prems(1) drain_queue_step [OF q Some] run by (simp add: bindM_Inl)
      next
        case (Inr u)
        have "drain_queue type w1 = (r, w')"
          using less.prems(1) drain_queue_step [OF q Some] run Inr by (simp add: bindM_Inr)
        then show ?thesis using less.hyps drain_round_shorter [OF q run] w1 by blast
      qed
    qed
  qed
qed

lemma drain_all_keeps: "keeps holds (drain_all types)"
proof (induction types)
  case (Cons type types)
  have "keeps holds (drain_queue type)" by (auto intro!: keepsI dest: drain_keeps [OF surjective_pairing])
  with Cons show ?case by (simp add: frame_intros)
qed (simp add: keeps_def)

lemma event_loop_keeps: "keeps holds (event_loop es)"
proof (induction es)
  case (Cons e es)
  have "keeps holds (run_event e)" using event_keeps by (cases e) simp
  with Cons show ?case by (simp add: frame_intros)
qed (simp add: keeps_def)

lemma device_handler_keeps: "keeps holds (EtherDevice_handler dev rd)"
  unfolding EtherDevice_handler_def Let_def by (intro frame_intros) (simp_all add: holds_def)

lemma on_world_keeps: "keeps holds m \<Longrightarrow> keeps (\<lambda>(w, rx). holds w) (on_world m)"
  by (auto simp: keeps_def on_world_def split_beta)

lemma signal_loop_keeps: "keeps (\<lambda>(w, rx). holds w) (signal_loop ps sg)"
proof (induction ps)
  case (Cons p ps)
  have "keeps (\<lambda>(w, rx). holds w) (read_device p)"
    by (auto simp: keeps_def read_device_def split: list.split)
  with Cons show ?case
    by (simp, intro frame_intros on_world_keeps device_handler_keeps)
qed (simp add: keeps_def)

lemma dispatch_keeps: "keeps (\<lambda>(w, rx). holds w) (dispatch intr sg)"
proof (cases sg)
  case SIGUSR1
  have "keeps holds handleProtocolSignal"
    using drain_all_keeps by (simp add: keeps_def handleProtocolSignal_def)
  then show ?thesis by (simp add: SIGUSR1 on_world_keeps frame_intros)
next
  case SIGUSR2
  then show ?thesis
    using event_loop_keeps by (simp add: handleEventSignal_def on_world_keeps frame_intros)
next
  case (SIGRT n)
  then show ?thesis using signal_loop_keeps by (simp add: handleSignal_def frame_intros)
qed (simp add: keeps_def)

lemma socket_call_keeps: "socket_call w w' \<Longrightarrow> holds w \<Longrightarrow> holds w'"
  by (erule socket_callE)
    (auto dest: keepsD' [OF open_keeps] keepsD' [OF bind_keeps] keepsD' [OF sendTo_keeps] recv_keeps)

lemma step_keeps: "step intr s t \<Longrightarrow> holds (sys_world s) \<Longrightarrow> holds (sys_world t)"
proof (erule stepE)
  fix sg r w' rx'
  assume s: "holds (sys_world s)" and d: "dispatch intr sg (take_signal sg (sys_world s), sys_rx s) = (r, w', rx')"
    and t: "t = \<lparr>sys_world = w', sys_rx = rx', sys_thread = after_dispatch r\<rparr>"
  have "holds (take_signal sg (sys_world s))" using s by (simp add: holds_def take_signal_def)
  then show "holds (sys_world t)" using keepsD' [OF dispatch_keeps _ d] t by simp
qed (auto simp: arrival_def holds_def dest: socket_call_keeps [unfolded holds_def])

lemma reachable_keeps: "reachable intr s0 s \<Longrightarrow> holds (sys_world s0) \<Longrightarrow> holds (sys_world s)"
  by (induction rule: reachable.induct) (auto intro: step_keeps)

end

section \<open>Properties\<close>

text \<open>
  C15. In every reachable state of the system no two open sockets have the same address and the same
  port other than 0, the open blocks are the first ones of the table, and no block has gone back in
  its life since the start.
\<close>

theorem endpoints_stay_unique:
  assumes "reachable intr s0 s" "table_ok (udpPcbs (sys_world s0))"
  shows "table_ok (udpPcbs (sys_world s)) \<and> states_advance (udpPcbs (sys_world s0)) (udpPcbs (sys_world s))"
  using table.reachable_keeps [OF assms(1)] assms(2)
    advance.reachable_keeps [OF assms(1), of "udpPcbs (sys_world s0)"] states_advance_refl
  by (simp add: table.holds_def advance.holds_def)

theorem endpoints_stay_unique_witness:
  "\<exists>s. reachable Interrupt_init
       \<lparr>sys_world = iface_world\<lparr>udpPcbs := UdpPcbManager_new \<lparr>addr = 7, port = 7\<rparr>\<rparr>, sys_rx = (\<lambda>_. []), sys_thread = Waiting\<rparr> s \<and>
     state (udpPcbs (sys_world s) ! 0) = OPEN \<and> table_ok (udpPcbs (sys_world s))"
proof -
  let ?w = "iface_world\<lparr>udpPcbs := UdpPcbManager_new \<lparr>addr = 7, port = 7\<rparr>\<rparr>"
  let ?s = "\<lparr>sys_world = ?w, sys_rx = (\<lambda>_. []), sys_thread = Waiting\<rparr>"
  obtain r w' where o: "udp_open ?w = (r, w')" by (cases "udp_open ?w")
  have "length (UdpPcbManager_new \<lparr>addr = 7, port = 7\<rparr>) = 100" by (simp add: UdpPcbManager_new_def)
  then have first: "first_n_open 1 (udpPcbs w')"
    using udp_open_counter(1) [of 0 ?w] first_n_open_new o by auto
  have "0 < length (udpPcbs w')" using first unfolding first_n_open_def by linarith
  then have "state (udpPcbs w' ! 0) = OPEN" using first unfolding first_n_open_def by simp
  moreover have "reachable Interrupt_init ?s (?s\<lparr>sys_world := w'\<rparr>)"
    using socket [of ?s w' Interrupt_init] open_call [OF o] by (auto intro: reachable.intros)
  moreover have "table_ok (udpPcbs (sys_world ?s))" by (simp add: table_ok_new)
  ultimately show ?thesis
    using endpoints_stay_unique [of Interrupt_init ?s "?s\<lparr>sys_world := w'\<rparr>"] by auto
qed

section \<open>The thread comes to rest\<close>

text \<open>
  What the thread does by itself, and how often it can: a signal of a device is taken in one step and
  can leave a signal for the queues behind, every other one is taken in one.
\<close>

inductive thread_step :: "Interrupt \<Rightarrow> system \<Rightarrow> system \<Rightarrow> bool" for intr where
  thread_wakes: "sys_thread s = Waiting \<Longrightarrow> sg \<in> set (pending (sys_world s)) \<Longrightarrow> sg \<in> sigmask intr \<Longrightarrow>
    dispatch intr sg (take_signal sg (sys_world s), sys_rx s) = (r, (w', rx')) \<Longrightarrow>
    thread_step intr s \<lparr>sys_world = w', sys_rx = rx', sys_thread = after_dispatch r\<rparr>"

inductive_cases thread_stepE: "thread_step intr s t"

lemma thread_step_step: "thread_step intr s t \<Longrightarrow> step intr s t"
  by (elim thread_stepE) (auto intro: wake)

fun signal_work :: "signal \<Rightarrow> nat" where
  "signal_work (SIGRT n) = 2"
| "signal_work _ = 1"

definition pending_work :: "signal list \<Rightarrow> nat" where
  "pending_work sgs = sum_list (map signal_work sgs)"

lemma pending_work_taken:
  "sg \<in> set sgs \<Longrightarrow> pending_work (remove1 sg sgs) + signal_work sg = pending_work sgs"
  using sum_list_map_remove1 [of sg sgs signal_work] by (simp add: pending_work_def)

lemma pending_work_raised: "pending_work (raise_signal sg sgs) \<le> pending_work sgs + signal_work sg"
  by (simp add: pending_work_def raise_signal_def)

lemma pending_work_le: "pending_work sgs \<le> 2 * length sgs"
proof (induction sgs)
  case (Cons sg sgs)
  then show ?case by (cases sg) (simp_all add: pending_work_def)
qed (simp add: pending_work_def)

text \<open>A device raises the signal for the queues and no other, and twice is as good as once.\<close>

abbreviation at_most_raised :: "signal list \<Rightarrow> world \<Rightarrow> bool" where
  "at_most_raised sgs w \<equiv> pending w = sgs \<or> pending w = raise_signal SIGUSR1 sgs"

lemma raise_twice: "raise_signal SIGUSR1 (raise_signal SIGUSR1 sgs) = raise_signal SIGUSR1 sgs"
  by (simp add: raise_signal_def)

lemma handler_raises [frame_intros]: "keeps (at_most_raised sgs) (EtherDevice_handler d rd)"
  unfolding EtherDevice_handler_def
  by (cases rd; simp) (intro frame_intros; auto simp: raise_twice)+

lemma on_world_frame [frame_intros]: "keeps I m \<Longrightarrow> keeps (\<lambda>s. I (fst s)) (on_world m)"
  by (auto simp: keeps_def on_world_def split: prod.split)

lemma signal_loop_raises: "keeps (\<lambda>s. at_most_raised sgs (fst s)) (signal_loop ps sg)"
proof (induction ps)
  case (Cons p ps)
  have "keeps (\<lambda>s. at_most_raised sgs (fst s)) (read_device p)"
    by (auto simp: keeps_def read_device_def split: list.split)
  then show ?case using Cons.IH unfolding signal_loop.simps by (intro frame_intros)
qed (simp add: keeps_def)

lemma dispatch_work:
  assumes sg: "sg \<in> set (pending w)" and d: "dispatch intr sg (take_signal sg w, rx) = (Inr v, (w', rx'))"
  shows "pending_work (pending w') < pending_work (pending w)"
proof -
  have taken: "pending_work (remove1 sg (pending w)) + signal_work sg = pending_work (pending w)"
    using sg by (rule pending_work_taken)
  show ?thesis
  proof (cases sg)
    case SIGHUP
    with d taken show ?thesis by auto
  next
    case SIGUSR1
    then obtain u where "handleProtocolSignal (take_signal sg w) = (Inr u, w')"
      using d by (auto simp: bindM_eq_Inr_iff on_world_def split: prod.splits)
    from handleProtocolSignal_frame(2) [OF this] taken SIGUSR1 show ?thesis by simp
  next
    case SIGUSR2
    then obtain u where "handleEventSignal (take_signal sg w) = (Inr u, w')"
      using d by (auto simp: bindM_eq_Inr_iff on_world_def split: prod.splits)
    then have "pending w' = remove1 sg (pending w)"
      using event_loop_frame [of "eventHandlers (take_signal sg w)" "take_signal sg w"]
      by (auto simp: handleEventSignal_def bindM_eq_Inr_iff)
    with taken SIGUSR2 show ?thesis by simp
  next
    case (SIGRT n)
    then obtain u where "signal_loop (inputDevices intr) sg (take_signal sg w, rx) = (Inr u, (w', rx'))"
      using d by (auto simp: bindM_eq_Inr_iff handleSignal_def)
    from keepsD' [OF signal_loop_raises _ this, of "remove1 sg (pending w)"]
    have "at_most_raised (remove1 sg (pending w)) w'" by simp
    then have "pending_work (pending w') \<le> pending_work (remove1 sg (pending w)) + 1"
      using pending_work_raised [of SIGUSR1 "remove1 sg (pending w)"] by auto
    with taken SIGRT show ?thesis by simp
  qed
qed

lemma thread_step_work:
  assumes "thread_step intr s t" "\<forall>e. sys_thread t \<noteq> Crashed e"
  shows "pending_work (pending (sys_world t)) < pending_work (pending (sys_world s))"
  using assms(1)
proof cases
  case (thread_wakes sg r w' rx')
  then obtain v where "r = Inr v" using assms(2) by (cases r) simp_all
  with thread_wakes dispatch_work [of sg "sys_world s"] show ?thesis by simp
qed

text \<open>As long as it does not crash, the thread takes at most two steps for every pending signal.\<close>

lemma thread_steps_bounded:
  assumes "(thread_step intr ^^ n) s t"
    and "\<And>k u e. (thread_step intr ^^ k) s u \<Longrightarrow> sys_thread u \<noteq> Crashed e"
  shows "n + pending_work (pending (sys_world t)) \<le> pending_work (pending (sys_world s))"
  using assms(1)
proof (induction n arbitrary: t)
  case (Suc n)
  then obtain u where u: "(thread_step intr ^^ n) s u" "thread_step intr u t" by auto
  have "\<forall>e. sys_thread t \<noteq> Crashed e" using assms(2) [OF Suc.prems] by blast
  from thread_step_work [OF u(2) this] Suc.IH [OF u(1)] show ?case by simp
qed simp

end
