(* ===== verification/Pipeline.thy ===== *)
theory Pipeline
  imports InterruptInv
begin

unbundle bit_operations_syntax

text \<open>
  From a frame on the wire to the reply on the wire: the steps of the signal loop that one frame
  takes in a system set up the way main.cpp does it, and what they come to for ARP, ICMP and UDP.
\<close>

section \<open>The configured system\<close>

definition configured :: "Interrupt \<Rightarrow> world \<Rightarrow> EtherDevice \<Rightarrow> IpNetworkInterface \<Rightarrow> Route \<Rightarrow> bool" where
  "configured intr w dev iface route \<longleftrightarrow>
     inputDevices intr = [0] \<and> {SIGHUP, SIGUSR1, SIGUSR2, ETHER_TAN_IRQ} \<subseteq> sigmask intr \<and>
     devices w = [dev] \<and> length (dev_address dev) = 6 \<and> selfPtr dev = Some 0 \<and>
     networkInterfaces dev = [IpInterface iface] \<and> if_family iface = INTERFACE_FAMILY_IP \<and>
     if_devicePtr iface = Some 0 \<and>
     routeTable w = [route] \<and> route_interface route = iface \<and>
     protocolHandlers w = [ipType \<mapsto> Ipv4ProtocolHandler, arpType \<mapsto> ArpProtocolHandler] \<and>
     ipHandlers w = [ICMP_TYPE \<mapsto> IcmpHandler, UDP_TYPE \<mapsto> UdpHandler] \<and>
     eventHandlers w = [UdpEventHandler]"

text \<open>Nothing is waiting: the queues are empty, no signal is pending.\<close>

definition idle :: "world \<Rightarrow> bool" where
  "idle w \<longleftrightarrow> protocolQueues w = [(ipType, []), (arpType, [])] \<and> pending w = []"

lemma types_differ [simp]: "ipType \<noteq> arpType" "arpType \<noteq> ipType"
  by (simp_all add: ipType_def arpType_def)

lemma configured_facts:
  assumes "configured intr w dev iface route"
  shows "valid_device w 0 dev" "ip_iface_of dev iface" "if_devicePtr iface = Some 0" "routed w 0 dev route"
    "route_interface route = iface"
  using assms
  by (simp_all add: configured_def valid_device_def ip_iface_of_def getTargetInterface_def routed_def)

lemma configured_config:
  "config w' = config w \<Longrightarrow> configured intr w' dev iface route = configured intr w dev iface route"
  by (simp add: config_def configured_def)

section \<open>One packet through the protocol queues\<close>

definition enqueue :: "ProtocolData \<Rightarrow> world \<Rightarrow> world" where
  "enqueue pd w = set_queues (map_update (pd_type pd) (\<lambda>q. q @ [pd]) (protocolQueues w)) w"

lemma handle_one:
  assumes cfg: "configured intr w dev iface route" and idle: "idle w"
    and h: "protocolHandlers w (pd_type pd) = Some h" and run: "proto_run h pd w = (r, w')"
  shows "handleProtocolSignal (enqueue pd w) = (map_sum id (\<lambda>_. ()) r, w')"
proof -
  let ?t = "pd_type pd"
  have t: "?t = ipType \<or> ?t = arpType" using cfg h by (auto simp: configured_def split: if_splits)
  let ?v = "enqueue pd w"
  have q: "map_of (protocolQueues ?v) ?t = Some [pd]" and keys: "map fst (protocolQueues ?v) = [ipType, arpType]"
    using idle t by (auto simp: enqueue_def idle_def map_update_def)
  have popped: "set_queues (map_update ?t (\<lambda>_. []) (protocolQueues ?v)) ?v = w"
    using idle t by (auto simp: enqueue_def idle_def map_update_def set_queues_def)
  have hv: "protocolHandlers ?v ?t = Some h" using h by (simp add: enqueue_def)
  have d: "drain_queue ?t ?v = bindM (proto_run h pd) (\<lambda>_. drain_queue ?t) w"
    using drain_queue_step [OF q hv] unfolding popped .
  have empty: "queue_of t w' = []" for t
    using proto.queues_kept [of h pd w] run idle by (auto simp: queue_of_def idle_def split: if_splits)
  have "queue_of t ?v = []" if "t \<noteq> ?t" for t
    using that idle by (simp add: queue_of_def enqueue_def idle_def)
  then have other: "drain_queue t ?v = (Inr (), ?v)" if "t \<noteq> ?t" for t
    using that by (simp add: drain_queue_empty)
  have all: "handleProtocolSignal ?v = bindM (drain_queue ?t) (\<lambda>_. drain_all (if ?t = ipType then [arpType] else [])) ?v"
    using t keys other [of ipType] by (auto simp: handleProtocolSignal_def bindM_Inr)
  show ?thesis
  proof (cases r)
    case (Inl e)
    with all d run show ?thesis by (simp add: bindM_Inl bindM_apply)
  next
    case (Inr u)
    then have "drain_queue ?t ?v = (Inr (), w')" using d run empty by (simp add: bindM_Inr drain_queue_empty)
    with all Inr empty show ?thesis by (simp add: bindM_Inr drain_queue_empty)
  qed
qed

section \<open>One frame through the signal loop\<close>

definition idle_system :: "world \<Rightarrow> system" where
  "idle_system w = \<lparr>sys_world = w, sys_rx = (\<lambda>_. []), sys_thread = Waiting\<rparr>"

lemma frame_dispatch:
  fixes d s b :: bytes
  assumes cfg: "configured intr w dev iface route" and idle: "idle w"
    and f: "length d = 6" "length s = 6" "length b \<le> 1500" and t: "type = ipType \<or> type = arpType"
  shows "dispatch intr ETHER_TAN_IRQ (w, (\<lambda>_. [])(0 := [Some (ether_layout d s type b)])) =
    (Inr False, ((enqueue \<lparr>pd_type = type, pd_data = b, pd_devicePtr = Some 0\<rparr> w)\<lparr>pending := [SIGUSR1]\<rparr>, (\<lambda>_. [])))"
proof -
  have len: "length (ether_layout d s type b) = 14 + length b" using f by (simp add: ether_layout_def)
  then have whole: "take 1514 (ether_layout d s type b) = ether_layout d s type b" using f(3) by simp
  have "length (dev_address dev) = 6" using cfg by (simp add: configured_def)
  then have "\<exists>s. addressToString (dev_address dev) = Inr s" by (simp add: addressToString_def vec_at_def)
  then obtain i where i: "EtherDevice_getInfo dev = Inr i" by (auto simp: EtherDevice_getInfo_def)
  obtain q where q: "map_of (protocolQueues w) type = Some q" using idle t by (auto simp: idle_def)
  have "deref_device (Some 0) w = Inr dev" using cfg by (simp add: configured_def deref_device_def)
  moreover have "EtherDevice_handler dev (Some (ether_layout d s type b)) w =
      (Inr 0, (enqueue \<lparr>pd_type = type, pd_data = b, pd_devicePtr = Some 0\<rparr> w)\<lparr>pending := [SIGUSR1]\<rparr>)"
    using handler_queues [OF f(1,2) q, of dev b] cfg idle
    by (simp add: configured_def idle_def enqueue_def set_queues_def raise_signal_def)
  moreover have "(\<lambda>_. [])(0 := [Some (ether_layout d s type b)], 0 := []) = (\<lambda>_ :: nat. [])" by auto
  ultimately show ?thesis
    using cfg i
    by (simp add: handleSignal_def configured_def ETHER_TAN_IRQ_def getIrq_def on_world_def bindM_apply
        read_device_def whole)
qed

text \<open>
  The life of a frame of one of the two types: the kernel announces it, the loop reads and queues
  it, and handles it; the outcome of the handler decides whether the loop goes on.
\<close>

definition frame_arrived :: "bytes \<Rightarrow> world \<Rightarrow> system" where
  "frame_arrived f w = arrival 0 (Some f) (idle_system w)"

lemma frame_queued:
  fixes d s b :: bytes
  assumes cfg: "configured intr w dev iface route" and idle: "idle w"
    and f: "length d = 6" "length s = 6" "length b \<le> 1500" and t: "type = ipType \<or> type = arpType"
  shows "step intr (frame_arrived (ether_layout d s type b) w)
    \<lparr>sys_world = (enqueue \<lparr>pd_type = type, pd_data = b, pd_devicePtr = Some 0\<rparr> w)\<lparr>pending := [SIGUSR1]\<rparr>,
     sys_rx = (\<lambda>_. []), sys_thread = Waiting\<rparr>"
proof -
  let ?rx = "(\<lambda>_. [])(0 := [Some (ether_layout d s type b)])"
  let ?s = "\<lparr>sys_world = w\<lparr>pending := [ETHER_TAN_IRQ]\<rparr>, sys_rx = ?rx, sys_thread = Waiting\<rparr>"
  have p: "pending w = []" using idle by (simp add: idle_def)
  have "take_signal ETHER_TAN_IRQ (w\<lparr>pending := [ETHER_TAN_IRQ]\<rparr>) = w" using p by (simp add: take_signal_def)
  moreover have "frame_arrived (ether_layout d s type b) w = ?s"
    using p by (simp add: frame_arrived_def arrival_def idle_system_def raise_signal_def)
  moreover have "ETHER_TAN_IRQ \<in> sigmask intr" using cfg by (auto simp: configured_def)
  ultimately show ?thesis
    using wake [of ?s ETHER_TAN_IRQ intr "Inr False"] frame_dispatch [OF cfg idle f t] by simp
qed

lemma frame_pipeline:
  fixes d s b :: bytes
  assumes cfg: "configured intr w dev iface route" and idle: "idle w"
    and f: "length d = 6" "length s = 6" "length b \<le> 1500" and h: "protocolHandlers w type = Some h"
    and run: "proto_run h \<lparr>pd_type = type, pd_data = b, pd_devicePtr = Some 0\<rparr> w = (r, w')"
  shows "reachable intr (frame_arrived (ether_layout d s type b) w)
    \<lparr>sys_world = w', sys_rx = (\<lambda>_. []), sys_thread = after_dispatch (map_sum id (\<lambda>_. False) r)\<rparr>"
proof -
  let ?pd = "\<lparr>pd_type = type, pd_data = b, pd_devicePtr = Some 0\<rparr>"
  let ?w = "enqueue ?pd w"
  let ?u = "\<lparr>sys_world = ?w\<lparr>pending := [SIGUSR1]\<rparr>, sys_rx = (\<lambda>_. []), sys_thread = Waiting\<rparr>"
  let ?t = "\<lparr>sys_world = w', sys_rx = (\<lambda>_. []), sys_thread = after_dispatch (map_sum id (\<lambda>_. False) r)\<rparr>"
  have t: "type = ipType \<or> type = arpType" using cfg h by (auto simp: configured_def split: if_splits)
  have "take_signal SIGUSR1 (?w\<lparr>pending := [SIGUSR1]\<rparr>) = ?w"
    using idle by (simp add: take_signal_def idle_def enqueue_def set_queues_def)
  moreover have "SIGUSR1 \<in> sigmask intr" using cfg by (auto simp: configured_def)
  moreover have "dispatch intr SIGUSR1 (?w, \<lambda>_. []) = (map_sum id (\<lambda>_. False) r, (w', \<lambda>_. []))"
    using handle_one [OF cfg idle, of ?pd h r w'] h run
    by (cases r) (simp_all add: on_world_def bindM_apply)
  ultimately have "step intr ?u ?t"
    using wake [of ?u SIGUSR1 intr "map_sum id (\<lambda>_. False) r" w' "\<lambda>_. []"] by simp
  with frame_queued [OF cfg idle f t] show ?thesis by (meson reachable.intros)
qed

lemma arp_pipeline:
  fixes d s b :: bytes
  assumes "configured intr w dev iface route" "idle w" "length d = 6" "length s = 6" "length b \<le> 1500"
    and "arp_handle \<lparr>pd_type = arpType, pd_data = b, pd_devicePtr = Some 0\<rparr> w = (r, w')"
  shows "reachable intr (frame_arrived (ether_layout d s arpType b) w)
    \<lparr>sys_world = w', sys_rx = (\<lambda>_. []), sys_thread = after_dispatch (map_sum id (\<lambda>_. False) r)\<rparr>"
proof (rule frame_pipeline)
  show "protocolHandlers w arpType = Some ArpProtocolHandler" using assms(1) by (simp add: configured_def)
qed (use assms in simp_all)

lemma ip_pipeline:
  fixes d s b :: bytes
  assumes "configured intr w dev iface route" "idle w" "length d = 6" "length s = 6" "length b \<le> 1500"
    and "ip_handle \<lparr>pd_type = ipType, pd_data = b, pd_devicePtr = Some 0\<rparr> w = (r, w')"
  shows "reachable intr (frame_arrived (ether_layout d s ipType b) w)
    \<lparr>sys_world = w', sys_rx = (\<lambda>_. []), sys_thread = after_dispatch (map_sum id (\<lambda>_. False) r)\<rparr>"
proof (rule frame_pipeline)
  show "protocolHandlers w ipType = Some Ipv4ProtocolHandler" using assms(1) by (simp add: configured_def)
qed (use assms in simp_all)

text \<open>A valid packet for the interface: the outcome is that of the handler of its protocol.\<close>

lemma packet_pipeline:
  fixes ed es p trailer :: bytes
  assumes cfg: "configured intr w dev iface route" and idle: "idle w"
    and f: "length ed = 6" "length es = 6" "length p + length trailer \<le> 1480"
    and ip: "no_options h" "header_valid h" "h_dst h = unicast iface" "unat (h_total h) = 20 + length p"
    and hdl: "ipHandlers w (h_proto h) = Some hdl"
    and run: "ip_run hdl \<lparr>ip_type = h_proto h, ip_data = p, ip_src_addr = h_src h,
        ip_dst_addr = unicast iface, ip_interface = iface\<rparr> w = (r, w')"
  shows "reachable intr (frame_arrived (ether_layout ed es ipType (ip_layout h (p @ trailer))) w)
    \<lparr>sys_world = w', sys_rx = (\<lambda>_. []), sys_thread = after_dispatch (map_sum id (\<lambda>_. False) r)\<rparr>"
proof -
  let ?b = "ip_layout h (p @ trailer)"
  let ?pd = "\<lparr>pd_type = ipType, pd_data = ?b, pd_devicePtr = Some 0\<rparr>"
  note c = configured_facts [OF cfg]
  have "ip_handle ?pd w = (map_sum id (\<lambda>_. 0) r, w')"
    using ip_handle_layout [OF c(1) _ c(2), where pd = ?pd and h = h and p = p and trailer = trailer] ip hdl run
    by (cases r) (simp_all add: bindM_Inr bindM_Inl)
  moreover have "length ?b \<le> 1500" using f(3) by simp
  ultimately show ?thesis
    using ip_pipeline [OF cfg idle f(1,2), of ?b "map_sum id (\<lambda>_. 0) r" w'] by (cases r) simp_all
qed

lemma configured_handlers:
  assumes "configured intr w dev iface route"
  shows "ipHandlers w ICMP_TYPE = Some IcmpHandler" "ipHandlers w UDP_TYPE = Some UdpHandler"
  using assms by (simp_all add: configured_def ICMP_TYPE_def UDP_TYPE_def)

lemma configured_source:
  "configured intr w dev iface route \<Longrightarrow> unicast iface \<noteq> IP_ADDR_ANY \<Longrightarrow> source_allowed (unicast iface) d route"
  by (simp add: source_allowed_def configured_def)

end
