(* ===== verification/DeviceSetup.thy ===== *)
theory DeviceSetup
  imports World
begin

text \<open>
  What the program asks of the operating system before it runs: the shell commands of
  \<open>setupTunDevice\<close> (main.cpp, lib/Util.cpp), and the system calls of \<open>EtherDevice::open\<close> and
  \<open>EtherDevice::fetchMacAddress\<close> (lib/EtherDevice.cpp).  The results of the calls are arguments; the
  state is what the calls leave behind: the commands run, the descriptors that are open and what the
  device's descriptor has been told.
\<close>

section \<open>State\<close>

text \<open>
  \<open>dev_fd\<close> is the member \<open>fd\<close> of the device.  For the descriptor behind it: the interface it is
  attached to, whether the process owns its signals, whether it is asynchronous, and its signal.
\<close>

record os_state =
  commands :: "string list"
  open_fds :: "int set"
  dev_fd :: int
  tap_name :: "string option"
  tap_flags :: u16
  tap_owned :: bool
  tap_async :: bool
  tap_signal :: "signal option"

definition IFNAMSIZ :: nat where "IFNAMSIZ = 16"
definition IFF_TAP :: u16 where "IFF_TAP = 0x0002"
definition IFF_NO_PI :: u16 where "IFF_NO_PI = 0x1000"

text \<open>\<open>strncpy\<close> into an array of \<open>IFNAMSIZ\<close> zero bytes, and the string read back from it.\<close>

definition strncpy_name :: "nat \<Rightarrow> string \<Rightarrow> string" where
  "strncpy_name n s = (let c = take n (takeWhile (\<lambda>c. c \<noteq> CHR 0x00) s) in c @ replicate (IFNAMSIZ - length c) (CHR 0x00))"

definition c_string :: "string \<Rightarrow> string" where
  "c_string a = takeWhile (\<lambda>c. c \<noteq> CHR 0x00) a"

section \<open>Shell commands\<close>

text \<open>
  The outcome of \<open>popen\<close>: \<open>None\<close> when it fails; otherwise, for each call of \<open>fgets\<close>, what it gave
  (\<open>None\<close> for a null pointer) and whether the end of the pipe was reached by it.
\<close>

type_synonym pipe = "(string option \<times> bool) list option"

text \<open>
  The loop \<open>while (!feof(pipe))\<close>.  A buffer of 128 takes at most 127 characters; appending it stops
  at a zero byte.  A pipe that never ends keeps the loop from ending.
\<close>

fun exec_loop :: "(string option \<times> bool) list \<Rightarrow> string \<Rightarrow> string result" where
  "exec_loop [] text = Inl Hang"
| "exec_loop ((got, eof) # rest) text =
     (let text' = (case got of None \<Rightarrow> text | Some buffer \<Rightarrow> text @ c_string (take 127 buffer))
      in if eof then Inr text' else exec_loop rest text')"

definition shell_exec :: "pipe \<Rightarrow> string \<Rightarrow> (os_state, string) eff" where
  "shell_exec p cmd =
     (case p of
        None \<Rightarrow> throwM (RuntimeError ''error execute command'')
      | Some outs \<Rightarrow>
          bindM (putM (\<lambda>k. k\<lparr>commands := commands k @ [cmd]\<rparr>)) (\<lambda>_.
          liftM (exec_loop outs [])))"

definition user :: string where "user = ''root''"
definition tun_device_name :: string where "tun_device_name = ''suika_device''"
definition tun_ip_range :: string where "tun_ip_range = ''192.0.2.1/24''"

text \<open>The exit status of the commands is not looked at.\<close>

definition setupTunDevice :: "pipe \<Rightarrow> pipe \<Rightarrow> pipe \<Rightarrow> (os_state, unit) eff" where
  "setupTunDevice p1 p2 p3 =
     bindM (shell_exec p1 (''ip tuntap add mode tap user '' @ user @ '' name '' @ tun_device_name)) (\<lambda>_.
     bindM (shell_exec p2 (''ip addr add '' @ tun_ip_range @ '' dev '' @ tun_device_name)) (\<lambda>_.
     bindM (shell_exec p3 (''ip link set '' @ tun_device_name @ '' up'')) (\<lambda>_.
     retM ())))"

section \<open>Opening the device\<close>

record open_results =
  res_open :: int
  res_tunsetiff :: int
  res_setown :: int
  res_setfl :: int
  res_setsig :: int
  open_strerror :: string

definition close_fd :: "int \<Rightarrow> (os_state, unit) eff" where
  "close_fd f = putM (\<lambda>k. k\<lparr>open_fds := open_fds k - {f}\<rparr>)"

text \<open>A failed call on the device: its descriptor is closed, and the message thrown.\<close>

definition close_and_throw :: "string \<Rightarrow> (os_state, unit) eff" where
  "close_and_throw msg = bindM (getM dev_fd) (\<lambda>f. bindM (close_fd f) (\<lambda>_. throwM (RuntimeError msg)))"

definition EtherDevice_open :: "open_results \<Rightarrow> EtherDevice \<Rightarrow> (os_state, int) eff" where
  "EtherDevice_open res dev =
     bindM (putM (\<lambda>k. k\<lparr>dev_fd := res_open res,
              open_fds := (if res_open res < 0 then open_fds k else insert (res_open res) (open_fds k))\<rparr>)) (\<lambda>_.
     if res_open res < 0 then throwM (RuntimeError ''error open tun device'')
     else
     bindM (if res_tunsetiff res = -1 then close_and_throw ''ioctl error. TUNSETIFF''
            else putM (\<lambda>k. k\<lparr>tap_name := Some (c_string (strncpy_name IFNAMSIZ (tanDeviceName dev))),
                            tap_flags := IFF_TAP OR IFF_NO_PI\<rparr>)) (\<lambda>_.
     bindM (if res_setown res = -1
            then close_and_throw (''fcntl(F_SETOWN): '' @ open_strerror res @ '', dev='' @ tanDeviceName dev)
            else putM (\<lambda>k. k\<lparr>tap_owned := True\<rparr>)) (\<lambda>_.
     bindM (if res_setfl res = -1
            then close_and_throw (''fcntl(F_SETFL): '' @ open_strerror res @ '', dev='' @ tanDeviceName dev)
            else putM (\<lambda>k. k\<lparr>tap_async := True\<rparr>)) (\<lambda>_.
     bindM (if res_setsig res = -1
            then close_and_throw (''fcntl(F_SETSIG): '' @ open_strerror res @ '', dev='' @ tanDeviceName dev)
            else putM (\<lambda>k. k\<lparr>tap_signal := Some ETHER_TAN_IRQ\<rparr>)) (\<lambda>_.
     retM 0)))))"

section \<open>Asking for the hardware address\<close>

text \<open>\<open>hw_data\<close> is the array \<open>sa_data\<close>, of 14 bytes.\<close>

record fetch_results =
  res_socket :: int
  res_gethwaddr :: int
  hw_data :: bytes
  fetch_strerror :: string

text \<open>The loop that copies the address into the caller's array.\<close>

fun copy_address_loop :: "nat \<Rightarrow> nat \<Rightarrow> bytes \<Rightarrow> bytes \<Rightarrow> bytes result" where
  "copy_address_loop i 0 src to = Inr to"
| "copy_address_loop i (Suc n) src to =
     bindE (vec_at src i) (\<lambda>b. bindE (vec_set to i b) (\<lambda>to. copy_address_loop (Suc i) n src to))"

text \<open>
  \<open>fetchMacAddress\<close>: on both failures it is the device's descriptor that is closed; the socket, when
  there is one, stays open.
\<close>

definition fetchMacAddress :: "fetch_results \<Rightarrow> EtherDevice \<Rightarrow> bytes \<Rightarrow> (os_state, bytes) eff" where
  "fetchMacAddress res dev address =
     bindM (if res_socket res = -1
            then close_and_throw (''socket: '' @ fetch_strerror res @ '', dev='' @ tanDeviceName dev)
            else putM (\<lambda>k. k\<lparr>open_fds := insert (res_socket res) (open_fds k)\<rparr>)) (\<lambda>_.
     bindM (if res_gethwaddr res = -1
            then close_and_throw (''ioctl [SIOCGIFHWADDR]: '' @ fetch_strerror res @ '', dev='' @ tanDeviceName dev)
            else retM ()) (\<lambda>_.
     bindM (liftM (copy_address_loop 0 ETHER_ADDR_LEN (hw_data res) address)) (\<lambda>address.
     bindM (liftM (addressToString address)) (\<lambda>_.
     bindM (close_fd (res_socket res)) (\<lambda>_.
     retM address)))))"

section \<open>The commands\<close>

text \<open>A pipe that ends, and what the loop makes of it.\<close>

definition pipe_text :: "string list \<Rightarrow> pipe" where
  "pipe_text ts = Some (map (\<lambda>t. (Some t, False)) ts @ [(None, True)])"

lemma exec_loop_texts:
  assumes "\<forall>t \<in> set ts. length t \<le> 127 \<and> CHR 0x00 \<notin> set t"
  shows "exec_loop (map (\<lambda>t. (Some t, False)) ts @ [(None, True)]) acc = Inr (acc @ concat ts)"
  using assms
proof (induction ts arbitrary: acc)
  case (Cons t ts)
  have "takeWhile (\<lambda>c. c \<noteq> CHR 0x00) t = t" using Cons.prems by (auto simp: takeWhile_eq_all_conv)
  then show ?case using Cons by (simp add: c_string_def)
qed simp

lemma shell_exec_text:
  assumes "\<forall>t \<in> set ts. length t \<le> 127 \<and> CHR 0x00 \<notin> set t"
  shows "shell_exec (pipe_text ts) cmd k = (Inr (concat ts), k\<lparr>commands := commands k @ [cmd]\<rparr>)"
  using exec_loop_texts [OF assms, of "[]"] by (simp add: shell_exec_def pipe_text_def bindM_apply)

text \<open>A shell that prints nothing runs the three commands, in this order.\<close>

definition setup_commands :: "string list" where
  "setup_commands =
     [''ip tuntap add mode tap user root name suika_device'',
      ''ip addr add 192.0.2.1/24 dev suika_device'',
      ''ip link set suika_device up'']"

lemma setupTunDevice_runs:
  "setupTunDevice (pipe_text []) (pipe_text []) (pipe_text []) k =
     (Inr (), k\<lparr>commands := commands k @ setup_commands\<rparr>)"
  using shell_exec_text [of "[]"]
  by (simp add: setupTunDevice_def bindM_apply setup_commands_def user_def tun_device_name_def tun_ip_range_def)

lemma setupTunDevice_popen_fails:
  "setupTunDevice None p2 p3 k = (Inl (RuntimeError ''error execute command''), k)"
  by (simp add: setupTunDevice_def shell_exec_def bindM_apply)

section \<open>Descriptors\<close>

lemma close_and_throw_apply [simp]:
  "close_and_throw msg k = (Inl (RuntimeError msg), k\<lparr>open_fds := open_fds k - {dev_fd k}\<rparr>)"
  by (simp add: close_and_throw_def close_fd_def bindM_apply)

lemma copy_address_loop_steps:
  "i + n \<le> length src \<Longrightarrow> i + n \<le> length to \<Longrightarrow>
   copy_address_loop i n src to = Inr (take i to @ take n (drop i src) @ drop (i + n) to)"
proof (induction n arbitrary: i to)
  case (Suc n)
  then have i: "i < length src" "i < length to" by simp_all
  have "take (Suc i) (to[i := src ! i]) = take i to @ [src ! i]"
    using i by (simp add: take_Suc_conv_app_nth)
  moreover have "take (Suc n) (drop i src) = src ! i # take n (drop (Suc i) src)"
    using i by (metis Cons_nth_drop_Suc take_Suc_Cons)
  ultimately show ?case
    using Suc i by (simp add: vec_at_def vec_set_def)
qed simp

lemma copy_address:
  "length src = 14 \<Longrightarrow> length to = 6 \<Longrightarrow> copy_address_loop 0 ETHER_ADDR_LEN src to = Inr (take 6 src)"
  by (simp add: copy_address_loop_steps ETHER_ADDR_LEN_def)

lemma addressToString_total: "length a = 6 \<Longrightarrow> \<exists>s. addressToString a = Inr s"
  by (simp add: addressToString_def vec_at_def)

section \<open>Properties\<close>

text \<open>
  Opening the device is all or nothing.  When it succeeds one more descriptor is open, the
  device has it, it is attached to the interface of the device's name and sends the process the
  signal the interrupt thread will wait for; when any of the calls fails a runtime error is thrown
  and every descriptor opened has been closed again.
\<close>

theorem open_all_or_nothing:
  assumes "res_open res \<notin> open_fds k"
  shows "case EtherDevice_open res dev k of
      (Inr v, k') \<Rightarrow> v = 0 \<and> dev_fd k' = res_open res \<and> 0 \<le> dev_fd k' \<and>
        open_fds k' = insert (dev_fd k') (open_fds k) \<and>
        tap_name k' = Some (c_string (strncpy_name 16 (tanDeviceName dev))) \<and>
        tap_owned k' \<and> tap_async k' \<and> tap_signal k' = Some (getIrq dev)
    | (Inl e, k') \<Rightarrow> is_runtime_error e \<and> open_fds k' = open_fds k"
  using assms by (auto simp: EtherDevice_open_def bindM_apply getIrq_def IFNAMSIZ_def)

definition fresh_os :: os_state where
  "fresh_os = \<lparr>commands = [], open_fds = {0, 1, 2}, dev_fd = 0, tap_name = None, tap_flags = 0,
     tap_owned = False, tap_async = False, tap_signal = None\<rparr>"

definition all_opens :: open_results where
  "all_opens = \<lparr>res_open = 3, res_tunsetiff = 0, res_setown = 0, res_setfl = 0, res_setsig = 0,
     open_strerror = ''''\<rparr>"

definition plain_device :: EtherDevice where
  "plain_device = \<lparr>tanDevice = ''/dev/net/tun'', tanDeviceName = tun_device_name,
     dev_address = [0, 0, 0x5e, 0, 0x53, 1], networkInterfaces = [], selfPtr = None\<rparr>"

lemma open_all_or_nothing_witness:
  "case EtherDevice_open (all_opens\<lparr>res_setsig := -1\<rparr>) plain_device fresh_os of
     (Inr v, k') \<Rightarrow> False | (Inl e, k') \<Rightarrow> is_runtime_error e \<and> open_fds k' = {0, 1, 2}"
  using open_all_or_nothing [of "all_opens\<lparr>res_setsig := -1\<rparr>" fresh_os plain_device]
  by (simp add: EtherDevice_open_def all_opens_def fresh_os_def bindM_apply)

text \<open>
  C35. Asking for the hardware address: on success it is the first six bytes the kernel gave and no
  descriptor is left behind; when the request fails, the descriptor that is closed is the device's,
  and the socket stays open.
\<close>

theorem failed_fetch_closes_device:
  assumes "dev_fd k \<in> open_fds k" "res_socket res \<notin> open_fds k"
    and "length (hw_data res) = 14" "length address = 6"
  shows "case fetchMacAddress res dev address k of
      (Inr a, k') \<Rightarrow> a = take 6 (hw_data res) \<and> k' = k
    | (Inl e, k') \<Rightarrow> is_runtime_error e \<and> dev_fd k' = dev_fd k \<and> dev_fd k \<notin> open_fds k' \<and>
        (res_socket res \<noteq> -1 \<longrightarrow> res_socket res \<in> open_fds k')"
proof -
  obtain s where s: "addressToString (take 6 (hw_data res)) = Inr s"
    using addressToString_total [of "take 6 (hw_data res)"] assms by auto
  have "dev_fd k \<noteq> res_socket res" using assms by auto
  then show ?thesis
    using assms by (auto simp: fetchMacAddress_def bindM_apply copy_address s close_fd_def)
qed

definition refused_fetch :: fetch_results where
  "refused_fetch = \<lparr>res_socket = 4, res_gethwaddr = -1, hw_data = replicate 14 0, fetch_strerror = ''''\<rparr>"

lemma failed_fetch_closes_device_witness:
  "case fetchMacAddress refused_fetch plain_device (replicate 6 0) (fresh_os\<lparr>open_fds := {0, 1, 2, 3}, dev_fd := 3\<rparr>) of
     (Inr a, k') \<Rightarrow> False | (Inl e, k') \<Rightarrow> 3 \<notin> open_fds k' \<and> 4 \<in> open_fds k'"
  using failed_fetch_closes_device [of "fresh_os\<lparr>open_fds := {0, 1, 2, 3}, dev_fd := 3\<rparr>" refused_fetch "replicate 6 0" plain_device]
  by (simp add: fetchMacAddress_def refused_fetch_def fresh_os_def bindM_apply split: prod.splits)

end
