(* ===== verification/MainLoop.thy ===== *)
theory MainLoop
  imports Pipeline DeviceSetup
begin

unbundle bit_operations_syntax

text \<open>
  main.cpp: the tables the program sets up before it starts the interrupt thread, the socket it
  binds, and the loop that sends every datagram back where it came from.
\<close>

section \<open>Setup\<close>

definition tun_device :: string where "tun_device = ''/dev/net/tun''"
definition tun_ip :: "u32 result" where "tun_ip = Ipv4strToUint32 ''192.0.2.1''"

text \<open>The global variables before \<open>main\<close>; \<open>garbage\<close> is what the uninitialised endpoints hold.\<close>

definition boot :: "IpEndpoint \<Rightarrow> world" where
  "boot garbage = \<lparr>protocolQueues = [], protocolHandlers = (\<lambda>_. None), ipHandlers = (\<lambda>_. None),
     eventHandlers = [], arpCache = [], routeTable = [], ipGenId = ip_gen_id_start,
     udpPcbs = UdpPcbManager_new garbage, devices = [], written = [], pending = []\<rparr>"

definition protocolQueueInit :: "world \<Rightarrow> world" where
  "protocolQueueInit w =
     (let w = w\<lparr>protocolQueues := map_insert arpType [] (protocolQueues w)\<rparr>;
          w = w\<lparr>protocolHandlers := (protocolHandlers w)(arpType \<mapsto> ArpProtocolHandler)\<rparr>;
          w = w\<lparr>protocolQueues := map_insert ipType [] (protocolQueues w)\<rparr>;
          w = w\<lparr>protocolHandlers := (protocolHandlers w)(ipType \<mapsto> Ipv4ProtocolHandler)\<rparr>
      in w\<lparr>eventHandlers := eventHandlers w @ [UdpEventHandler]\<rparr>)"

definition ipProtocolInit :: "world \<Rightarrow> world" where
  "ipProtocolInit w =
     (let w = w\<lparr>ipHandlers := (ipHandlers w)(ICMP_TYPE \<mapsto> IcmpHandler)\<rparr>
      in w\<lparr>ipHandlers := (ipHandlers w)(UDP_TYPE \<mapsto> UdpHandler)\<rparr>)"

text \<open>The results of the system calls that \<open>main\<close> makes before its loop.\<close>

record environment =
  env_pipe1 :: pipe
  env_pipe2 :: pipe
  env_pipe3 :: pipe
  env_open :: open_results
  env_fetch :: fetch_results
  env_sigmask :: int
  env_sigmask_strerror :: string

definition afterE :: "'a result \<times> 's \<Rightarrow> ('a \<Rightarrow> 's \<Rightarrow> 'b result) \<Rightarrow> 'b result" where
  "afterE rs f = (case rs of (Inl e, _) \<Rightarrow> Inl e | (Inr a, s) \<Rightarrow> f a s)"

lemma afterE_simps [simp]: "afterE (Inl e, s) f = Inl e" "afterE (Inr a, s) f = f a s"
  by (simp_all add: afterE_def)

text \<open>
  \<open>main\<close> up to the loop.  The address fetched is not used, and the result of \<open>bind\<close> is not looked at.
  The two texts that are printed before the thread starts are formatted, so they are computed here.
\<close>

definition main_setup ::
  "environment \<Rightarrow> os_state \<Rightarrow> world \<Rightarrow> (Interrupt \<times> UdpSocket \<times> os_state \<times> world) result" where
  "main_setup env k w =
     bindE tun_ip (\<lambda>gateway.
     afterE (setupTunDevice (env_pipe1 env) (env_pipe2 env) (env_pipe3 env) k) (\<lambda>_ k.
     let w = ipProtocolInit (protocolQueueInit w) in
     bindE (EtherDevice_new tun_device tun_device_name ''00:00:5e:00:53:01'') (\<lambda>dev.
     afterE (EtherDevice_open (env_open env) dev k) (\<lambda>_ k.
     afterE (fetchMacAddress (env_fetch env) dev (replicate 6 0) k) (\<lambda>_ k.
     let dev = setSelfPtr dev (Some 0) in
     bindE (IpNetworkInterface_new INTERFACE_FAMILY_IP ''192.0.2.2'' ''255.255.255.0'') (\<lambda>iface.
     let iface = registerDevice iface (Some 0);
         dev = addNetworkInterface dev (IpInterface iface);
         w = w\<lparr>devices := [dev]\<rparr>;
         w = w\<lparr>routeTable := route_add (routeTable w)
                \<lparr>route_network = IP_ADDR_ANY, route_mask = IP_ADDR_ANY, route_gateway = gateway,
                 route_interface = iface\<rparr>\<rparr>
     in
     bindE (addressToString (dev_address dev)) (\<lambda>_.
     let intr = addDevice Interrupt_init w 0 in
     afterE (Interrupt_run (env_sigmask env) (env_sigmask_strerror env) intr w) (\<lambda>_ w.
     afterE (udp_open w) (\<lambda>sock w.
     case sock of
       Inl _ \<Rightarrow> Inl (RuntimeError ''socket error'')
     | Inr s \<Rightarrow> afterE (udp_bind s ''192.0.2.2'' 5555 w) (\<lambda>_ w. Inr (intr, s, k, w)))))))))))"

section \<open>The loop\<close>

text \<open>
  One iteration: \<open>None\<close> is waiting in \<open>recvFrom\<close>.  A runtime error is caught and logged; anything else
  leaves the loop.  The two uninitialised variables and the storage read after the pop are
  parameters.
\<close>

definition catch_runtime :: "unit result \<times> world \<Rightarrow> unit result \<times> world" where
  "catch_runtime rw =
     (case rw of
        (Inl e, w) \<Rightarrow> if is_runtime_error e then (Inr (), w) else (Inl e, w)
      | (Inr _, w) \<Rightarrow> (Inr (), w))"

definition echo_body :: "UdpSocket \<Rightarrow> recv_out \<Rightarrow> (world, unit) eff" where
  "echo_body sock out =
     (if r_len out = -1 then retM ()
      else
        let buffer = vec_resize (r_buf out) (nat (r_len out)) 0 in
        bindM (liftM (vec_read_loop buffer 0 (nat (r_len out)))) (\<lambda>str.
        bindM (sendTo sock buffer (Uint32ToIpv4str (r_ipv4 out)) (ucast (r_port out))) (\<lambda>_.
        retM ())))"

definition main_iteration ::
  "(UdpPcbPayload \<Rightarrow> UdpPcbPayload) \<Rightarrow> u32 \<Rightarrow> u16 \<Rightarrow> UdpSocket \<Rightarrow> world \<Rightarrow> (unit result \<times> world) option" where
  "main_iteration stale ip0 port0 sock w =
     (case recvFrom stale sock (replicate 10000 0) ip0 port0 w of
        None \<Rightarrow> None
      | Some (Inl e, w') \<Rightarrow> Some (catch_runtime (Inl e, w'))
      | Some (Inr out, w') \<Rightarrow> Some (catch_runtime (echo_body sock out w')))"

text \<open>\<open>on_signal\<close>, with the variable it sets.\<close>

definition on_signal :: "int \<times> world \<Rightarrow> int \<times> world" where
  "on_signal tw = (case tw of (_, w) \<Rightarrow> (1, w\<lparr>pending := raise_signal SIGUSR2 (pending w)\<rparr>))"

definition shutdown :: "world \<Rightarrow> world" where
  "shutdown w = w\<lparr>pending := raise_signal SIGHUP (pending w)\<rparr>"

section \<open>What the setup yields\<close>

definition main_device :: EtherDevice where
  "main_device = \<lparr>tanDevice = tun_device, tanDeviceName = tun_device_name,
     dev_address = [0x00, 0x00, 0x5e, 0x00, 0x53, 0x01],
     networkInterfaces = [IpInterface \<lparr>if_family = 1, unicast = 0xC0000202, broadcast = 0xC00002FF,
        netmask = 0xFFFFFF00, if_devicePtr = Some 0\<rparr>], selfPtr = Some 0\<rparr>"

definition main_interface :: IpNetworkInterface where
  "main_interface = \<lparr>if_family = 1, unicast = 0xC0000202, broadcast = 0xC00002FF,
     netmask = 0xFFFFFF00, if_devicePtr = Some 0\<rparr>"

definition main_route :: Route where
  "main_route = \<lparr>route_network = 0, route_mask = 0, route_gateway = 0xC0000201, route_interface = main_interface\<rparr>"

text \<open>The texts in main.cpp are what the printers give for these values, so parsing gives the values.\<close>

lemma main_texts:
  "Uint32ToIpv4str 0xC0000201 = ''192.0.2.1''"
  "Uint32ToIpv4str 0xC0000202 = ''192.0.2.2''"
  "Uint32ToIpv4str 0xFFFFFF00 = ''255.255.255.0''"
  by (simp_all add: Uint32ToIpv4str_def fmt_dec_def nat_str.simps digit_char_def char_of_def bit_0 and_255 unsigned_take_bit_eq
      drop_bit_eq_div take_bit_eq_mod)

lemma main_addresses:
  "Ipv4strToUint32 ''192.0.2.1'' = Inr 0xC0000201"
  "Ipv4strToUint32 ''192.0.2.2'' = Inr 0xC0000202"
  "Ipv4strToUint32 ''255.255.255.0'' = Inr 0xFFFFFF00"
  using ipv4_text_inverse [of "0xC0000201"] ipv4_text_inverse [of "0xC0000202"] ipv4_text_inverse [of "0xFFFFFF00"]
  by (simp_all only: main_texts)

lemma main_mac_text: "addressToString [0x00, 0x00, 0x5e, 0x00, 0x53, 0x01] = Inr ''00:00:5e:00:53:01''"
  by (simp add: addressToString_def vec_at_def hex2_def fmt_hex_def nat_str.simps digit_char_def char_of_def bit_0)

lemma main_mac: "stringToAddress ''00:00:5e:00:53:01'' = Inr [0x00, 0x00, 0x5e, 0x00, 0x53, 0x01]"
  using mac_text_inverse [of "[0x00, 0x00, 0x5e, 0x00, 0x53, 0x01]"] unfolding main_mac_text by simp

definition main_world :: "IpEndpoint \<Rightarrow> world" where
  "main_world g = \<lparr>protocolQueues = [(ipType, []), (arpType, [])],
     protocolHandlers = [ipType \<mapsto> Ipv4ProtocolHandler, arpType \<mapsto> ArpProtocolHandler],
     ipHandlers = [ICMP_TYPE \<mapsto> IcmpHandler, UDP_TYPE \<mapsto> UdpHandler],
     eventHandlers = [UdpEventHandler], arpCache = [], routeTable = [main_route], ipGenId = 128,
     udpPcbs = \<lparr>pcb_id = 0, state = OPEN, que = [], endpoint = \<lparr>addr = 0xC0000202, port = 5555\<rparr>,
                interrupted = 0\<rparr> # replicate 99 (UdpControlBlock_new g),
     devices = [main_device], written = [], pending = []\<rparr>"

definition main_interrupt :: Interrupt where
  "main_interrupt = \<lparr>sigmask = {ETHER_TAN_IRQ, SIGHUP, SIGUSR1, SIGUSR2}, inputDevices = [0]\<rparr>"

lemma main_interface_new:
  "IpNetworkInterface_new INTERFACE_FAMILY_IP ''192.0.2.2'' ''255.255.255.0'' =
     Inr (main_interface\<lparr>if_devicePtr := None\<rparr>)"
  by (simp add: IpNetworkInterface_new_def main_addresses main_interface_def INTERFACE_FAMILY_IP_def)

lemma main_open:
  assumes "udpPcbs w = UdpPcbManager_new g"
  shows "udp_open w = (Inr (Inr \<lparr>sock_id = 0, sock_pcbId = 0\<rparr>),
    w\<lparr>udpPcbs := opened 0 (UdpControlBlock_new g) # replicate 99 (UdpControlBlock_new g)\<rparr>)"
proof -
  have "UdpPcbManager_new g = UdpControlBlock_new g # replicate 99 (UdpControlBlock_new g)"
    by (simp add: UdpPcbManager_new_def eval_nat_numeral)
  then have "pcb_alloc (udpPcbs w) = (Some 0, opened 0 (UdpControlBlock_new g) # replicate 99 (UdpControlBlock_new g))"
    using assms by (simp add: pcb_alloc_def UdpControlBlock_new_def)
  then show ?thesis by (simp add: udp_open_def opened_def)
qed

lemma main_bind:
  assumes "udpPcbs w = opened 0 (UdpControlBlock_new g) # replicate 99 (UdpControlBlock_new g)"
  shows "udp_bind \<lparr>sock_id = 0, sock_pcbId = 0\<rparr> ''192.0.2.2'' 5555 w =
    (Inr (Inr 0), w\<lparr>udpPcbs := (opened 0 (UdpControlBlock_new g))\<lparr>endpoint := \<lparr>addr = 0xC0000202, port = 5555\<rparr>\<rparr>
                      # replicate 99 (UdpControlBlock_new g)\<rparr>)"
proof -
  have "pcb_select (udpPcbs w) 0xC0000202 5555 = None"
    by (auto simp: assms pcb_select_None_iff matches_def opened_def UdpControlBlock_new_def)
  moreover have "socket_block \<lparr>sock_id = 0, sock_pcbId = 0\<rparr> w 0"
    by (simp add: socket_block_def assms opened_def)
  ultimately show ?thesis
    using udp_bind_free [OF main_addresses(2)] by (simp add: assms pcb_set_endpoint_def)
qed

text \<open>The device before it gets its interface, as the operating system is told about it.\<close>

definition bare_device :: EtherDevice where
  "bare_device = main_device\<lparr>networkInterfaces := [], selfPtr := None\<rparr>"

lemma main_device_new: "EtherDevice_new tun_device tun_device_name ''00:00:5e:00:53:01'' = Inr bare_device"
  by (simp only: EtherDevice_new_def main_mac bindE_simps) (simp add: main_device_def bare_device_def)

lemma main_run:
  assumes "devices w = d # ds" "EtherDevice_getInfo d = Inr text"
  shows "Interrupt_run err strerr main_interrupt w =
     (if err \<noteq> 0 then (Inl (RuntimeError (''erropthread_sigmask '' @ strerr)), w) else (Inr (), w))"
  using assms by (simp add: Interrupt_run_def main_interrupt_def deref_device_def bindM_apply)

lemma main_setup_result:
  "main_setup env k (boot g) =
     afterE (setupTunDevice (env_pipe1 env) (env_pipe2 env) (env_pipe3 env) k) (\<lambda>_ k.
     afterE (EtherDevice_open (env_open env) bare_device k) (\<lambda>_ k.
     afterE (fetchMacAddress (env_fetch env) bare_device (replicate 6 0) k) (\<lambda>_ k.
     if env_sigmask env \<noteq> 0
     then Inl (RuntimeError (''erropthread_sigmask '' @ env_sigmask_strerror env))
     else Inr (main_interrupt, \<lparr>sock_id = 0, sock_pcbId = 0\<rparr>, k, main_world g))))"
proof -
  obtain a where a: "addressToString [0x00, 0x00, 0x5e, 0x00, 0x53, 0x01] = Inr a"
    by (simp add: addressToString_def vec_at_def)
  have lt: "ipType < arpType" by (simp add: ipType_def arpType_def)
  have swap: "[arpType \<mapsto> ArpProtocolHandler, ipType \<mapsto> Ipv4ProtocolHandler] =
      [ipType \<mapsto> Ipv4ProtocolHandler, arpType \<mapsto> ArpProtocolHandler]"
    by (rule fun_upd_twist) simp
  have intr: "addDevice Interrupt_init w 0 = main_interrupt" for w
    by (simp add: main_interrupt_def addDevice_def Interrupt_init_def getIrq_def)
  show ?thesis
    unfolding main_setup_def tun_ip_def main_addresses main_device_new main_interface_new bindE_simps Let_def intr
    by (rule arg_cong2 [where f = afterE], rule refl, rule ext, rule ext,
        rule arg_cong2 [where f = afterE], rule refl, rule ext, rule ext,
        rule arg_cong2 [where f = afterE], rule refl, rule ext, rule ext)
      (simp add: a bare_device_def main_device_def setSelfPtr_def addNetworkInterface_def registerDevice_def
        main_interface_def route_add_def boot_def protocolQueueInit_def ipProtocolInit_def Let_def lt swap
        main_open main_bind main_run EtherDevice_getInfo_def main_world_def main_route_def IP_ADDR_ANY_def
        ip_gen_id_start_def opened_def UdpControlBlock_new_def)
qed

lemma main_configured: "configured main_interrupt (main_world g) main_device main_interface main_route"
  by (simp add: configured_def main_interrupt_def main_world_def main_device_def main_interface_def main_route_def
      INTERFACE_FAMILY_IP_def)

lemma main_idle: "idle (main_world g)"
  by (simp add: idle_def main_world_def)

section \<open>What an iteration does\<close>

lemma ucast_port [simp]: "ucast (ucast (p :: u16) :: u32) = p"
  by (rule bit_word_eqI) (simp add: bit_simps)

lemma resize_front: "vec_resize (xs @ ys) (length xs) v = xs"
  by (simp add: vec_resize_def)

text \<open>A datagram that waits is sent back to where it came from, over the socket's own endpoint.\<close>

lemma main_iteration_echo:
  assumes sock: "socket_block sock w i" and q: "que (udpPcbs w ! i) = pl # rest" "interrupted (udpPcbs w ! i) = 0"
    and len: "length (pl_data pl) \<le> 10000" and stale: "stale pl = pl"
    and bound: "addr (endpoint (udpPcbs w ! i)) \<noteq> IP_ADDR_ANY" "port (endpoint (udpPcbs w ! i)) \<noteq> 0"
  shows "main_iteration stale ip0 port0 sock w =
    Some (catch_runtime
      (bindM (udp_output (endpoint (udpPcbs w ! i)) (pl_endpoint pl) (pl_data pl)) (\<lambda>_. retM ())
        (w\<lparr>udpPcbs := pcb_pop (udpPcbs w) i\<rparr>)))"
proof -
  let ?w = "w\<lparr>udpPcbs := pcb_pop (udpPcbs w) i\<rparr>"
  have i: "i < length (udpPcbs w)" using sock by (simp add: socket_block_def)
  then have blk: "socket_block sock ?w i" "endpoint (udpPcbs ?w ! i) = endpoint (udpPcbs w ! i)"
    using sock by (simp_all add: socket_block_def pcb_pop_def)
  have send: "sendTo sock (pl_data pl) (Uint32ToIpv4str (addr (pl_endpoint pl))) (ucast (port (pl_endpoint pl))) ?w =
      udp_output (endpoint (udpPcbs w ! i)) (pl_endpoint pl) (pl_data pl) ?w"
    using sendTo_bound [OF ipv4_text_inverse blk(1)] bound blk(2) by simp
  have "echo_body sock \<lparr>r_len = int (length (pl_data pl)),
        r_buf = pl_data pl @ drop (length (pl_data pl)) (replicate 10000 0),
        r_ipv4 = addr (pl_endpoint pl), r_port = port (pl_endpoint pl)\<rparr> ?w =
      bindM (udp_output (endpoint (udpPcbs w ! i)) (pl_endpoint pl) (pl_data pl)) (\<lambda>_. retM ()) ?w"
    using send by (simp add: echo_body_def Let_def resize_front vec_read_loop_in bindM_apply)
  then show ?thesis
    using recvFrom_front [OF sock q, of "replicate 10000 0" stale ip0 port0] len stale
    by (simp add: main_iteration_def)
qed

text \<open>The frame with the echo, and an iteration that writes it.\<close>

definition echo_frame :: "EtherDevice \<Rightarrow> bytes \<Rightarrow> u16 \<Rightarrow> IpEndpoint \<Rightarrow> IpEndpoint \<Rightarrow> bytes \<Rightarrow> bytes" where
  "echo_frame dev mac ident s d data =
     ip_frame dev mac (ip_layout (out_header UDP_TYPE (8 + length data) ident (addr s) (addr d))
                         (udp_layout (udp_out_header s d data) data))"

lemma main_loop_echoes:
  assumes cfg: "configured intr w dev iface route"
    and sock: "socket_block sock w i" "endpoint (udpPcbs w ! i) = ep" "addr ep = unicast iface"
    and bound: "unicast iface \<noteq> IP_ADDR_ANY" "port ep \<noteq> 0"
    and q: "que (udpPcbs w ! i) = pl # rest" "interrupted (udpPcbs w ! i) = 0"
    and len: "length (pl_data pl) \<le> 10000" "even (length (pl_data pl))" and stale: "stale pl = pl"
    and arp: "cache_select (arpCache w) (route_gateway route) = Some c" "length (hardwareAddress c) = 6"
  shows "main_iteration stale ip0 port0 sock w =
    Some (Inr (), w\<lparr>udpPcbs := pcb_pop (udpPcbs w) i, ipGenId := ipGenId w + 1,
      written := written w @
        [(0, echo_frame dev (hardwareAddress c) (ipGenId w) ep (pl_endpoint pl) (pl_data pl))]\<rparr>)"
proof -
  let ?v = "w\<lparr>udpPcbs := pcb_pop (udpPcbs w) i\<rparr>"
  let ?m = "udp_layout (udp_out_header ep (pl_endpoint pl) (pl_data pl)) (pl_data pl)"
  have "routed ?v 0 dev route" using configured_facts(4) [OF cfg] by simp
  moreover have "source_allowed (addr ep) (addr (pl_endpoint pl)) route"
    using configured_source [OF cfg bound(1)] sock by simp
  ultimately have "ipv4_output UDP_TYPE ?m (addr ep) (addr (pl_endpoint pl)) ?v =
    (Inr 0, w\<lparr>udpPcbs := pcb_pop (udpPcbs w) i, ipGenId := ipGenId w + 1, written := written w @
        [(0, echo_frame dev (hardwareAddress c) (ipGenId w) ep (pl_endpoint pl) (pl_data pl))]\<rparr>)"
    using ipv4_output_sent [of ?v 0 dev route "addr ep" "addr (pl_endpoint pl)" ?m c UDP_TYPE] arp len
    by (simp add: echo_frame_def del: of_nat_add)
  moreover have "udp_output ep (pl_endpoint pl) (pl_data pl) =
      ipv4_output UDP_TYPE ?m (addr ep) (addr (pl_endpoint pl))"
    using len by (intro udp_output_layout) simp_all
  moreover have "main_iteration stale ip0 port0 sock w =
      Some (catch_runtime (bindM (udp_output ep (pl_endpoint pl) (pl_data pl)) (\<lambda>_. retM ()) ?v))"
    using main_iteration_echo [where stale = stale, OF sock(1) q len(1) _, of ip0 port0] stale sock bound
    by simp
  ultimately show ?thesis by (simp add: bindM_apply catch_runtime_def)
qed

text \<open>A payload longer than the buffer is written past its end.\<close>

lemma main_iteration_overflow:
  assumes "socket_block sock w i" "que (udpPcbs w ! i) = pl # rest" "interrupted (udpPcbs w ! i) = 0"
    and "10000 < length (pl_data pl)"
  shows "main_iteration stale ip0 port0 sock w = Some (Inl (Undefined OutOfBounds), w)"
  using recvFrom_overflow [OF assms(1-3), of "replicate 10000 0" stale ip0 port0] assms(4)
  by (simp add: main_iteration_def catch_runtime_def)

lemma main_iteration_waits:
  assumes "socket_block sock w i"
  shows "main_iteration stale ip0 port0 sock w = None \<longleftrightarrow>
    que (udpPcbs w ! i) = [] \<and> interrupted (udpPcbs w ! i) \<noteq> 1"
  using recvFrom_waits_iff [OF assms, of stale "replicate 10000 0" ip0 port0]
  by (auto simp: main_iteration_def split: option.split sum.split)

lemma main_iteration_interrupted:
  assumes "socket_block sock w i" "interrupted (udpPcbs w ! i) = 1"
  shows "main_iteration stale ip0 port0 sock w = Some (Inr (), w)"
  using assms by (simp add: main_iteration_def recvFrom_interrupted echo_body_def catch_runtime_def)

text \<open>No runtime error leaves an iteration.\<close>

lemma main_iteration_catches:
  "main_iteration stale ip0 port0 sock w = Some (Inl e, w') \<Longrightarrow> \<not> is_runtime_error e"
  by (auto simp: main_iteration_def catch_runtime_def split: option.splits sum.splits if_splits prod.splits)

section \<open>Properties\<close>

text \<open>
  C36. Only the operating system can keep the setup of \<open>main\<close> from succeeding: its failures end
  \<open>main\<close> with their exceptions, in the order of the calls; without them, whatever the uninitialised
  endpoints hold, the system is configured and idle, the thread waits for the device's signal, and
  the first block of the table is the server's, bound to port 5555 of the interface's address.
\<close>

theorem main_setup_configures:
  "main_setup env k (boot g) =
     afterE (setupTunDevice (env_pipe1 env) (env_pipe2 env) (env_pipe3 env) k) (\<lambda>_ k.
     afterE (EtherDevice_open (env_open env) bare_device k) (\<lambda>_ k.
     afterE (fetchMacAddress (env_fetch env) bare_device (replicate 6 0) k) (\<lambda>_ k.
     if env_sigmask env \<noteq> 0
     then Inl (RuntimeError (''erropthread_sigmask '' @ env_sigmask_strerror env))
     else Inr (main_interrupt, \<lparr>sock_id = 0, sock_pcbId = 0\<rparr>, k, main_world g)))) \<and>
   configured main_interrupt (main_world g) main_device main_interface main_route \<and> idle (main_world g) \<and>
   getIrq main_device \<in> sigmask main_interrupt \<and>
   socket_block \<lparr>sock_id = 0, sock_pcbId = 0\<rparr> (main_world g) 0 \<and>
   pcb_select (udpPcbs (main_world g)) (unicast main_interface) 5555 = Some 0"
proof -
  have "socket_block \<lparr>sock_id = 0, sock_pcbId = 0\<rparr> (main_world g) 0"
    by (simp add: socket_block_def main_world_def)
  moreover have "pcb_select (udpPcbs (main_world g)) (unicast main_interface) 5555 = Some 0"
    by (simp add: main_world_def main_interface_def pcb_select_Some_iff matches_def)
  moreover have "getIrq main_device \<in> sigmask main_interrupt"
    by (simp add: getIrq_def main_interrupt_def)
  ultimately show ?thesis using main_setup_result main_configured main_idle by blast
qed

text \<open>
  C39. What can leave the loop of \<open>main\<close>: no runtime error does; a datagram whose length field makes
  its payload longer than the buffer of 10000 bytes is copied past the buffer's end.
\<close>

theorem main_loop_errors:
  assumes "socket_block sock w i"
  shows "(\<forall>e w'. main_iteration stale ip0 port0 sock w = Some (Inl e, w') \<longrightarrow> \<not> is_runtime_error e) \<and>
    (\<forall>pl rest. que (udpPcbs w ! i) = pl # rest \<longrightarrow> interrupted (udpPcbs w ! i) = 0 \<longrightarrow> 10000 < length (pl_data pl) \<longrightarrow>
       main_iteration stale ip0 port0 sock w = Some (Inl (Undefined OutOfBounds), w))"
  using main_iteration_catches main_iteration_overflow [OF assms] by blast

definition flooded_world :: world where
  "flooded_world = (main_world \<lparr>addr = 0, port = 0\<rparr>)\<lparr>udpPcbs :=
     pcb_push (udpPcbs (main_world \<lparr>addr = 0, port = 0\<rparr>)) 0
       \<lparr>pl_data = replicate 65535 0, pl_endpoint = \<lparr>addr = 0xC0000201, port = 4000\<rparr>\<rparr>\<rparr>"

theorem main_loop_errors_witness:
  "main_iteration id 0 0 \<lparr>sock_id = 0, sock_pcbId = 0\<rparr> flooded_world = Some (Inl (Undefined OutOfBounds), flooded_world)"
proof -
  have "socket_block \<lparr>sock_id = 0, sock_pcbId = 0\<rparr> flooded_world 0"
    "que (udpPcbs flooded_world ! 0) =
       [\<lparr>pl_data = replicate 65535 0, pl_endpoint = \<lparr>addr = 0xC0000201, port = 4000\<rparr>\<rparr>]"
    "interrupted (udpPcbs flooded_world ! 0) = 0"
    by (simp_all add: flooded_world_def main_world_def socket_block_def pcb_push_def)
  then show ?thesis using main_loop_errors [of "\<lparr>sock_id = 0, sock_pcbId = 0\<rparr>" flooded_world 0 id 0 0] by simp
qed

section \<open>The flag stays\<close>

text \<open>An open block that has been interrupted: no operation on the table takes that back.\<close>

definition interrupted_block :: "nat \<Rightarrow> pcb_table \<Rightarrow> bool" where
  "interrupted_block i pcbs \<longleftrightarrow> i < length pcbs \<and> state (pcbs ! i) = OPEN \<and> interrupted (pcbs ! i) = 1"

interpretation stopped: table_invariant "interrupted_block i" for i
proof unfold_locales
  fix pcbs assume "interrupted_block i pcbs"
  then show "interrupted_block i (snd (pcb_alloc pcbs))"
    using first_free_is_free [of pcbs] by (auto simp: interrupted_block_def pcb_alloc_eq nth_update_in)
qed (auto simp: interrupted_block_def pcb_push_def pcb_pop_def pcb_set_endpoint_def interruptAll_def nth_update_in)

text \<open>
  C40. Nothing clears the flag \<open>interrupted\<close>: once it is set for an open socket, then whatever
  signals, frames and socket calls follow, every further iteration of \<open>main\<close> comes back at once
  without having looked at the queue.  An event that \<open>on_signal\<close> did not raise leaves the loop spinning.
\<close>

theorem interrupted_for_good:
  assumes "reachable intr s0 s" "socket_block sock (sys_world s0) i" "interrupted (udpPcbs (sys_world s0) ! i) = 1"
  shows "main_iteration stale ip0 port0 sock (sys_world s) = Some (Inr (), sys_world s)"
proof -
  have "interrupted_block i (udpPcbs (sys_world s0))"
    using assms(2,3) by (simp add: interrupted_block_def socket_block_def)
  then have "interrupted_block i (udpPcbs (sys_world s))"
    using stopped.reachable_keeps [OF assms(1)] by (simp add: stopped.holds_def)
  then have "socket_block sock (sys_world s) i" "interrupted (udpPcbs (sys_world s) ! i) = 1"
    using assms(2) by (simp_all add: interrupted_block_def socket_block_def)
  then show ?thesis by (rule main_iteration_interrupted)
qed

definition interrupted_system :: system where
  "interrupted_system = \<lparr>sys_world = (main_world \<lparr>addr = 7, port = 7\<rparr>)\<lparr>udpPcbs :=
     interruptAll (udpPcbs (main_world \<lparr>addr = 7, port = 7\<rparr>))\<rparr>, sys_rx = (\<lambda>_. []), sys_thread = Waiting\<rparr>"

lemma interrupted_for_good_witness:
  "main_iteration id 0 0 \<lparr>sock_id = 0, sock_pcbId = 0\<rparr> (sys_world (arrival 0 (Some [1]) interrupted_system)) =
     Some (Inr (), sys_world (arrival 0 (Some [1]) interrupted_system))"
proof (rule interrupted_for_good [where i = 0])
  have "step main_interrupt interrupted_system (arrival 0 (Some [1]) interrupted_system)"
    by (rule frame) (simp add: interrupted_system_def)
  then show "reachable main_interrupt interrupted_system (arrival 0 (Some [1]) interrupted_system)"
    by (meson reachable.intros)
qed (simp_all add: interrupted_system_def socket_block_def main_world_def interruptAll_def)

section \<open>The end of the program\<close>

text \<open>
  A termination signal ends the program.  The handler sets \<open>terminate\<close> and raises the signal for
  events; the interrupt thread takes it and interrupts every open socket; the iteration of \<open>main\<close>
  that waited comes back without having sent anything, the loop ends, and after \<open>shutdown\<close> the
  interrupt thread leaves its loop, so that the \<open>join\<close> returns.
\<close>

theorem termination_signal_ends_program:
  assumes "configured intr w dev iface route" "idle w" "socket_block sock w i"
  shows "\<exists>v. fst (on_signal (t, w)) = 1 \<and>
    reachable intr (idle_system (snd (on_signal (t, w)))) (idle_system v) \<and>
    main_iteration stale ip0 port0 sock v = Some (Inr (), v) \<and> written v = written w \<and>
    reachable intr (idle_system (shutdown v)) \<lparr>sys_world = v, sys_rx = (\<lambda>_. []), sys_thread = Exited\<rparr>"
proof -
  let ?v = "w\<lparr>udpPcbs := interruptAll (udpPcbs w)\<rparr>"
  have p: "pending w = []" using assms(2) by (simp add: idle_def)
  have m: "SIGUSR2 \<in> sigmask intr" "SIGHUP \<in> sigmask intr" using assms(1) by (auto simp: configured_def)
  have taken: "take_signal SIGUSR2 (w\<lparr>pending := [SIGUSR2]\<rparr>) = w" "take_signal SIGHUP (?v\<lparr>pending := [SIGHUP]\<rparr>) = ?v"
    using p by (simp_all add: take_signal_def)
  have raised: "snd (on_signal (t, w)) = w\<lparr>pending := [SIGUSR2]\<rparr>" "shutdown ?v = ?v\<lparr>pending := [SIGHUP]\<rparr>"
    using p by (simp_all add: on_signal_def shutdown_def raise_signal_def)
  have "dispatch intr SIGUSR2 (w, \<lambda>_. []) = (Inr False, (?v, \<lambda>_. []))"
    using assms(1) by (simp add: configured_def handleEventSignal_def udp_event_handle_def on_world_def bindM_apply)
  then have "step intr (idle_system (snd (on_signal (t, w)))) (idle_system ?v)"
    using wake [of "idle_system (w\<lparr>pending := [SIGUSR2]\<rparr>)" SIGUSR2 intr "Inr False" ?v "\<lambda>_. []"] m taken raised
    by (simp add: idle_system_def)
  moreover have "step intr (idle_system (shutdown ?v)) \<lparr>sys_world = ?v, sys_rx = (\<lambda>_. []), sys_thread = Exited\<rparr>"
    using wake [of "idle_system (?v\<lparr>pending := [SIGHUP]\<rparr>)" SIGHUP intr "Inr True" ?v "\<lambda>_. []"] m taken raised
    by (simp add: idle_system_def)
  moreover have "socket_block sock ?v i" "interrupted (udpPcbs ?v ! i) = 1"
    using assms(3) by (auto simp: socket_block_def interruptAll_def)
  then have "main_iteration stale ip0 port0 sock ?v = Some (Inr (), ?v)" by (rule main_iteration_interrupted)
  moreover have "fst (on_signal (t, w)) = 1" by (simp add: on_signal_def)
  ultimately show ?thesis
    by (intro exI [of _ ?v]) (auto intro: reachable.intros)
qed

lemma termination_signal_ends_program_witness:
  "\<exists>v. reachable main_interrupt (idle_system (snd (on_signal (0, main_world \<lparr>addr = 7, port = 7\<rparr>)))) (idle_system v) \<and>
    main_iteration id 0 0 \<lparr>sock_id = 0, sock_pcbId = 0\<rparr> v = Some (Inr (), v)"
proof -
  have "socket_block \<lparr>sock_id = 0, sock_pcbId = 0\<rparr> (main_world \<lparr>addr = 7, port = 7\<rparr>) 0"
    by (simp add: socket_block_def main_world_def)
  from termination_signal_ends_program [OF main_configured main_idle this, of 0 id 0 0] show ?thesis by blast
qed

end
