(* ===== verification/CvWait.thy ===== *)
theory CvWait
  imports PcbTable
begin

text \<open>
  The meeting of three threads at one control block, at the grain of its mutex and its condition
  variable: the receiver in \<open>UdpSocket::recvFrom\<close>, the delivery in \<open>UdpHandler::handle\<close>, and
  \<open>UdpPcbManager::interruptAll\<close> (lib/Udp.cpp, lib/UdpControlBlock.cpp).  A delivery holds the mutex
  from before its push until after its notification.  The statement
  \<open>std::lock_guard<std::mutex>(elm.mutex);\<close> of \<open>interruptAll\<close> declares no variable: its temporary
  takes the mutex and gives it back at the end of the statement, so the assignment and the
  notification that follow are made without it.  Waking for no reason, which the standard allows, is
  left out: the statements are about what the notifications guarantee.
\<close>

section \<open>Threads\<close>

datatype holder = Free | ByReceiver | ByDelivery

text \<open>
  The receiver: before the lock, with it, past a predicate that was false but not yet asleep, asleep,
  woken and after the lock again, and returned.
\<close>

datatype receiver = RStart | RLocked | RChecked | RBlocked | RWoken | RDone
datatype delivery = DIdle | DLocked | DPushed | DNotified
datatype interrupter = IIdle | IPassed | ISet

record cv_state =
  block :: UdpControlBlock
  mutex :: holder
  rpc :: receiver
  dpc :: delivery
  ipc :: interrupter

definition ready :: "UdpControlBlock \<Rightarrow> bool" where
  "ready b \<longleftrightarrow> que b \<noteq> [] \<or> interrupted b = 1"

definition notify :: "receiver \<Rightarrow> receiver" where
  "notify r = (if r = RBlocked then RWoken else r)"

text \<open>What \<open>recvFrom\<close> does to the block once the predicate holds.\<close>

definition received :: "UdpControlBlock \<Rightarrow> UdpControlBlock" where
  "received b = (if interrupted b = 1 then b else b\<lparr>que := tl (que b)\<rparr>)"

inductive cv_step :: "cv_state \<Rightarrow> cv_state \<Rightarrow> bool" where
  r_lock: "rpc s = RStart \<or> rpc s = RWoken \<Longrightarrow> mutex s = Free \<Longrightarrow>
    cv_step s (s\<lparr>mutex := ByReceiver, rpc := RLocked\<rparr>)"
| r_return: "rpc s = RLocked \<Longrightarrow> ready (block s) \<Longrightarrow>
    cv_step s (s\<lparr>block := received (block s), mutex := Free, rpc := RDone\<rparr>)"
| r_check: "rpc s = RLocked \<Longrightarrow> \<not> ready (block s) \<Longrightarrow> cv_step s (s\<lparr>rpc := RChecked\<rparr>)"
| r_wait: "rpc s = RChecked \<Longrightarrow> cv_step s (s\<lparr>mutex := Free, rpc := RBlocked\<rparr>)"
| r_again: "rpc s = RDone \<Longrightarrow> cv_step s (s\<lparr>rpc := RStart\<rparr>)"
| d_lock: "dpc s = DIdle \<Longrightarrow> mutex s = Free \<Longrightarrow> cv_step s (s\<lparr>mutex := ByDelivery, dpc := DLocked\<rparr>)"
| d_push: "dpc s = DLocked \<Longrightarrow>
    cv_step s (s\<lparr>block := (block s)\<lparr>que := que (block s) @ [pl]\<rparr>, dpc := DPushed\<rparr>)"
| d_notify: "dpc s = DPushed \<Longrightarrow> cv_step s (s\<lparr>rpc := notify (rpc s), dpc := DNotified\<rparr>)"
| d_unlock: "dpc s = DNotified \<Longrightarrow> cv_step s (s\<lparr>mutex := Free, dpc := DIdle\<rparr>)"
| i_pass: "ipc s = IIdle \<Longrightarrow> mutex s = Free \<Longrightarrow> cv_step s (s\<lparr>ipc := IPassed\<rparr>)"
| i_set: "ipc s = IPassed \<Longrightarrow> cv_step s (s\<lparr>block := (block s)\<lparr>interrupted := 1\<rparr>, ipc := ISet\<rparr>)"
| i_notify: "ipc s = ISet \<Longrightarrow> cv_step s (s\<lparr>rpc := notify (rpc s), ipc := IIdle\<rparr>)"

inductive_cases cv_stepE: "cv_step s t"

definition cv_start :: "UdpControlBlock \<Rightarrow> cv_state" where
  "cv_start b = \<lparr>block = b, mutex = Free, rpc = RStart, dpc = DIdle, ipc = IIdle\<rparr>"

inductive cv_reachable :: "cv_state \<Rightarrow> cv_state \<Rightarrow> bool" for s0 where
  cv_init: "cv_reachable s0 s0"
| cv_next: "cv_reachable s0 s \<Longrightarrow> cv_step s t \<Longrightarrow> cv_reachable s0 t"

section \<open>Deliveries are not lost\<close>

definition cv_inv :: "cv_state \<Rightarrow> bool" where
  "cv_inv s \<longleftrightarrow>
     (mutex s = ByReceiver \<longleftrightarrow> rpc s \<in> {RLocked, RChecked}) \<and>
     (mutex s = ByDelivery \<longleftrightarrow> dpc s \<in> {DLocked, DPushed, DNotified}) \<and>
     (rpc s = RChecked \<longrightarrow> que (block s) = []) \<and>
     (rpc s = RBlocked \<longrightarrow> que (block s) = [] \<or> dpc s = DPushed)"

lemma cv_inv_start: "cv_inv (cv_start b)"
  by (simp add: cv_inv_def cv_start_def)

lemma cv_inv_step: "cv_step s t \<Longrightarrow> cv_inv s \<Longrightarrow> cv_inv t"
  by (erule cv_stepE) (auto simp: cv_inv_def notify_def ready_def split: if_splits)

lemma cv_inv_reachable: "cv_reachable s0 s \<Longrightarrow> cv_inv s0 \<Longrightarrow> cv_inv s"
  by (induction rule: cv_reachable.induct) (auto intro: cv_inv_step)

text \<open>Two threads are never inside the mutex together.\<close>

lemma cv_exclusion:
  "cv_inv s \<Longrightarrow> \<not> (rpc s \<in> {RLocked, RChecked} \<and> dpc s \<in> {DLocked, DPushed, DNotified})"
  by (cases "mutex s") (auto simp: cv_inv_def)

section \<open>Interrupts can be\<close>

text \<open>
  The run in which the interrupt falls between the receiver's test and its sleep.
\<close>

lemma lost_interrupt_run:
  assumes "que b = []" "interrupted b = 0"
  shows "cv_reachable (cv_start b)
    \<lparr>block = b\<lparr>interrupted := 1\<rparr>, mutex = Free, rpc = RBlocked, dpc = DIdle, ipc = IIdle\<rparr>"
proof -
  let ?s = "\<lambda>bl m r i. \<lparr>block = bl, mutex = m, rpc = r, dpc = DIdle, ipc = i\<rparr>"
  let ?b = "b\<lparr>interrupted := 1\<rparr>"
  have "cv_step (?s b Free RStart IIdle) (?s b Free RStart IPassed)"
    using i_pass [of "?s b Free RStart IIdle"] by simp
  moreover have "cv_step (?s b Free RStart IPassed) (?s b ByReceiver RLocked IPassed)"
    using r_lock [of "?s b Free RStart IPassed"] by simp
  moreover have "cv_step (?s b ByReceiver RLocked IPassed) (?s b ByReceiver RChecked IPassed)"
    using r_check [of "?s b ByReceiver RLocked IPassed"] assms by (simp add: ready_def)
  moreover have "cv_step (?s b ByReceiver RChecked IPassed) (?s ?b ByReceiver RChecked ISet)"
    using i_set [of "?s b ByReceiver RChecked IPassed"] by simp
  moreover have "cv_step (?s ?b ByReceiver RChecked ISet) (?s ?b ByReceiver RChecked IIdle)"
    using i_notify [of "?s ?b ByReceiver RChecked ISet"] by (simp add: notify_def)
  moreover have "cv_step (?s ?b ByReceiver RChecked IIdle) (?s ?b Free RBlocked IIdle)"
    using r_wait [of "?s ?b ByReceiver RChecked IIdle"] by simp
  ultimately show ?thesis
    unfolding cv_start_def by (meson cv_init cv_next)
qed

text \<open>From there no step of the receiver is left: it sleeps until a new delivery or a new interrupt.\<close>

lemma blocked_step:
  assumes "cv_step s t" "rpc s = RBlocked" "dpc s = DIdle" "ipc s = IIdle"
  shows "rpc t = RBlocked \<and> que (block t) = que (block s) \<and> interrupted (block t) = interrupted (block s)"
  using assms by (auto elim: cv_stepE)

text \<open>Refinement: a run of the receiver that finds the block ready is \<open>recvFrom\<close>'s pop.\<close>

lemma received_pop:
  "i < length pcbs \<Longrightarrow> interrupted (pcbs ! i) \<noteq> 1 \<Longrightarrow> pcbs[i := received (pcbs ! i)] = pcb_pop pcbs i"
  by (simp add: received_def pcb_pop_def)

section \<open>Properties\<close>

text \<open>
  C30. A delivery is never slept through: when the receiver is asleep and the queue is not empty, the
  delivery that filled it has not notified yet, still holds the mutex, and its next step wakes the
  receiver.
\<close>

theorem delivery_not_lost:
  assumes "cv_reachable (cv_start b) s" "rpc s = RBlocked" "que (block s) \<noteq> []"
  shows "mutex s = ByDelivery \<and> dpc s = DPushed \<and> (\<exists>t. cv_step s t \<and> rpc t = RWoken \<and> block t = block s)"
proof -
  have inv: "cv_inv s" using cv_inv_reachable [OF assms(1) cv_inv_start] .
  with assms(2,3) have "dpc s = DPushed" "mutex s = ByDelivery" by (auto simp: cv_inv_def)
  moreover have "cv_step s (s\<lparr>rpc := notify (rpc s), dpc := DNotified\<rparr>)" using \<open>dpc s = DPushed\<close> by (rule d_notify)
  ultimately show ?thesis using assms(2) by (force simp: notify_def)
qed

theorem delivery_not_lost_witness:
  "\<exists>s. cv_reachable (cv_start (UdpControlBlock_new \<lparr>addr = 0, port = 0\<rparr>)) s \<and> rpc s = RBlocked \<and>
     dpc s = DPushed \<and> (\<exists>t. cv_step s t \<and> rpc t = RWoken)"
proof -
  let ?b = "UdpControlBlock_new \<lparr>addr = 0, port = 0\<rparr>"
  let ?pl = "\<lparr>pl_data = [1], pl_endpoint = \<lparr>addr = 1, port = 2\<rparr>\<rparr>"
  let ?s = "\<lambda>bl m r d. \<lparr>block = bl, mutex = m, rpc = r, dpc = d, ipc = IIdle\<rparr>"
  let ?q = "?b\<lparr>que := [?pl]\<rparr>"
  have b: "\<not> ready ?b" "que ?b = []" by (simp_all add: ready_def UdpControlBlock_new_def)
  have "cv_step (?s ?b Free RStart DIdle) (?s ?b ByReceiver RLocked DIdle)"
    using r_lock [of "?s ?b Free RStart DIdle"] by simp
  moreover have "cv_step (?s ?b ByReceiver RLocked DIdle) (?s ?b ByReceiver RChecked DIdle)"
    using r_check [of "?s ?b ByReceiver RLocked DIdle"] b by simp
  moreover have "cv_step (?s ?b ByReceiver RChecked DIdle) (?s ?b Free RBlocked DIdle)"
    using r_wait [of "?s ?b ByReceiver RChecked DIdle"] by simp
  moreover have "cv_step (?s ?b Free RBlocked DIdle) (?s ?b ByDelivery RBlocked DLocked)"
    using d_lock [of "?s ?b Free RBlocked DIdle"] by simp
  moreover have "cv_step (?s ?b ByDelivery RBlocked DLocked) (?s ?q ByDelivery RBlocked DPushed)"
    using d_push [of "?s ?b ByDelivery RBlocked DLocked" ?pl] b by simp
  ultimately have r: "cv_reachable (cv_start ?b) (?s ?q ByDelivery RBlocked DPushed)"
    unfolding cv_start_def by (meson cv_init cv_next)
  then show ?thesis using delivery_not_lost [OF r] by auto
qed

text \<open>
  C31. An interrupt can be: from a start with nothing queued there is a run after which the flag is
  set and the notification made, with no thread inside any operation, and the receiver asleep; and
  no step from there, other than one of a new delivery or a new interrupt that goes on to notify,
  wakes it.
\<close>

theorem interrupt_can_be_lost:
  assumes "que b = []" "interrupted b = 0"
  shows "\<exists>s. cv_reachable (cv_start b) s \<and> interrupted (block s) = 1 \<and> rpc s = RBlocked \<and> mutex s = Free \<and>
    dpc s = DIdle \<and> ipc s = IIdle \<and>
    (\<forall>t. cv_step s t \<longrightarrow> rpc t = RBlocked \<and> (dpc t = DLocked \<or> ipc t = IPassed))"
proof -
  let ?s = "\<lparr>block = b\<lparr>interrupted := 1\<rparr>, mutex = Free, rpc = RBlocked, dpc = DIdle, ipc = IIdle\<rparr>"
  have "rpc t = RBlocked \<and> (dpc t = DLocked \<or> ipc t = IPassed)" if "cv_step ?s t" for t
    using that by (auto elim: cv_stepE)
  then show ?thesis using lost_interrupt_run [OF assms] by (intro exI [of _ ?s]) simp
qed

theorem interrupt_can_be_lost_witness:
  "\<exists>s. cv_reachable (cv_start (UdpControlBlock_new \<lparr>addr = 0, port = 0\<rparr>)) s \<and> interrupted (block s) = 1 \<and>
     rpc s = RBlocked \<and> ipc s = IIdle"
  using interrupt_can_be_lost [of "UdpControlBlock_new \<lparr>addr = 0, port = 0\<rparr>"]
  by (auto simp: UdpControlBlock_new_def)

end
