(* ===== verification/Locking.thy ===== *)
theory Locking
  imports Prelude
begin

text \<open>
  Threads that take and give back mutexes: a thread is the list of the actions it has still to do, a
  step does one of them.  The locale at the end is the contract of a program whose threads take
  mutexes in the order of a rank and touch shared variables only under the mutex that guards them, or
  in one thread only; it proves once what such a program can rely on.
\<close>

section \<open>Actions\<close>

text \<open>
  \<open>Sleep l\<close> is the first half of \<open>wait\<close> on a condition variable with the mutex \<open>l\<close>: it gives \<open>l\<close>
  back and sleeps; the second half is an \<open>Acquire l\<close> of its own.
\<close>

datatype ('l, 'v) action = Acquire 'l | Release 'l | Sleep 'l | Read 'v | Write 'v

fun accesses :: "('l, 'v) action \<Rightarrow> 'v option" where
  "accesses (Read v) = Some v"
| "accesses (Write v) = Some v"
| "accesses _ = None"

definition touched :: "('l, 'v) action list \<Rightarrow> 'v set" where
  "touched as = {v. \<exists>a \<in> set as. accesses a = Some v}"

lemma touched_simps [simp]:
  "touched [] = {}"
  "touched (a # as) = (case accesses a of None \<Rightarrow> touched as | Some v \<Rightarrow> insert v (touched as))"
  "touched (as @ bs) = touched as \<union> touched bs"
  "touched (concat ass) = (\<Union>as \<in> set ass. touched as)"
  "touched (map Read vs) = set vs"
  by (auto simp: touched_def split: option.split)

record ('l, 'v) threads =
  todo :: "nat \<Rightarrow> ('l, 'v) action list"
  held :: "nat \<Rightarrow> 'l list"
  asleep :: "nat set"

definition free :: "('l, 'v) threads \<Rightarrow> 'l \<Rightarrow> bool" where
  "free s l \<longleftrightarrow> (\<forall>t. l \<notin> set (held s t))"

definition did :: "nat \<Rightarrow> ('l, 'v) threads \<Rightarrow> ('l, 'v) threads" where
  "did t s = s\<lparr>todo := (todo s)(t := tl (todo s t))\<rparr>"

text \<open>What thread \<open>t\<close> does by itself while it is awake.\<close>

inductive act :: "nat \<Rightarrow> ('l, 'v) threads \<Rightarrow> ('l, 'v) threads \<Rightarrow> bool" for t where
  acquire: "t \<notin> asleep s \<Longrightarrow> todo s t = Acquire l # as \<Longrightarrow> free s l \<Longrightarrow>
    act t s ((did t s)\<lparr>held := (held s)(t := l # held s t)\<rparr>)"
| release: "t \<notin> asleep s \<Longrightarrow> todo s t = Release l # as \<Longrightarrow> l \<in> set (held s t) \<Longrightarrow>
    act t s ((did t s)\<lparr>held := (held s)(t := remove1 l (held s t))\<rparr>)"
| sleep: "t \<notin> asleep s \<Longrightarrow> todo s t = Sleep l # as \<Longrightarrow> l \<in> set (held s t) \<Longrightarrow>
    act t s ((did t s)\<lparr>held := (held s)(t := remove1 l (held s t)), asleep := insert t (asleep s)\<rparr>)"
| access: "t \<notin> asleep s \<Longrightarrow> todo s t = a # as \<Longrightarrow> accesses a = Some v \<Longrightarrow> act t s (did t s)"

inductive_cases actE: "act t s s'"

text \<open>
  A thread with nothing to do starts one of its scripts; a sleeping thread is woken, by a notification
  or for no reason at all.
\<close>

inductive threads_step :: "(nat \<Rightarrow> ('l, 'v) action list \<Rightarrow> bool) \<Rightarrow> ('l, 'v) threads \<Rightarrow> ('l, 'v) threads \<Rightarrow> bool"
  for script where
  begin_script: "todo s t = [] \<Longrightarrow> script t as \<Longrightarrow> threads_step script s (s\<lparr>todo := (todo s)(t := as)\<rparr>)"
| act_step: "act t s s' \<Longrightarrow> threads_step script s s'"
| wake_up: "t \<in> asleep s \<Longrightarrow> threads_step script s (s\<lparr>asleep := asleep s - {t}\<rparr>)"

inductive_cases threads_stepE: "threads_step script s s'"

definition no_threads :: "('l, 'v) threads" where
  "no_threads = \<lparr>todo = (\<lambda>_. []), held = (\<lambda>_. []), asleep = {}\<rparr>"

inductive threads_reachable :: "(nat \<Rightarrow> ('l, 'v) action list \<Rightarrow> bool) \<Rightarrow> ('l, 'v) threads \<Rightarrow> bool" for script where
  begin_threads: "threads_reachable script no_threads"
| more_threads: "threads_reachable script s \<Longrightarrow> threads_step script s s' \<Longrightarrow> threads_reachable script s'"

text \<open>Thread \<open>t\<close> wants a mutex that thread \<open>u\<close> holds.\<close>

inductive waits_for :: "('l, 'v) threads \<Rightarrow> nat \<Rightarrow> nat \<Rightarrow> bool" for s where
  "todo s t = Acquire l # as \<Longrightarrow> l \<in> set (held s u) \<Longrightarrow> waits_for s t u"

section \<open>The discipline\<close>

text \<open>
  The mutexes held after a list of actions, or \<open>None\<close> when an action breaks the discipline: mutexes
  are taken in the order of their ranks, only those held are given back, a thread sleeps with no
  other mutex, and every variable of \<open>V\<close> is touched under its guard.
\<close>

fun check1 :: "('l \<Rightarrow> nat) \<Rightarrow> ('v \<Rightarrow> 'l) \<Rightarrow> 'v set \<Rightarrow> ('l, 'v) action \<Rightarrow> 'l list \<Rightarrow> 'l list option" where
  "check1 rank guard V (Acquire l) H = (if \<forall>h \<in> set H. rank h < rank l then Some (l # H) else None)"
| "check1 rank guard V (Release l) H = (if l \<in> set H then Some (remove1 l H) else None)"
| "check1 rank guard V (Sleep l) H = (if H = [l] then Some [] else None)"
| "check1 rank guard V (Read v) H = (if v \<in> V \<longrightarrow> guard v \<in> set H then Some H else None)"
| "check1 rank guard V (Write v) H = (if v \<in> V \<longrightarrow> guard v \<in> set H then Some H else None)"

fun check :: "('l \<Rightarrow> nat) \<Rightarrow> ('v \<Rightarrow> 'l) \<Rightarrow> 'v set \<Rightarrow> ('l, 'v) action list \<Rightarrow> 'l list \<Rightarrow> 'l list option" where
  "check rank guard V [] H = Some H"
| "check rank guard V (a # as) H =
     (case check1 rank guard V a H of None \<Rightarrow> None | Some H' \<Rightarrow> check rank guard V as H')"

lemma check_append:
  "check rank guard V (as @ bs) H =
     (case check rank guard V as H of None \<Rightarrow> None | Some H' \<Rightarrow> check rank guard V bs H')"
  by (induction as arbitrary: H) (auto split: option.split)

lemma check_concat:
  "(\<And>as. as \<in> set ass \<Longrightarrow> check rank guard V as H = Some H) \<Longrightarrow> check rank guard V (concat ass) H = Some H"
  by (induction ass) (auto simp: check_append)

lemma check_reads:
  "(\<And>v. v \<in> set vs \<Longrightarrow> v \<in> V \<Longrightarrow> guard v \<in> set H) \<Longrightarrow> check rank guard V (map Read vs) H = Some H"
  by (induction vs) auto

text \<open>An access that passes the check is made under the guard of its variable.\<close>

lemma check_access:
  assumes "check rank guard V (a # as) H = Some K" "accesses a = Some v" "v \<in> V"
  shows "guard v \<in> set H"
  using assms by (cases a) (auto split: if_splits)

section \<open>A thread alone\<close>

text \<open>A thread can do a list of actions if nobody else has the mutexes it takes in it.\<close>

lemma checked_step:
  assumes "todo s t = a # as" "t \<notin> asleep s" "\<forall>l. a \<noteq> Sleep l"
    and "check1 rank guard {} a (held s t) = Some K" "\<forall>u l. u \<noteq> t \<longrightarrow> a = Acquire l \<longrightarrow> l \<notin> set (held s u)"
  shows "act t s (s\<lparr>todo := (todo s)(t := as), held := (held s)(t := K)\<rparr>)"
proof -
  have access: "act t s (s\<lparr>todo := (todo s)(t := as), held := (held s)(t := K)\<rparr>)"
    if "accesses a = Some v" "K = held s t" for v
    using act.access [OF assms(2,1) that(1)] that(2) assms(1) by (simp add: did_def)
  show ?thesis
  proof (cases a)
    case (Acquire l)
    then have "K = l # held s t" "l \<notin> set (held s t)" using assms(4) by (auto split: if_splits)
    moreover have "free s l"
      unfolding free_def using assms(5) Acquire \<open>l \<notin> set (held s t)\<close> by metis
    ultimately show ?thesis using act.acquire [OF assms(2), of l as] assms(1) Acquire by (simp add: did_def)
  next
    case (Release l)
    then show ?thesis using act.release [OF assms(2), of l as] assms(1,4) by (simp add: did_def split: if_splits)
  qed (use assms(3,4) access in auto)
qed

lemma run_alone:
  assumes "threads_reachable script s" "todo s t = xs @ ys" "t \<notin> asleep s" "\<forall>l. Sleep l \<notin> set xs"
    and "check rank guard {} xs (held s t) = Some H"
    and "\<forall>u l. u \<noteq> t \<longrightarrow> Acquire l \<in> set xs \<longrightarrow> l \<notin> set (held s u)"
  shows "threads_reachable script (s\<lparr>todo := (todo s)(t := ys), held := (held s)(t := H)\<rparr>)"
  using assms
proof (induction xs arbitrary: s)
  case Nil
  then have "s\<lparr>todo := (todo s)(t := ys), held := (held s)(t := H)\<rparr> = s" by auto
  with Nil.prems(1) show ?case by (simp only:)
next
  case (Cons a xs)
  from Cons.prems(5) obtain K
    where K: "check1 rank guard {} a (held s t) = Some K" "check rank guard {} xs K = Some H"
    by (auto split: option.splits)
  let ?s = "s\<lparr>todo := (todo s)(t := xs @ ys), held := (held s)(t := K)\<rparr>"
  have "act t s ?s"
    by (rule checked_step) (use Cons.prems(2,3,4,6) K(1) in auto)
  then have "threads_reachable script ?s"
    by (rule threads_reachable.more_threads [OF Cons.prems(1) threads_step.act_step])
  then have "threads_reachable script (?s\<lparr>todo := (todo ?s)(t := ys), held := (held ?s)(t := H)\<rparr>)"
  proof (rule Cons.IH)
    show "todo ?s t = xs @ ys" "t \<notin> asleep ?s" using Cons.prems(3) by simp_all
    show "\<forall>l. Sleep l \<notin> set xs" using Cons.prems(4) by simp
    show "check rank guard {} xs (held ?s t) = Some H" using K(2) by simp
    show "\<forall>u l. u \<noteq> t \<longrightarrow> Acquire l \<in> set xs \<longrightarrow> l \<notin> set (held ?s u)" using Cons.prems(6) by simp
  qed
  moreover have "?s\<lparr>todo := (todo ?s)(t := ys), held := (held ?s)(t := H)\<rparr> =
      s\<lparr>todo := (todo s)(t := ys), held := (held s)(t := H)\<rparr>" by simp
  ultimately show ?case by (simp only:)
qed

section \<open>The contract\<close>

locale lock_discipline =
  fixes script :: "nat \<Rightarrow> ('l, 'v) action list \<Rightarrow> bool"
    and rank :: "'l \<Rightarrow> nat" and top :: nat
    and guard :: "'v \<Rightarrow> 'l" and V :: "'v set" and own :: "'v set"
  assumes checked: "script t as \<Longrightarrow> check rank guard V as [] = Some []"
    and rank_top: "rank l \<le> top"
    and one_thread: "script t as \<Longrightarrow> script u bs \<Longrightarrow> v \<in> touched as \<Longrightarrow> v \<in> touched bs \<Longrightarrow> v \<in> own \<Longrightarrow> t = u"
begin

lemma threads_inv:
  assumes "threads_reachable script s"
  shows "(\<forall>t. check rank guard V (todo s t) (held s t) = Some [] \<and> distinct (held s t)) \<and>
    (\<forall>t u l. l \<in> set (held s t) \<longrightarrow> l \<in> set (held s u) \<longrightarrow> t = u) \<and>
    (\<forall>t \<in> asleep s. held s t = [])"
  using assms
proof (induction rule: threads_reachable.induct)
  case begin_threads
  then show ?case by (simp add: no_threads_def)
next
  case (more_threads s s')
  note IH = more_threads.IH
  from more_threads.hyps(2) show ?case
  proof (cases rule: threads_step.cases)
    case (begin_script t as)
    have "check rank guard V [] (held s t) = Some []" using IH begin_script(2) by metis
    then have "held s t = []" by simp
    then show ?thesis using IH begin_script checked by auto
  next
    case wake_up
    then show ?thesis using IH by auto
  next
    case (act_step t)
    have t: "check rank guard V (todo s t) (held s t) = Some []" "distinct (held s t)" using IH by auto
    from act_step show ?thesis
    proof (cases rule: act.cases)
      case (acquire l as)
      then have "check rank guard V as (l # held s t) = Some []" using t by (auto split: if_splits)
      then show ?thesis using acquire t IH unfolding free_def did_def by auto
    next
      case (release l as)
      then have "check rank guard V as (remove1 l (held s t)) = Some []" using t by (auto split: if_splits)
      then show ?thesis using release t IH by (auto simp: did_def dest: notin_set_remove1)
    next
      case (sleep l as)
      then have "held s t = [l]" "check rank guard V as [] = Some []" using t by (auto split: if_splits)
      then show ?thesis using sleep t IH by (auto simp: did_def)
    next
      case (access a as v)
      then have "check rank guard V as (held s t) = Some []" using t by (cases a) (auto split: if_splits)
      then show ?thesis using access t IH by (auto simp: did_def)
    qed
  qed
qed

lemmas inv_check = threads_inv [THEN conjunct1, THEN spec, THEN conjunct1]
lemmas inv_exclusive = threads_inv [THEN conjunct2, THEN conjunct1, rule_format]
lemmas inv_asleep = threads_inv [THEN conjunct2, THEN conjunct2, THEN bspec]

text \<open>What a thread has still to do is the end of one of its scripts.\<close>

lemma todo_of_script:
  assumes "threads_reachable script s"
  shows "todo s t = [] \<or> (\<exists>as. script t as \<and> touched (todo s t) \<subseteq> touched as)"
  using assms
proof (induction rule: threads_reachable.induct)
  case begin_threads
  then show ?case by (simp add: no_threads_def)
next
  case (more_threads s s')
  from more_threads.hyps(2) show ?case
  proof (cases rule: threads_step.cases)
    case (act_step u)
    then have "todo s' = (todo s)(u := tl (todo s u))" by cases (simp_all add: did_def)
    moreover have "touched (tl (todo s u)) \<subseteq> touched (todo s u)" by (cases "todo s u") (auto simp: touched_def)
    ultimately show ?thesis using more_threads.IH by fastforce
  qed (use more_threads.IH in auto)
qed

text \<open>
  Two threads are never both about to touch the same variable, if it is one of \<open>V\<close>, which are
  guarded, or of \<open>own\<close>, which occur in the scripts of one thread only.
\<close>

lemma no_race:
  assumes "threads_reachable script s"
    and "todo s t = a # as" "accesses a = Some v" "todo s u = b # bs" "accesses b = Some v" "v \<in> V \<union> own"
  shows "t = u"
proof (cases "v \<in> V")
  case True
  then have "guard v \<in> set (held s t)" "guard v \<in> set (held s u)"
    using inv_check [OF assms(1), of t] inv_check [OF assms(1), of u] assms(2-5) check_access by metis+
  then show ?thesis by (rule inv_exclusive [OF assms(1)])
next
  case False
  obtain xs ys where "script t xs" "v \<in> touched xs" "script u ys" "v \<in> touched ys"
    using todo_of_script [OF assms(1), of t] todo_of_script [OF assms(1), of u] assms(2-5) by auto
  with False assms(6) show ?thesis using one_thread by blast
qed

text \<open>A thread that is awake and does not want a mutex in use can go on.\<close>

lemma awake_acts:
  assumes "threads_reachable script s" "t \<notin> asleep s" "todo s t = a # as"
    and "\<And>l. a = Acquire l \<Longrightarrow> free s l"
  shows "\<exists>s'. act t s s'"
proof (cases a)
  case (Acquire l)
  then show ?thesis using assms act.acquire by metis
next
  case (Release l)
  then have "l \<in> set (held s t)" using inv_check [OF assms(1), of t] assms(3) by (auto split: if_splits)
  then show ?thesis using assms Release act.release by metis
next
  case (Sleep l)
  then have "l \<in> set (held s t)" using inv_check [OF assms(1), of t] assms(3) by (auto split: if_splits)
  then show ?thesis using assms Sleep act.sleep by metis
qed (use assms act.access in \<open>metis accesses.simps\<close>)+

text \<open>Whoever is waited for is awake, has something to do, and wants a mutex of a higher rank if any.\<close>

lemma waited_for:
  assumes "threads_reachable script s" "todo s t = Acquire l # as" "l \<in> set (held s u)"
  shows "u \<notin> asleep s \<and> (\<exists>b bs. todo s u = b # bs \<and> (\<forall>l'. b = Acquire l' \<longrightarrow> rank l < rank l'))"
proof -
  have u: "check rank guard V (todo s u) (held s u) = Some []" by (rule inv_check [OF assms(1)])
  have "u \<notin> asleep s" using inv_asleep [OF assms(1), of u] assms(3) by auto
  moreover obtain b bs where b: "todo s u = b # bs" using u assms(3) by (cases "todo s u") auto
  moreover have "\<forall>l'. b = Acquire l' \<longrightarrow> rank l < rank l'" using u b assms(3) by (auto split: if_splits)
  ultimately show ?thesis by blast
qed

text \<open>Along the threads that wait for each other there is always one that can go on.\<close>

lemma no_deadlock_from:
  assumes "threads_reachable script s"
  shows "todo s t = Acquire l # as \<Longrightarrow> t \<notin> asleep s \<Longrightarrow>
    \<exists>u. (waits_for s)\<^sup>*\<^sup>* t u \<and> (\<exists>s'. act u s s')"
proof (induction "top - rank l" arbitrary: t l as rule: less_induct)
  case less
  show ?case
  proof (cases "free s l")
    case True
    then show ?thesis using awake_acts [OF assms less.prems(2,1)] by auto
  next
    case False
    then obtain u where l: "l \<in> set (held s u)" by (auto simp: free_def)
    from waited_for [OF assms less.prems(1) l] obtain b bs
      where u: "u \<notin> asleep s" "todo s u = b # bs" and up: "\<And>l'. b = Acquire l' \<Longrightarrow> rank l < rank l'" by blast
    have tu: "waits_for s t u" using less.prems(1) l by (rule waits_for.intros)
    show ?thesis
    proof (cases "\<exists>l'. b = Acquire l' \<and> \<not> free s l'")
      case True
      then obtain l' where l': "b = Acquire l'" by blast
      have "top - rank l' < top - rank l" using up [OF l'] rank_top [of l'] by simp
      from less.hyps [OF this] u l' obtain v where "(waits_for s)\<^sup>*\<^sup>* u v" "\<exists>s'. act v s s'" by blast
      then show ?thesis using tu by (meson converse_rtranclp_into_rtranclp)
    next
      case False
      then show ?thesis using awake_acts [OF assms u] tu by blast
    qed
  qed
qed

lemma no_deadlock:
  assumes "threads_reachable script s" "t \<notin> asleep s" "todo s t \<noteq> []"
  shows "\<exists>u. (waits_for s)\<^sup>*\<^sup>* t u \<and> (\<exists>s'. act u s s')"
proof -
  obtain a as where a: "todo s t = a # as" using assms(3) by (cases "todo s t") auto
  show ?thesis
  proof (cases "\<exists>l. a = Acquire l")
    case True
    then show ?thesis using no_deadlock_from [OF assms(1) _ assms(2)] a by blast
  next
    case False
    then show ?thesis using awake_acts [OF assms(1,2) a] by blast
  qed
qed

end

end
