(* ===== verification/LockScripts.thy ===== *)
theory LockScripts
  imports Locking
begin

text \<open>
  What every operation that runs in a thread of its own does to the mutexes and to the variables the
  threads share, in the order of its code: the socket calls and handlers of lib/Udp.cpp and
  lib/UdpControlBlock.cpp, the signal handlers of lib/Interrupt.h and lib/EtherDevice.cpp, and what
  they call in lib/Arp.cpp, lib/ArpCache.h, lib/Ipv4.cpp and lib/Logger.cpp.  How a call turns out is
  an argument of its script.  Outcomes that end the program are left out.
\<close>

section \<open>Mutexes and variables\<close>

text \<open>
  \<open>protocolQueuesMutex\<close> (lib/Protocol.h) is declared \<open>static\<close> in a header, so every file that includes
  it has a mutex of its own, while the map it is meant for is one: \<open>DeviceQueues\<close> is the one of
  lib/EtherDevice.cpp and \<open>MainQueues\<close> the one of main.cpp, where the code of lib/Interrupt.h ends up.
  The others are the mutex of the manager of the control blocks, of each block, the one in
  \<open>ip_gen_id\<close>, the one of the ARP cache and the one of the logger, which only lib/Logger.cpp uses.
\<close>

datatype mutex = DeviceQueues | MainQueues | Manager | Block nat | IpId | Cache | LogLock

datatype shared =
    QueueMap | BlockState nat | BlockId nat | Endpoint nat | BlockQueue nat | Interrupted nat
  | CacheEntries | IdCounter

fun mutex_rank :: "mutex \<Rightarrow> nat" where
  "mutex_rank DeviceQueues = 0"
| "mutex_rank MainQueues = 0"
| "mutex_rank Manager = 1"
| "mutex_rank (Block i) = 2"
| "mutex_rank IpId = 3"
| "mutex_rank Cache = 3"
| "mutex_rank LogLock = 4"

text \<open>The mutex a variable is touched under; for the map of the queues that is so in main.cpp only.\<close>

fun guard_of :: "shared \<Rightarrow> mutex" where
  "guard_of QueueMap = MainQueues"
| "guard_of (BlockState i) = Manager"
| "guard_of (BlockId i) = Manager"
| "guard_of (Endpoint i) = Manager"
| "guard_of (BlockQueue i) = Block i"
| "guard_of (Interrupted i) = Block i"
| "guard_of CacheEntries = Cache"
| "guard_of IdCounter = IpId"

type_synonym script = "(mutex, shared) action list"

section \<open>Shared parts\<close>

text \<open>\<open>n\<close> messages of the logger.\<close>

definition log_script :: "nat \<Rightarrow> script" where
  "log_script n = concat (replicate n [Acquire LogLock, Release LogLock])"

definition cache_select_script :: script where
  "cache_select_script = [Acquire Cache, Read CacheEntries, Release Cache]"

text \<open>\<open>ArpCache::create\<close> takes the mutex twice, the second time only for an address it did not find.\<close>

definition cache_create_script :: "bool \<Rightarrow> script" where
  "cache_create_script known =
     cache_select_script @ (if known then [] else [Acquire Cache, Write CacheEntries, Release Cache])"

definition arpDump_script :: script where "arpDump_script = log_script 5"
definition transmit_script :: script where "transmit_script = log_script 1"

definition arpResolve_script :: "bool \<Rightarrow> script" where
  "arpResolve_script known =
     cache_select_script @ (if known then [] else log_script 1 @ arpDump_script @ transmit_script)"

definition ip_gen_id_script :: script where
  "ip_gen_id_script = [Acquire IpId, Read IdCounter, Write IdCounter, Release IpId]"

text \<open>\<open>ipv4_output\<close>: \<open>None\<close> when the addresses are refused, else whether the gateway is in the cache.\<close>

definition ipv4_output_script :: "bool option \<Rightarrow> script" where
  "ipv4_output_script out =
     (case out of
        None \<Rightarrow> log_script 1
      | Some known \<Rightarrow> ip_gen_id_script @ log_script 2 @ arpResolve_script known @
                      (if known then transmit_script else []))"

definition udp_output_script :: "bool option \<Rightarrow> script" where
  "udp_output_script out = log_script 2 @ ipv4_output_script out"

text \<open>\<open>UdpPcbManager::select\<close> that looks at \<open>m\<close> blocks.\<close>

definition select_script :: "nat \<Rightarrow> script" where
  "select_script m = map Read (concat (map (\<lambda>j. [BlockState j, Endpoint j]) [0..<m]))"

section \<open>Socket calls\<close>

text \<open>\<open>open\<close> on a table of \<open>n\<close> blocks: the block it gets, or none.\<close>

definition open_script :: "nat \<Rightarrow> nat option \<Rightarrow> script" where
  "open_script n r =
     [Acquire Manager] @
     (case r of
        None \<Rightarrow> map Read (map BlockState [0..<n])
      | Some i \<Rightarrow> map Read (map BlockState [0..<Suc i]) @
                  [Write (BlockState i), Write (BlockId i), Write (Endpoint i), Read (BlockId i)]) @
     [Release Manager]"

text \<open>\<open>bind\<close>: \<open>None\<close> when the endpoint is in use.\<close>

definition bind_script :: "nat \<Rightarrow> nat option \<Rightarrow> script" where
  "bind_script m r =
     [Acquire Manager] @ select_script m @
     (case r of
        None \<Rightarrow> []
      | Some i \<Rightarrow> [Acquire (Block i), Write (Endpoint i), Release (Block i)]) @
     [Release Manager]"

text \<open>
  \<open>sendTo\<close>: \<open>None\<close> for a block that is not open; otherwise the blocks looked at by each \<open>select\<close> of
  the search for a port (no search when the socket has one), and the outcome of \<open>ipv4_output\<close>.
\<close>

definition sendTo_script :: "nat \<Rightarrow> (nat list \<times> bool option) option \<Rightarrow> script" where
  "sendTo_script i r =
     [Acquire Manager, Read (BlockState i)] @
     (case r of
        None \<Rightarrow> [Release Manager]
      | Some (ms, out) \<Rightarrow>
          [Acquire (Block i), Read (Endpoint i)] @
          (if ms = [] then [] else concat (map select_script ms) @ [Write (Endpoint i)]) @
          [Read (Endpoint i), Release Manager, Release (Block i)] @
          log_script 1 @ udp_output_script out)"

text \<open>\<open>recvFrom\<close> that goes to sleep \<open>k\<close> times, and is then interrupted or takes a payload.\<close>

definition recvFrom_script :: "nat \<Rightarrow> nat \<Rightarrow> bool \<Rightarrow> script" where
  "recvFrom_script i k interrupted =
     [Acquire Manager, Release Manager, Acquire (Block i)] @
     concat (replicate k [Read (BlockQueue i), Read (Interrupted i), Sleep (Block i), Acquire (Block i)]) @
     [Read (BlockQueue i), Read (Interrupted i)] @ log_script 1 @ [Read (Interrupted i)] @
     (if interrupted then [] else [Read (BlockQueue i), Write (BlockQueue i), Read (BlockQueue i)]) @
     [Release (Block i)]"

section \<open>The interrupt thread\<close>

text \<open>\<open>handleSignal\<close> and \<open>EtherDevice::handler\<close>, for a frame of a type with a queue or without.\<close>

definition device_script :: "bool \<Rightarrow> script" where
  "device_script known =
     log_script 2 @ [Acquire DeviceQueues, Read QueueMap] @
     (if known then [Read QueueMap, Write QueueMap] else []) @ log_script 1 @ [Release DeviceQueues]"

text \<open>The ways of a packet through its handler, as far as they come back.\<close>

datatype packet_path =
    ArpPath bool bool             \<comment> \<open>the sender is known already; it is a request\<close>
  | UnknownProtocol
  | EchoRequest
  | EchoReply
  | OtherIcmp
  | UdpPath nat "nat option"      \<comment> \<open>blocks looked at; the block found\<close>

definition udp_handle_script :: "nat \<Rightarrow> nat option \<Rightarrow> script" where
  "udp_handle_script m r =
     log_script 1 @ [Acquire Manager] @ select_script m @
     (case r of
        None \<Rightarrow> log_script 1 @ [Release Manager]
      | Some i \<Rightarrow> [Acquire (Block i), Release Manager, Write (BlockQueue i), Release (Block i)])"

fun packet_script :: "packet_path \<Rightarrow> script" where
  "packet_script (ArpPath known request) =
     arpDump_script @ log_script 1 @ cache_create_script known @
     (if request then log_script 1 @ arpDump_script @ transmit_script else [])"
| "packet_script UnknownProtocol = log_script 3 @ log_script 1"
| "packet_script EchoRequest = log_script 3 @ log_script 2 @ log_script 1 @ ipv4_output_script (Some True)"
| "packet_script EchoReply = log_script 3 @ log_script 2 @ log_script 1"
| "packet_script OtherIcmp = log_script 3 @ log_script 2"
| "packet_script (UdpPath m r) = log_script 3 @ udp_handle_script m r"

text \<open>\<open>handleProtocolSignal\<close> holds the mutex of the queues while the handlers run.\<close>

definition queue_script :: "packet_path list \<Rightarrow> script" where
  "queue_script ps =
     [Read QueueMap] @ log_script 1 @
     concat (map (\<lambda>p. [Read QueueMap, Write QueueMap] @ packet_script p) ps)"

definition protocol_script :: "packet_path list list \<Rightarrow> script" where
  "protocol_script qs =
     log_script 1 @ [Acquire MainQueues] @ concat (map queue_script qs) @ [Release MainQueues]"

text \<open>
  \<open>handleEventSignal\<close>: the two statements \<open>std::lock_guard<std::mutex>(...);\<close> take their mutex and give
  it back at once, so what follows them is done without it.
\<close>

definition interruptAll_script :: "nat \<Rightarrow> nat set \<Rightarrow> script" where
  "interruptAll_script n opens =
     concat (map (\<lambda>j. [Read (BlockState j)] @
       (if j \<in> opens then [Acquire (Block j), Release (Block j), Write (Interrupted j)] else [])) [0..<n])"

definition event_script :: "nat \<Rightarrow> nat set \<Rightarrow> script" where
  "event_script n opens =
     log_script 2 @ [Acquire Manager, Release Manager] @ interruptAll_script n opens"

section \<open>The program's scripts\<close>

text \<open>The socket calls on a table of \<open>n\<close> blocks, which any thread may make.\<close>

inductive socket_script :: "nat \<Rightarrow> script \<Rightarrow> bool" for n where
  "socket_script n (open_script n None)"
| "i < n \<Longrightarrow> socket_script n (open_script n (Some i))"
| "m \<le> n \<Longrightarrow> socket_script n (bind_script m None)"
| "m \<le> n \<Longrightarrow> i < n \<Longrightarrow> socket_script n (bind_script m (Some i))"
| "i < n \<Longrightarrow> socket_script n (sendTo_script i r)"
| "i < n \<Longrightarrow> socket_script n (recvFrom_script i k interrupted)"

text \<open>
  \<open>I\<close> are the interrupt threads, of which the program has one: they handle signals.  First everything
  but events, then everything.
\<close>

inductive quiet_script :: "nat \<Rightarrow> nat set \<Rightarrow> nat \<Rightarrow> script \<Rightarrow> bool" for n I t where
  socket_call: "socket_script n as \<Longrightarrow> quiet_script n I t as"
| device_signal: "t \<in> I \<Longrightarrow> quiet_script n I t (device_script known)"
| protocol_signal: "t \<in> I \<Longrightarrow> quiet_script n I t (protocol_script qs)"

inductive any_script :: "nat \<Rightarrow> nat set \<Rightarrow> nat \<Rightarrow> script \<Rightarrow> bool" for n I t where
  quiet: "quiet_script n I t as \<Longrightarrow> any_script n I t as"
| event: "t \<in> I \<Longrightarrow> any_script n I t (event_script n opens)"

section \<open>What the shared parts leave\<close>

abbreviation checks :: "shared set \<Rightarrow> script \<Rightarrow> mutex list \<Rightarrow> mutex list option" where
  "checks V \<equiv> check mutex_rank guard_of V"

lemma rank_log: "h \<noteq> LogLock \<Longrightarrow> mutex_rank h < 4"
  by (cases h) simp_all

text \<open>Parts that leave the mutexes held as they were, whatever is held below their own.\<close>

named_theorems lock_parts \<open>what the shared parts of the scripts leave\<close>

lemma checks_log [lock_parts]: "LogLock \<notin> set H \<Longrightarrow> checks V (log_script n) H = Some H"
proof -
  assume "LogLock \<notin> set H"
  then have "\<forall>h \<in> set H. mutex_rank h < 4" using rank_log by metis
  then show ?thesis unfolding log_script_def by (intro check_concat) auto
qed

lemma checks_select [lock_parts]: "Manager \<in> set H \<Longrightarrow> checks V (select_script m) H = Some H"
  unfolding select_script_def by (rule check_reads) auto

definition below_log :: "mutex set" where "below_log = {DeviceQueues, MainQueues, Manager} \<union> range Block"

lemma rank_below: "h \<in> below_log \<Longrightarrow> mutex_rank h < 3"
  by (auto simp: below_log_def)

lemma not_log: "set H \<subseteq> below_log \<Longrightarrow> LogLock \<notin> set H"
  by (auto simp: below_log_def)

lemma rank_below_all: "set H \<subseteq> below_log \<Longrightarrow> \<forall>h \<in> set H. mutex_rank h < 3"
  using rank_below by blast

lemma checks_cache_select [lock_parts]:
  "set H \<subseteq> below_log \<Longrightarrow> checks V cache_select_script H = Some H"
  by (simp add: cache_select_script_def rank_below_all)

lemma checks_cache_create [lock_parts]:
  "set H \<subseteq> below_log \<Longrightarrow> checks V (cache_create_script known) H = Some H"
  by (simp add: cache_create_script_def check_append checks_cache_select rank_below_all)

lemma checks_output [lock_parts]:
  assumes "set H \<subseteq> below_log"
  shows "checks V (ipv4_output_script out) H = Some H" "checks V (udp_output_script out) H = Some H"
  using assms not_log [OF assms]
  by (auto simp: ipv4_output_script_def udp_output_script_def ip_gen_id_script_def arpResolve_script_def
      arpDump_script_def transmit_script_def check_append lock_parts rank_below_all split: option.split)

section \<open>Every script keeps the discipline\<close>

lemma checks_states: "Manager \<in> set H \<Longrightarrow> checks V (map Read (map BlockState is)) H = Some H"
  by (rule check_reads) auto

lemma checks_open: "checks V (open_script n r) [] = Some []"
  by (cases r) (simp_all add: open_script_def check_append checks_states del: upt_Suc map_map)

lemma checks_bind: "checks V (bind_script m r) [] = Some []"
  by (cases r) (simp_all add: bind_script_def check_append lock_parts)

lemma checks_sendTo: "checks V (sendTo_script i r) [] = Some []"
proof (cases r)
  case (Some p)
  obtain ms out where p: "p = (ms, out)" by (cases p)
  have "checks V (concat (map select_script ms)) [Block i, Manager] = Some [Block i, Manager]"
    by (rule check_concat) (auto simp: lock_parts)
  then show ?thesis by (simp add: sendTo_script_def check_append Some p lock_parts)
qed (simp add: sendTo_script_def check_append)

lemma checks_recvFrom: "checks V (recvFrom_script i k interrupted) [] = Some []"
proof -
  have "checks V (concat (replicate k [Read (BlockQueue i), Read (Interrupted i), Sleep (Block i), Acquire (Block i)]))
      [Block i] = Some [Block i]"
    by (rule check_concat) simp
  then show ?thesis by (simp add: recvFrom_script_def check_append lock_parts)
qed

lemma checks_device: "QueueMap \<notin> V \<Longrightarrow> checks V (device_script known) [] = Some []"
  by (simp add: device_script_def check_append lock_parts)

lemma checks_packet: "checks V (packet_script p) [MainQueues] = Some [MainQueues]"
proof (cases p)
  case (UdpPath m r)
  then show ?thesis by (cases r) (simp_all add: udp_handle_script_def check_append lock_parts)
qed (simp_all add: arpDump_script_def transmit_script_def check_append lock_parts below_log_def)

lemma checks_protocol: "checks V (protocol_script qs) [] = Some []"
proof -
  have "checks V (concat (map (\<lambda>p. [Read QueueMap, Write QueueMap] @ packet_script p) ps)) [MainQueues] = Some [MainQueues]" for ps
    by (rule check_concat) (auto simp: checks_packet)
  then have "checks V (concat (map queue_script qs)) [MainQueues] = Some [MainQueues]"
    by (intro check_concat) (auto simp: queue_script_def check_append lock_parts)
  then show ?thesis by (simp add: protocol_script_def check_append lock_parts)
qed

lemma checks_socket: "socket_script n as \<Longrightarrow> checks V as [] = Some []"
  by (induction rule: socket_script.induct) (simp_all add: checks_open checks_bind checks_sendTo checks_recvFrom)

text \<open>\<open>EtherDevice::handler\<close> takes a mutex that does not guard the map of the queues.\<close>

definition quiet_vars :: "shared set" where "quiet_vars = - {QueueMap}"

lemma checks_quiet: "quiet_script n I t as \<Longrightarrow> QueueMap \<notin> V \<Longrightarrow> checks V as [] = Some []"
  by (induction rule: quiet_script.induct) (simp_all add: checks_socket checks_device checks_protocol)

text \<open>An event breaks the discipline for the variables it touches without their guard, and only for these.\<close>

definition guarded_vars :: "shared set" where
  "guarded_vars = - ({QueueMap} \<union> range Interrupted \<union> range BlockState)"

lemma checks_event: "checks guarded_vars (event_script n opens) [] = Some []"
proof -
  have "checks guarded_vars (interruptAll_script n opens) [] = Some []"
    unfolding interruptAll_script_def by (rule check_concat) (auto simp: guarded_vars_def)
  then show ?thesis by (simp add: event_script_def check_append lock_parts)
qed

lemma checks_any: "any_script n I t as \<Longrightarrow> checks guarded_vars as [] = Some []"
proof (induction rule: any_script.induct)
  case (quiet as)
  moreover have "QueueMap \<notin> guarded_vars" by (simp add: guarded_vars_def)
  ultimately show ?case by (rule checks_quiet)
qed (rule checks_event)

lemma rank_at_most: "mutex_rank l \<le> 4"
  by (cases l) simp_all

text \<open>No socket call touches the map of the queues: only an interrupt thread does.\<close>

named_theorems no_queues \<open>scripts that leave the map of the queues alone\<close>

lemma log_touches [simp]: "touched (log_script n) = {}"
  by (auto simp: touched_def log_script_def)

lemma select_leaves [no_queues]: "QueueMap \<notin> touched (select_script m)"
  by (auto simp: select_script_def)

lemma output_leaves [no_queues]: "QueueMap \<notin> touched (udp_output_script out)"
  by (simp add: udp_output_script_def ipv4_output_script_def ip_gen_id_script_def arpResolve_script_def
      cache_select_script_def arpDump_script_def transmit_script_def split: option.split)

lemma sleeps_leave [no_queues]:
  "QueueMap \<notin> touched (concat (replicate k [Read (BlockQueue i), Read (Interrupted i), Sleep (Block i), Acquire (Block i)]))"
  by (simp add: set_replicate_conv_if)

lemma socket_leaves: "socket_script n as \<Longrightarrow> QueueMap \<notin> touched as"
  by (induction rule: socket_script.induct)
    (auto simp: open_script_def bind_script_def sendTo_script_def recvFrom_script_def no_queues
      simp del: map_map upt_Suc split: option.split)

lemma queues_in_interrupt_thread: "any_script n {i} t as \<Longrightarrow> QueueMap \<in> touched as \<Longrightarrow> t = i"
  by (auto simp: any_script.simps quiet_script.simps dest: socket_leaves)

lemma queues_in_one_thread:
  assumes "any_script n {i} t as" "any_script n {i} u bs" "v \<in> touched as" "v \<in> touched bs" "v \<in> {QueueMap}"
  shows "t = u"
  using assms queues_in_interrupt_thread by blast

text \<open>Any number of interrupt threads; then the one of the program, without events and with them.\<close>

interpretation all_threads: lock_discipline "any_script n I" mutex_rank 4 guard_of guarded_vars "{}" for n I
  by unfold_locales (simp_all add: checks_any rank_at_most)

interpretation quiet_threads: lock_discipline "quiet_script n {i}" mutex_rank 4 guard_of quiet_vars "{QueueMap}" for n i
proof unfold_locales
  fix t u v as bs
  assume "quiet_script n {i} t as" "quiet_script n {i} u bs" "v \<in> touched as" "v \<in> touched bs" "v \<in> {QueueMap}"
  then show "t = u" using queues_in_one_thread any_script.quiet by metis
qed (simp_all add: checks_quiet rank_at_most quiet_vars_def)

interpretation program_threads: lock_discipline "any_script n {i}" mutex_rank 4 guard_of guarded_vars "{QueueMap}" for n i
  by unfold_locales (simp_all add: checks_any rank_at_most, metis queues_in_one_thread singletonI)

section \<open>Properties\<close>

text \<open>The threads at the point where an event and a receive meet at block 0.\<close>

definition event_rest :: "nat \<Rightarrow> script" where
  "event_rest n = concat (map (\<lambda>j. [Read (BlockState j), Acquire (Block j), Release (Block j), Write (Interrupted j)]) [1..<n])"

definition recv_rest :: script where
  "recv_rest = log_script 1 @ [Read (Interrupted 0)] @ [Read (BlockQueue 0), Write (BlockQueue 0), Read (BlockQueue 0)] @
     [Release (Block 0)]"

definition meeting :: "nat \<Rightarrow> (mutex, shared) threads" where
  "meeting n = \<lparr>todo = (\<lambda>_. [])(0 := Write (Interrupted 0) # event_rest n, 1 := Read (Interrupted 0) # recv_rest),
     held = (\<lambda>_. [])(1 := [Block 0]), asleep = {}\<rparr>"

lemma no_sleep_log: "Sleep l \<notin> set (log_script n)"
  by (auto simp: log_script_def)

lemma meeting_reachable:
  assumes "0 < n" "0 \<in> I"
  shows "threads_reachable (any_script n I) (meeting n)"
proof -
  let ?pre = "log_script 2 @ [Acquire Manager, Release Manager] @ [Read (BlockState 0), Acquire (Block 0), Release (Block 0)]"
  let ?pre' = "[Acquire Manager, Release Manager, Acquire (Block 0), Read (BlockQueue 0)]"
  let ?ev = "Write (Interrupted 0) # event_rest n" and ?rv = "Read (Interrupted 0) # recv_rest"
  have "[0..<n] = 0 # [1..<n]" using assms(1) by (simp add: upt_conv_Cons)
  then have ev: "event_script n UNIV = ?pre @ ?ev"
    by (simp add: event_script_def interruptAll_script_def event_rest_def)
  have rv: "recvFrom_script 0 0 False = ?pre' @ ?rv"
    by (simp add: recvFrom_script_def recv_rest_def)
  let ?s1 = "no_threads\<lparr>todo := (todo no_threads)(0 := event_script n UNIV)\<rparr> :: (mutex, shared) threads"
  let ?s2 = "?s1\<lparr>todo := (todo ?s1)(0 := ?ev), held := (held ?s1)(0 := [])\<rparr>"
  let ?s3 = "?s2\<lparr>todo := (todo ?s2)(1 := recvFrom_script 0 0 False)\<rparr>"
  let ?s4 = "?s3\<lparr>todo := (todo ?s3)(1 := ?rv), held := (held ?s3)(1 := [Block 0])\<rparr>"
  have "threads_reachable (any_script n I) ?s1"
    by (rule more_threads [OF begin_threads begin_script]) (simp_all add: no_threads_def any_script.event assms(2))
  then have "threads_reachable (any_script n I) ?s2"
    by (rule run_alone [where xs = ?pre and rank = mutex_rank and guard = guard_of])
      (auto simp: ev no_threads_def check_append lock_parts no_sleep_log)
  moreover have "any_script n I 1 (recvFrom_script 0 0 False)"
    using assms by (auto intro: any_script.quiet quiet_script.intros socket_script.intros)
  then have "threads_step (any_script n I) ?s2 ?s3"
    by (intro begin_script) (simp_all add: no_threads_def)
  ultimately have "threads_reachable (any_script n I) ?s3"
    by (rule more_threads)
  then have "threads_reachable (any_script n I) ?s4"
    by (rule run_alone [where xs = ?pre' and rank = mutex_rank and guard = guard_of])
      (auto simp: rv no_threads_def)
  moreover have "?s4 = meeting n"
    by (simp add: meeting_def no_threads_def fun_upd_twist fun_eq_iff)
  ultimately show ?thesis by simp
qed

text \<open>
  C33. No deadlock.  However many threads make socket calls and handle signals, in whatever order
  their actions come: if a thread is in the middle of one and not asleep on a condition variable,
  then it, or a thread that it waits for directly or through others, can go on.
\<close>

theorem threads_never_stuck:
  assumes "threads_reachable (any_script n I) s" "t \<notin> asleep s" "todo s t \<noteq> []"
  shows "\<exists>u. (waits_for s)\<^sup>*\<^sup>* t u \<and> (\<exists>s'. act u s s')"
  using assms by (rule all_threads.no_deadlock)

lemma threads_never_stuck_witness: "\<exists>u. (waits_for (meeting 1))\<^sup>*\<^sup>* 0 u \<and> (\<exists>s'. act u (meeting 1) s')"
  by (rule threads_never_stuck [where n = 1 and I = "{0}", OF meeting_reachable]) (simp_all add: meeting_def)

text \<open>
  C34. With one interrupt thread, as the program has it, and any number of threads that make socket
  calls: two threads are never both about to touch the same shared variable, unless one of them
  handles an event; then it can only be the flag \<open>interrupted\<close> or the state of a block, which
  \<open>interruptAll\<close> touches without the mutex.  For the map of the protocol queues this is so because
  only the interrupt thread touches it, not because of the mutexes taken for it.
\<close>

theorem shared_variables_guarded:
  assumes "t \<noteq> u" "todo s t = a # as" "accesses a = Some v" "todo s u = b # bs" "accesses b = Some v"
  shows "\<not> threads_reachable (quiet_script n {i}) s \<and>
    (threads_reachable (any_script n {i}) s \<longrightarrow> (\<exists>j. v = Interrupted j \<or> v = BlockState j))"
  using assms quiet_threads.no_race [of n i s t a as v u b bs] program_threads.no_race [of n i s t a as v u b bs]
  by (auto simp: guarded_vars_def quiet_vars_def)

lemma shared_variables_guarded_witness: "\<not> threads_reachable (quiet_script 1 {0}) (meeting 1)"
  using shared_variables_guarded [of 0 1 "meeting 1" "Write (Interrupted 0)" "event_rest 1" "Interrupted 0"
      "Read (Interrupted 0)" recv_rest 1 0]
  by (simp add: meeting_def)

text \<open>
  With an event the race is real: there is a reachable state in which \<open>interruptAll\<close> is about
  to set the flag of a block while a receiver, which holds the block's mutex, is about to read it.
\<close>

theorem interrupt_flag_raced:
  assumes "0 < n"
  shows "\<exists>s. threads_reachable (any_script n {0}) s \<and> asleep s = {} \<and> held s 0 = [] \<and> held s 1 = [Block 0] \<and>
    (\<exists>as bs. todo s 0 = Write (Interrupted 0) # as \<and> todo s 1 = Read (Interrupted 0) # bs)"
proof -
  have "asleep (meeting n) = {} \<and> held (meeting n) 0 = [] \<and> held (meeting n) 1 = [Block 0] \<and>
    (\<exists>as bs. todo (meeting n) 0 = Write (Interrupted 0) # as \<and> todo (meeting n) 1 = Read (Interrupted 0) # bs)"
    by (simp add: meeting_def)
  with meeting_reachable [OF assms] show ?thesis by blast
qed

lemma interrupt_flag_raced_witness:
  "\<exists>s. threads_reachable (any_script 100 {0}) s \<and> asleep s = {} \<and> held s 0 = [] \<and> held s 1 = [Block 0] \<and>
    (\<exists>as bs. todo s 0 = Write (Interrupted 0) # as \<and> todo s 1 = Read (Interrupted 0) # bs)"
  by (rule interrupt_flag_raced) simp

text \<open>
  The mutexes of the queues exclude nobody: were there a second interrupt thread, one could be inside
  \<open>EtherDevice::handler\<close> and the other inside \<open>handleProtocolSignal\<close>, each with its mutex, and both
  about to change the map.
\<close>

lemma queue_mutexes_exclude_nobody:
  "\<exists>s. threads_reachable (quiet_script n {0, 1}) s \<and> held s 0 = [DeviceQueues] \<and> held s 1 = [MainQueues] \<and>
    (\<exists>as bs. todo s 0 = Write QueueMap # as \<and> todo s 1 = Write QueueMap # bs)"
proof -
  let ?pre = "log_script 2 @ [Acquire DeviceQueues, Read QueueMap, Read QueueMap]"
  let ?pre' = "log_script 1 @ [Acquire MainQueues, Read QueueMap] @ log_script 1 @ [Read QueueMap]"
  let ?dev = "Write QueueMap # log_script 1 @ [Release DeviceQueues]"
  let ?prt = "Write QueueMap # packet_script UnknownProtocol @ [Release MainQueues]"
  have d: "device_script True = ?pre @ ?dev" by (simp add: device_script_def)
  have p: "protocol_script [[UnknownProtocol]] = ?pre' @ ?prt" by (simp add: protocol_script_def queue_script_def)
  let ?s1 = "no_threads\<lparr>todo := (todo no_threads)(0 := device_script True)\<rparr> :: (mutex, shared) threads"
  let ?s2 = "?s1\<lparr>todo := (todo ?s1)(0 := ?dev), held := (held ?s1)(0 := [DeviceQueues])\<rparr>"
  let ?s3 = "?s2\<lparr>todo := (todo ?s2)(1 := protocol_script [[UnknownProtocol]])\<rparr>"
  let ?s4 = "?s3\<lparr>todo := (todo ?s3)(1 := ?prt), held := (held ?s3)(1 := [MainQueues])\<rparr>"
  have "threads_reachable (quiet_script n {0, 1}) ?s1"
    by (rule more_threads [OF begin_threads begin_script]) (simp_all add: no_threads_def quiet_script.device_signal)
  then have "threads_reachable (quiet_script n {0, 1}) ?s2"
    by (rule run_alone [where xs = ?pre and rank = mutex_rank and guard = guard_of])
      (auto simp: d no_threads_def check_append lock_parts no_sleep_log)
  moreover have "threads_step (quiet_script n {0, 1}) ?s2 ?s3"
    by (intro begin_script) (simp_all add: no_threads_def quiet_script.protocol_signal)
  ultimately have "threads_reachable (quiet_script n {0, 1}) ?s3"
    by (rule more_threads)
  then have "threads_reachable (quiet_script n {0, 1}) ?s4"
    by (rule run_alone [where xs = ?pre' and rank = mutex_rank and guard = guard_of])
      (auto simp: p no_threads_def check_append lock_parts no_sleep_log, auto simp: log_script_def)
  moreover have "held ?s4 0 = [DeviceQueues] \<and> held ?s4 1 = [MainQueues] \<and>
    (\<exists>as bs. todo ?s4 0 = Write QueueMap # as \<and> todo ?s4 1 = Write QueueMap # bs)" by simp
  ultimately show ?thesis by blast
qed

end
