(* ===== verification/TwoHosts.thy ===== *)
theory TwoHosts
  imports MainLoop
begin

text \<open>
  Two machines that run the program on one link, each the gateway of the other: a frame one writes to
  its device is a frame that arrives at the other's.
\<close>

section \<open>Frames between two hosts\<close>

definition last_frame :: "world \<Rightarrow> bytes" where
  "last_frame w = snd (last (written w))"

lemma last_frame_append [simp]: "last_frame (w\<lparr>written := fs @ [(k, f)]\<rparr>) = f"
  by (simp add: last_frame_def)

lemma ether_pad_arp:
  "length sha = 6 \<Longrightarrow> length tha = 6 \<Longrightarrow> length spa = 4 \<Longrightarrow> length tpa = 4 \<Longrightarrow>
    ether_pad (arp_layout ht pt op sha spa tha tpa []) = arp_layout ht pt op sha spa tha tpa (replicate 18 0)"
  by (simp add: ether_pad_def arp_layout_def be16_def)

lemma ether_pad_ip: "ether_pad (ip_layout h p) = ip_layout h (p @ replicate (46 - (20 + length p)) 0)"
  by (simp add: ether_pad_def ip_layout_def be16_def be32_def)

lemma learn_select: "cache_select (arpCache (learn ip mac w)) ip =
    (case cache_select (arpCache w) ip of None \<Rightarrow> Some \<lparr>protocolAddress = ip, hardwareAddress = mac\<rparr> | Some c \<Rightarrow> Some c)"
  by (simp add: learn_def arp.sel_create split: option.split)

text \<open>A request of one host that arrives at the other, whose address it asks for, and the answer back.\<close>

lemma request_arrives:
  assumes b: "configured intr b dev iface route" "idle b"
    and a: "length (dev_address deva) = 6"
  shows "reachable intr (frame_arrived (request_frame deva ifacea (unicast iface)) b)
    (idle_system ((learn (unicast ifacea) (dev_address deva) b)\<lparr>written := written b @
       [(0, reply_frame dev iface (dev_address deva) (be32 (unicast ifacea)))]\<rparr>))"
proof -
  let ?b = "arp_layout 1 0x0800 1 (dev_address deva) (be32 (unicast ifacea)) (replicate 6 0) (be32 (unicast iface)) (replicate 18 0)"
  note c = configured_facts [OF b(1)]
  have "arp_handle \<lparr>pd_type = arpType, pd_data = ?b, pd_devicePtr = Some 0\<rparr> b =
      (Inr 0, (learn (unicast ifacea) (dev_address deva) b)\<lparr>written := written b @
         [(0, reply_frame dev iface (dev_address deva) (be32 (unicast ifacea)))]\<rparr>)"
    using arp_handle_layout [OF c(1) _ c(2,3), where pd = "\<lparr>pd_type = arpType, pd_data = ?b, pd_devicePtr = Some 0\<rparr>"
        and ht = 1 and op = 1 and sha = "dev_address deva" and sip = "unicast ifacea" and tha = "replicate 6 0"
        and tip = "unicast iface" and rest = "replicate 18 0"] a
    by (simp add: OP_REQUEST_def)
  moreover have "length ?b \<le> 1500" using a by (simp add: arp_layout_def)
  moreover have "length broadcastAddress = 6" by (simp add: broadcastAddress_def)
  ultimately show ?thesis
    using arp_pipeline [OF b _ a, of broadcastAddress ?b "Inr 0"] a
    by (simp add: request_frame_def ether_pad_arp idle_system_def)
qed

lemma reply_arrives:
  assumes a: "configured intr a dev iface route" "idle a" "length (dev_address dev) = 6"
    and b: "length (dev_address devb) = 6"
  shows "reachable intr (frame_arrived (reply_frame devb ifaceb (dev_address dev) (be32 (unicast iface))) a)
    (idle_system (learn (unicast ifaceb) (dev_address devb) a))"
proof -
  let ?b = "arp_layout 1 0x0800 2 (dev_address devb) (be32 (unicast ifaceb)) (dev_address dev) (be32 (unicast iface)) (replicate 18 0)"
  note c = configured_facts [OF a(1)]
  have "arp_handle \<lparr>pd_type = arpType, pd_data = ?b, pd_devicePtr = Some 0\<rparr> a =
      (Inr 0, learn (unicast ifaceb) (dev_address devb) a)"
    using arp_handle_layout [OF c(1) _ c(2,3), where pd = "\<lparr>pd_type = arpType, pd_data = ?b, pd_devicePtr = Some 0\<rparr>"
        and ht = 1 and op = 2 and sha = "dev_address devb" and sip = "unicast ifaceb" and tha = "dev_address dev"
        and tip = "unicast iface" and rest = "replicate 18 0"] a b
    by (simp add: OP_REQUEST_def)
  moreover have "length ?b \<le> 1500" using a b by (simp add: arp_layout_def)
  ultimately show ?thesis
    using arp_pipeline [OF a(1,2) a(3) b, of ?b "Inr 0"] a b
    by (simp add: reply_frame_def ether_pad_arp idle_system_def)
qed

text \<open>
  The two hosts get to know each other: the first after it has asked for the other's address, the
  other after it has answered, and the first when it has the answer.
\<close>

definition asks :: "EtherDevice \<Rightarrow> IpNetworkInterface \<Rightarrow> u32 \<Rightarrow> world \<Rightarrow> world" where
  "asks dev iface ip a =
     a\<lparr>ipGenId := ipGenId a + 1, written := written a @ [(0, request_frame dev iface ip)]\<rparr>"

definition answers :: "EtherDevice \<Rightarrow> IpNetworkInterface \<Rightarrow> bytes \<Rightarrow> u32 \<Rightarrow> world \<Rightarrow> world" where
  "answers dev iface mac ip b =
     (learn ip mac b)\<lparr>written := written b @ [(0, reply_frame dev iface mac (be32 ip))]\<rparr>"

definition introduced :: "EtherDevice \<Rightarrow> IpNetworkInterface \<Rightarrow> bytes \<Rightarrow> u32 \<Rightarrow> world \<Rightarrow> world" where
  "introduced dev iface mac ip a = learn ip mac (asks dev iface ip a)"

lemma introduction:
  assumes a: "configured intra a deva ifacea routea" "idle a"
    and b: "configured intrb b devb ifaceb routeb" "idle b"
  defines "a1 \<equiv> asks deva ifacea (unicast ifaceb) a"
    and "b1 \<equiv> answers devb ifaceb (dev_address deva) (unicast ifacea) b"
    and "a2 \<equiv> introduced deva ifacea (dev_address devb) (unicast ifaceb) a"
  shows "reachable intrb (frame_arrived (last_frame a1) b) (idle_system b1)"
    and "reachable intra (frame_arrived (last_frame b1) a1) (idle_system a2)"
    and "configured intra a2 deva ifacea routea" "idle a2" "configured intrb b1 devb ifaceb routeb" "idle b1"
proof -
  have mac: "length (dev_address deva) = 6" "length (dev_address devb) = 6" using a b by (simp_all add: configured_def)
  have a1: "configured intra a1 deva ifacea routea" "idle a1"
    using a by (simp_all add: configured_def idle_def a1_def asks_def)
  show "reachable intrb (frame_arrived (last_frame a1) b) (idle_system b1)"
    using request_arrives [OF b mac(1)] by (simp add: a1_def b1_def asks_def answers_def)
  show "reachable intra (frame_arrived (last_frame b1) a1) (idle_system a2)"
    using reply_arrives [OF a1 mac] by (simp add: b1_def a2_def answers_def introduced_def flip: a1_def)
  show "configured intra a2 deva ifacea routea" "idle a2" "configured intrb b1 devb ifaceb routeb" "idle b1"
    using a b by (simp_all add: configured_def idle_def learn_def asks_def a2_def b1_def introduced_def answers_def)
qed

lemma introduced_frame [simp]:
  "udpPcbs (introduced dev iface mac ip a) = udpPcbs a" "ipGenId (introduced dev iface mac ip a) = ipGenId a + 1"
  "udpPcbs (answers dev iface mac ip b) = udpPcbs b" "ipGenId (answers dev iface mac ip b) = ipGenId b"
  by (simp_all add: introduced_def answers_def asks_def learn_def)

lemma introduced_caches:
  "cache_select (arpCache a) ip = None \<Longrightarrow> cache_select (arpCache (introduced dev iface mac ip a)) ip =
     Some \<lparr>protocolAddress = ip, hardwareAddress = mac\<rparr>"
  "cache_select (arpCache b) ip = None \<Longrightarrow> cache_select (arpCache (answers dev iface mac ip b)) ip =
     Some \<lparr>protocolAddress = ip, hardwareAddress = mac\<rparr>"
  "cache_select (arpCache (answers dev iface mac ip b)) ip \<noteq> None"
  by (simp_all add: introduced_def answers_def asks_def learn_select split: option.split)

text \<open>A datagram in a packet of one host that arrives at the other.\<close>

lemma datagram_arrives:
  assumes b: "configured intr b dev iface route" "idle b"
    and len: "even (length data)" "length data \<le> 1472"
    and f: "length mac = 6" "length (dev_address deva) = 6"
    and d: "addr d = unicast iface" "pcb_select (udpPcbs b) (addr d) (port d) = Some j"
    and ip: "carry_safe (header_sum (out_header0 UDP_TYPE (8 + length data) ident (addr s) (addr d)))"
    and udp: "carry_safe (datagram_sum (udp_out_header0 s d (length data)) data)"
      "carry_safe (datagram_sum (udp_out_header s d data) data)"
  shows "reachable intr
      (frame_arrived (ip_frame deva mac (ip_layout (out_header UDP_TYPE (8 + length data) ident (addr s) (addr d))
         (udp_layout (udp_out_header s d data) data))) b)
      (idle_system (b\<lparr>udpPcbs := pcb_push (udpPcbs b) j \<lparr>pl_data = data @ replicate 8 0, pl_endpoint = s\<rparr>\<rparr>))"
proof -
  let ?h = "out_header UDP_TYPE (8 + length data) ident (addr s) (addr d)"
  let ?p = "udp_layout (udp_out_header s d data) data"
  let ?pad = "replicate (46 - (20 + length ?p)) 0 :: bytes"
  let ?in = "\<lparr>ip_type = UDP_TYPE, ip_data = ?p, ip_src_addr = addr s, ip_dst_addr = unicast iface, ip_interface = iface\<rparr>"
  let ?w = "b\<lparr>udpPcbs := pcb_push (udpPcbs b) j \<lparr>pl_data = data @ replicate 8 0, pl_endpoint = s\<rparr>\<rparr>"
  have l: "unat (of_nat (8 + length data) :: u16) = 8 + length data"
    "unat (of_nat (28 + length data) :: u16) = 28 + length data"
    using len(2) by (simp_all only: unat_of_nat_u16)
  have acc: "udp_accepts (addr s) (unicast iface) ?p"
    using out_datagram_accepted [OF len(1) _ udp] len(2) d(1) by simp
  have run: "udp_handle ?in b = (Inr 0, ?w)"
    using udp_handle_layout [of ?in "udp_out_header s d data" data b] acc d l(1) len(1)
    by (simp del: of_nat_add)
  have "reachable intr (frame_arrived (ether_layout mac (dev_address deva) ipType (ip_layout ?h (?p @ ?pad))) b)
      \<lparr>sys_world = ?w, sys_rx = (\<lambda>_. []), sys_thread = after_dispatch (map_sum id (\<lambda>_. False) (Inr 0 :: int result))\<rparr>"
  proof (rule packet_pipeline [OF b f])
    show "length ?p + length ?pad \<le> 1480" using len(2) by simp
    show "header_valid ?h" using ip by (simp add: out_header_valid)
    show "unat (h_total ?h) = 20 + length ?p" using l(2) by (simp del: of_nat_add)
    show "ipHandlers b (h_proto ?h) = Some UdpHandler" using configured_handlers(2) [OF b(1)] by simp
    show "ip_run UdpHandler \<lparr>ip_type = h_proto ?h, ip_data = ?p, ip_src_addr = h_src ?h,
        ip_dst_addr = unicast iface, ip_interface = iface\<rparr> b = (Inr 0, ?w)"
      using run by simp
  qed (use d in simp_all)
  then show ?thesis by (simp add: ip_frame_def ether_pad_ip idle_system_def)
qed

section \<open>The exchange\<close>

lemma sendTo_to_gateway:
  assumes cfg: "configured intr a dev iface route" and sock: "socket_block sock a i" "endpoint (udpPcbs a ! i) = s"
    and s: "addr s = unicast iface" "addr s \<noteq> IP_ADDR_ANY" "port s \<noteq> 0"
    and len: "even (length data)" "length data \<le> 1472"
  shows "sendTo sock data (Uint32ToIpv4str (addr d)) (ucast (port d)) a =
    ipv4_output UDP_TYPE (udp_layout (udp_out_header s d data) data) (addr s) (addr d) a"
    and "routed a 0 dev route" "source_allowed (addr s) (addr d) route"
    and "length (udp_layout (udp_out_header s d data) data) \<le> 65515"
proof -
  have "ucast (ucast (port d) :: u32) = port d" by (rule bit_word_eqI) (simp add: bit_simps)
  then show "sendTo sock data (Uint32ToIpv4str (addr d)) (ucast (port d)) a =
    ipv4_output UDP_TYPE (udp_layout (udp_out_header s d data) data) (addr s) (addr d) a"
    using sendTo_bound [OF ipv4_text_inverse sock(1), where a = "addr d" and payload = data and p = "ucast (port d)"] sock(2) s len
    by (simp add: udp_output_layout)
  show "routed a 0 dev route" by (rule configured_facts(4) [OF cfg])
  show "source_allowed (addr s) (addr d) route" using configured_source [OF cfg] s by simp
  show "length (udp_layout (udp_out_header s d data) data) \<le> 65515" using len by simp
qed

text \<open>Sent to a gateway that is not known yet, a datagram is lost and a request leaves instead.\<close>

lemma first_send_lost:
  fixes d :: IpEndpoint
  assumes cfg: "configured intr a dev iface route" and sock: "socket_block sock a i" "endpoint (udpPcbs a ! i) = s"
    and s: "addr s = unicast iface" "addr s \<noteq> IP_ADDR_ANY" "port s \<noteq> 0"
    and len: "even (length data)" "length data \<le> 1472"
    and gw: "route_gateway route = g" "cache_select (arpCache a) g = None"
  shows "sendTo sock data (Uint32ToIpv4str (addr d)) (ucast (port d)) a =
    (Inl (ArpResolveException ''not find arp cache. call arp reqest''), asks dev iface g a)"
proof -
  note first = sendTo_to_gateway [OF assms(1-8)]
  show ?thesis
    using ipv4_output_unresolved [OF first(2-4)] gw configured_facts(5) [OF cfg] unfolding first(1) [where d = d]
    by (simp add: asks_def)
qed

text \<open>
  The first datagram between two hosts that do not know each other yet.  \<open>sendTo\<close> throws, and an
  ARP request leaves in the place of the datagram; the other host answers it and learns the sender;
  the answer ends the resolution; sent again, the datagram arrives and is queued for the socket its
  destination selects, with eight zero bytes behind its data.
\<close>

theorem first_datagram_delivered:
  assumes a: "configured intra a deva ifacea routea" "idle a"
    and b: "configured intrb b devb ifaceb routeb" "idle b"
    and gw: "route_gateway routea = unicast ifaceb" "cache_select (arpCache a) (unicast ifaceb) = None"
    and sock: "socket_block sock a i" "endpoint (udpPcbs a ! i) = s"
    and s: "addr s = unicast ifacea" "addr s \<noteq> IP_ADDR_ANY" "port s \<noteq> 0"
    and d: "addr d = unicast ifaceb" "pcb_select (udpPcbs b) (addr d) (port d) = Some j"
    and len: "even (length data)" "length data \<le> 1472"
    and ip: "carry_safe (header_sum (out_header0 UDP_TYPE (8 + length data) (ipGenId a + 1) (addr s) (addr d)))"
    and udp: "carry_safe (datagram_sum (udp_out_header0 s d (length data)) data)"
      "carry_safe (datagram_sum (udp_out_header s d data) data)"
  shows "\<exists>a1 b1 a2 a3.
    sendTo sock data (Uint32ToIpv4str (addr d)) (ucast (port d)) a =
      (Inl (ArpResolveException ''not find arp cache. call arp reqest''), a1) \<and>
    reachable intrb (frame_arrived (last_frame a1) b) (idle_system b1) \<and>
    reachable intra (frame_arrived (last_frame b1) a1) (idle_system a2) \<and>
    sendTo sock data (Uint32ToIpv4str (addr d)) (ucast (port d)) a2 = (Inr 0, a3) \<and>
    reachable intrb (frame_arrived (last_frame a3) b1) (idle_system (b1\<lparr>udpPcbs :=
      pcb_push (udpPcbs b) j \<lparr>pl_data = data @ replicate 8 0, pl_endpoint = s\<rparr>\<rparr>)) \<and>
    cache_select (arpCache a2) (unicast ifaceb) = Some \<lparr>protocolAddress = unicast ifaceb, hardwareAddress = dev_address devb\<rparr> \<and>
    cache_select (arpCache b1) (unicast ifacea) \<noteq> None"
proof -
  let ?m = "udp_layout (udp_out_header s d data) data"
  let ?a1 = "asks deva ifacea (unicast ifaceb) a"
  let ?b1 = "answers devb ifaceb (dev_address deva) (unicast ifacea) b"
  let ?a2 = "introduced deva ifacea (dev_address devb) (unicast ifaceb) a"
  let ?f = "ip_frame deva (dev_address devb) (ip_layout (out_header UDP_TYPE (8 + length data) (ipGenId a + 1) (addr s) (addr d)) ?m)"
  let ?a3 = "?a2\<lparr>ipGenId := ipGenId a + 1 + 1, written := written ?a2 @ [(0, ?f)]\<rparr>"
  note intro = introduction [OF a b]
  have mac: "length (dev_address deva) = 6" "length (dev_address devb) = 6" using a b by (simp_all add: configured_def)
  have sock2: "socket_block sock ?a2 i" "endpoint (udpPcbs ?a2 ! i) = s"
    using sock by (simp_all add: socket_block_def)
  note again = sendTo_to_gateway [OF intro(3) sock2 s len]
  note known = introduced_caches(1) [OF gw(2)]
  have "sendTo sock data (Uint32ToIpv4str (addr d)) (ucast (port d)) a =
      (Inl (ArpResolveException ''not find arp cache. call arp reqest''), ?a1)"
    by (rule first_send_lost [OF a(1) sock s len gw])
  moreover have "sendTo sock data (Uint32ToIpv4str (addr d)) (ucast (port d)) ?a2 = (Inr 0, ?a3)"
    using ipv4_output_sent [OF again(2-4)] gw(1) known mac(2) unfolding again(1) [where d = d]
    by (simp del: of_nat_add)
  moreover have "reachable intrb (frame_arrived (last_frame ?a3) ?b1) (idle_system (?b1\<lparr>udpPcbs :=
      pcb_push (udpPcbs b) j \<lparr>pl_data = data @ replicate 8 0, pl_endpoint = s\<rparr>\<rparr>))"
    using datagram_arrives [OF intro(5,6) len mac(2,1) d(1) _ ip udp, of j] d(2) by simp
  ultimately show ?thesis using intro(1,2) known introduced_caches(3) by blast
qed

text \<open>Two hosts set up as main.cpp does, the second with the addresses exchanged.\<close>

definition local_end :: IpEndpoint where "local_end = \<lparr>addr = 0xC0000202, port = 5555\<rparr>"
definition remote_end :: IpEndpoint where "remote_end = \<lparr>addr = 0xC0000201, port = 5555\<rparr>"

definition remote_interface :: IpNetworkInterface where
  "remote_interface = main_interface\<lparr>unicast := 0xC0000201\<rparr>"

definition remote_device :: EtherDevice where
  "remote_device = main_device\<lparr>dev_address := [0x02, 0, 0, 0, 0, 0x01], networkInterfaces := [IpInterface remote_interface]\<rparr>"

definition remote_route :: Route where
  "remote_route = main_route\<lparr>route_gateway := 0xC0000202, route_interface := remote_interface\<rparr>"

definition local_world :: world where "local_world = main_world \<lparr>addr = 0, port = 0\<rparr>"

definition remote_world :: world where
  "remote_world = local_world\<lparr>routeTable := [remote_route], devices := [remote_device],
     udpPcbs := [(udpPcbs local_world ! 0)\<lparr>endpoint := remote_end\<rparr>]\<rparr>"

lemma remote_facts: "configured main_interrupt remote_world remote_device remote_interface remote_route" "idle remote_world"
  using main_configured [of "\<lparr>addr = 0, port = 0\<rparr>"] main_idle [of "\<lparr>addr = 0, port = 0\<rparr>"]
  by (simp_all add: configured_def idle_def remote_world_def local_world_def remote_device_def remote_interface_def
      remote_route_def main_device_def)

lemma exchange_safe:
  "carry_safe (datagram_sum (udp_out_header0 local_end remote_end 2) [0x68, 0x69])"
  "carry_safe (datagram_sum (udp_out_header local_end remote_end [0x68, 0x69]) [0x68, 0x69])"
  "carry_safe (header_sum (out_header0 UDP_TYPE 10 129 0xC0000202 0xC0000201))"
  by (simp_all add: local_end_def remote_end_def datagram_sum_def udp_out_header_def udp_out_header0_def Let_def
      udp_layout_def udp_check_of_def pseudo_fold_def ph_layout_def be16_def be32_def UDP_TYPE_def fold_carry_def
      carry_safe_def header_sum_def out_header0_def)

lemma first_datagram_delivered_witness:
  "\<exists>a1 b1 a2 a3.
    sendTo \<lparr>sock_id = 0, sock_pcbId = 0\<rparr> [0x68, 0x69] (Uint32ToIpv4str (addr remote_end)) (ucast (port remote_end)) local_world =
      (Inl (ArpResolveException ''not find arp cache. call arp reqest''), a1) \<and>
    reachable main_interrupt (frame_arrived (last_frame a1) remote_world) (idle_system b1) \<and>
    reachable main_interrupt (frame_arrived (last_frame b1) a1) (idle_system a2) \<and>
    sendTo \<lparr>sock_id = 0, sock_pcbId = 0\<rparr> [0x68, 0x69] (Uint32ToIpv4str (addr remote_end)) (ucast (port remote_end)) a2 = (Inr 0, a3) \<and>
    reachable main_interrupt (frame_arrived (last_frame a3) b1) (idle_system (b1\<lparr>udpPcbs :=
      pcb_push (udpPcbs remote_world) 0 \<lparr>pl_data = [0x68, 0x69] @ replicate 8 0, pl_endpoint = local_end\<rparr>\<rparr>)) \<and>
    cache_select (arpCache a2) (unicast remote_interface) =
      Some \<lparr>protocolAddress = unicast remote_interface, hardwareAddress = dev_address remote_device\<rparr> \<and>
    cache_select (arpCache b1) (unicast main_interface) \<noteq> None"
proof (rule first_datagram_delivered [where i = 0])
  show "configured main_interrupt local_world main_device main_interface main_route" "idle local_world"
    by (simp_all add: local_world_def main_configured main_idle)
  show "configured main_interrupt remote_world remote_device remote_interface remote_route" "idle remote_world"
    by (rule remote_facts)+
  show "socket_block \<lparr>sock_id = 0, sock_pcbId = 0\<rparr> local_world 0" "endpoint (udpPcbs local_world ! 0) = local_end"
    by (simp_all add: socket_block_def local_world_def main_world_def local_end_def)
  show "pcb_select (udpPcbs remote_world) (addr remote_end) (port remote_end) = Some 0"
    by (simp add: pcb_select_def remote_world_def local_world_def main_world_def matches_def remote_end_def)
  show "carry_safe (header_sum (out_header0 UDP_TYPE (8 + length [0x68, 0x69 :: u8]) (ipGenId local_world + 1)
      (addr local_end) (addr remote_end)))"
    using exchange_safe(3) by (simp add: local_world_def main_world_def local_end_def remote_end_def)
  show "carry_safe (datagram_sum (udp_out_header0 local_end remote_end (length [0x68, 0x69 :: u8])) [0x68, 0x69])"
    using exchange_safe(1) by (simp add: numeral_2_eq_2)
qed (use exchange_safe(2) in \<open>simp_all add: main_route_def remote_interface_def main_interface_def local_world_def
    main_world_def local_end_def remote_end_def IP_ADDR_ANY_def cache_select_def\<close>)

end
