(* ===== verification/Ping.thy ===== *)
theory Ping
  imports TwoHosts
begin

text \<open>
  An echo request from one host to the other: \<open>sendIcmp\<close> on the one, the answer of \<open>IcmpHandler\<close>
  on the other, and its way back, over the link of theory TwoHosts.
\<close>

section \<open>Sending\<close>

lemma sendIcmp_unresolved:
  assumes "routed a 0 dev route" "source_allowed (unicast iface) d route"
    and "cache_select (arpCache a) (route_gateway route) = None"
  shows "sendIcmp ident sn d iface a =
    (Inr 0, a\<lparr>ipGenId := ipGenId a + 1,
       written := written a @ [(0, request_frame dev (route_interface route) (route_gateway route))]\<rparr>)"
  using ipv4_output_unresolved [OF assms(1,2) _ assms(3), of "icmp_layout (echo_header ident sn) []" ICMP_TYPE]
  by (simp add: sendIcmp_def echo_message_layout)

definition echo_packet :: "u16 \<Rightarrow> u32 \<Rightarrow> u32 \<Rightarrow> icmp_header \<Rightarrow> bytes" where
  "echo_packet ident s d g = ip_layout (out_header ICMP_TYPE 8 ident s d) (icmp_layout g [])"

lemma sendIcmp_sent:
  assumes "routed a 0 dev route" "source_allowed (unicast iface) d route"
    and "cache_select (arpCache a) (route_gateway route) = Some c" "length (hardwareAddress c) = 6"
  shows "sendIcmp ident sn d iface a =
    (Inr 0, a\<lparr>ipGenId := ipGenId a + 1, written := written a @
       [(0, ip_frame dev (hardwareAddress c) (echo_packet (ipGenId a) (unicast iface) d (echo_header ident sn)))]\<rparr>)"
  using ipv4_output_sent [OF assms(1,2) _ assms(3,4), of "icmp_layout (echo_header ident sn) []" ICMP_TYPE]
  by (simp add: sendIcmp_def echo_message_layout echo_packet_def del: of_nat_add)

section \<open>Arriving\<close>

text \<open>A frame with an echo packet for the interface: the outcome is that of the handler.\<close>

lemma echo_arrives:
  assumes b: "configured intr b dev iface route" "idle b"
    and f: "length mac = 6" "length (dev_address deva) = 6"
    and ip: "carry_safe (header_sum (out_header0 ICMP_TYPE 8 ident s (unicast iface)))"
    and run: "icmp_handle \<lparr>ip_type = ICMP_TYPE, ip_data = icmp_layout g [], ip_src_addr = s,
        ip_dst_addr = unicast iface, ip_interface = iface\<rparr> b = (Inr v, w)"
  shows "reachable intr (frame_arrived (ip_frame deva mac (echo_packet ident s (unicast iface) g)) b) (idle_system w)"
proof -
  let ?h = "out_header ICMP_TYPE 8 ident s (unicast iface)"
  let ?p = "icmp_layout g []"
  let ?pad = "replicate (46 - (20 + length ?p)) 0 :: bytes"
  have "reachable intr (frame_arrived (ether_layout mac (dev_address deva) ipType (ip_layout ?h (?p @ ?pad))) b)
      \<lparr>sys_world = w, sys_rx = (\<lambda>_. []), sys_thread = after_dispatch (map_sum id (\<lambda>_. False) (Inr v :: int result))\<rparr>"
  proof (rule packet_pipeline [OF b f])
    show "header_valid ?h" using ip by (simp add: out_header_valid)
    show "ipHandlers b (h_proto ?h) = Some IcmpHandler" using configured_handlers(1) [OF b(1)] by simp
    show "ip_run IcmpHandler \<lparr>ip_type = h_proto ?h, ip_data = ?p, ip_src_addr = h_src ?h,
        ip_dst_addr = unicast iface, ip_interface = iface\<rparr> b = (Inr v, w)"
      using run by simp
  qed simp_all
  then show ?thesis by (simp add: ip_frame_def ether_pad_ip idle_system_def echo_packet_def)
qed

text \<open>The messages are accepted when their sums need one addition of the carries only.\<close>

definition echo_safe :: "u16 \<Rightarrow> u16 \<Rightarrow> bool" where
  "echo_safe ident sn \<longleftrightarrow>
     (\<forall>type \<in> {TYPE_ECHO, TYPE_ECHO_REPLY}.
        carry_safe (icmp_sum \<lparr>i_type = type, i_code = 0, i_check = 0, i_id = ident, i_seq = sn\<rparr> []))"

lemma echo_accepted:
  assumes "echo_safe ident sn"
  shows "0 < icmp_sum (echo_header ident sn) [] \<and> 65535 dvd icmp_sum (echo_header ident sn) []"
  using checked_sum [of "[]" "\<lparr>i_type = TYPE_ECHO, i_code = 0, i_check = 0, i_id = ident, i_seq = sn\<rparr>"] assms
  by (simp add: echo_header_def Let_def echo_safe_def)

lemma reply_accepted:
  assumes "echo_safe ident sn"
  shows "0 < icmp_sum (reply_header (echo_header ident sn) []) [] \<and>
    65535 dvd icmp_sum (reply_header (echo_header ident sn) []) []"
proof -
  let ?g = "(echo_header ident sn)\<lparr>i_type := TYPE_ECHO_REPLY\<rparr>"
  have g: "?g\<lparr>i_check := 0\<rparr> = \<lparr>i_type = TYPE_ECHO_REPLY, i_code = 0, i_check = 0, i_id = ident, i_seq = sn\<rparr>"
    by (simp add: echo_header_def Let_def)
  have "carry_safe (icmp_sum (?g\<lparr>i_check := 0\<rparr>) [])" unfolding g using assms by (simp add: echo_safe_def)
  then show ?thesis using checked_sum [of "[]" ?g] by (simp add: reply_header_def Let_def)
qed

lemma request_answered:
  assumes b: "configured intr b dev iface route" "idle b" "unicast iface \<noteq> IP_ADDR_ANY"
    and f: "length mac = 6" "length (dev_address deva) = 6" and safe: "echo_safe ident sn"
    and ip: "carry_safe (header_sum (out_header0 ICMP_TYPE 8 i s (unicast iface)))"
    and arp: "cache_select (arpCache b) (route_gateway route) = Some c" "length (hardwareAddress c) = 6"
  shows "reachable intr (frame_arrived (ip_frame deva mac (echo_packet i s (unicast iface) (echo_header ident sn))) b)
    (idle_system (b\<lparr>ipGenId := ipGenId b + 1, written := written b @ [(0, ip_frame dev (hardwareAddress c)
       (echo_packet (ipGenId b) (unicast iface) s (reply_header (echo_header ident sn) [])))]\<rparr>))"
proof (rule echo_arrives [OF b(1,2) f ip])
  let ?in = "\<lparr>ip_type = ICMP_TYPE, ip_data = icmp_layout (echo_header ident sn) [], ip_src_addr = s,
      ip_dst_addr = unicast iface, ip_interface = iface\<rparr>"
  have "length (icmp_layout (reply_header (echo_header ident sn) []) []) \<le> 65515" by simp
  from ipv4_output_sent [OF configured_facts(4) [OF b(1)] configured_source [OF b(1,3)] this arp, of ICMP_TYPE s]
  show "icmp_handle ?in b = (Inr 0, b\<lparr>ipGenId := ipGenId b + 1, written := written b @ [(0, ip_frame dev (hardwareAddress c)
       (echo_packet (ipGenId b) (unicast iface) s (reply_header (echo_header ident sn) [])))]\<rparr>)"
    using icmp_handle_layout [of ?in "echo_header ident sn" "[]"] echo_accepted [OF safe]
    by (simp add: bindM_Inr echo_packet_def del: of_nat_add)
qed

lemma reply_taken:
  assumes a: "configured intr a dev iface route" "idle a"
    and f: "length mac = 6" "length (dev_address devb) = 6" and safe: "echo_safe ident sn"
    and ip: "carry_safe (header_sum (out_header0 ICMP_TYPE 8 i s (unicast iface)))"
  shows "reachable intr (frame_arrived (ip_frame devb mac (echo_packet i s (unicast iface)
      (reply_header (echo_header ident sn) []))) a) (idle_system a)"
proof (rule echo_arrives [OF a f ip])
  let ?in = "\<lparr>ip_type = ICMP_TYPE, ip_data = icmp_layout (reply_header (echo_header ident sn) []) [], ip_src_addr = s,
      ip_dst_addr = unicast iface, ip_interface = iface\<rparr>"
  show "icmp_handle ?in a = (Inr 0, a)"
    using icmp_handle_layout [of ?in "reply_header (echo_header ident sn) []" "[]"] reply_accepted [OF safe]
    by (simp add: TYPE_ECHO_def TYPE_ECHO_REPLY_def)
qed

section \<open>The exchange\<close>

text \<open>
  C8. Two hosts that do not know each other, and an echo request sent twice.  The first \<open>sendIcmp\<close>
  returns 0 although an ARP request has left in the place of the message; the answer introduces the
  hosts to each other; the second request arrives, is answered in one step of the other host's
  protocol queue, and the reply is taken by the first host, which is as it was after sending.
\<close>

theorem ping_answered:
  assumes a: "configured intra a deva ifacea routea" "idle a"
    and b: "configured intrb b devb ifaceb routeb" "idle b"
    and gw: "route_gateway routea = unicast ifaceb" "cache_select (arpCache a) (unicast ifaceb) = None"
      "route_gateway routeb = unicast ifacea" "cache_select (arpCache b) (unicast ifacea) = None"
    and any: "unicast ifacea \<noteq> IP_ADDR_ANY" "unicast ifaceb \<noteq> IP_ADDR_ANY"
    and safe: "echo_safe ident sn"
      "carry_safe (header_sum (out_header0 ICMP_TYPE 8 (ipGenId a + 1) (unicast ifacea) (unicast ifaceb)))"
      "carry_safe (header_sum (out_header0 ICMP_TYPE 8 (ipGenId b) (unicast ifaceb) (unicast ifacea)))"
  shows "\<exists>a1 b1 a2 a3 b2.
    sendIcmp ident sn (unicast ifaceb) ifacea a = (Inr 0, a1) \<and>
    last_frame a1 = request_frame deva ifacea (unicast ifaceb) \<and>
    reachable intrb (frame_arrived (last_frame a1) b) (idle_system b1) \<and>
    reachable intra (frame_arrived (last_frame b1) a1) (idle_system a2) \<and>
    sendIcmp ident sn (unicast ifaceb) ifacea a2 = (Inr 0, a3) \<and>
    reachable intrb (frame_arrived (last_frame a3) b1) (idle_system b2) \<and>
    last_frame b2 = ip_frame devb (dev_address deva)
      (echo_packet (ipGenId b) (unicast ifaceb) (unicast ifacea) (reply_header (echo_header ident sn) [])) \<and>
    reachable intra (frame_arrived (last_frame b2) a3) (idle_system a3)"
proof -
  let ?a1 = "asks deva ifacea (unicast ifaceb) a"
  let ?b1 = "answers devb ifaceb (dev_address deva) (unicast ifacea) b"
  let ?a2 = "introduced deva ifacea (dev_address devb) (unicast ifaceb) a"
  let ?f = "ip_frame deva (dev_address devb) (echo_packet (ipGenId a + 1) (unicast ifacea) (unicast ifaceb) (echo_header ident sn))"
  let ?a3 = "?a2\<lparr>ipGenId := ipGenId a + 1 + 1, written := written ?a2 @ [(0, ?f)]\<rparr>"
  let ?g = "ip_frame devb (dev_address deva)
      (echo_packet (ipGenId b) (unicast ifaceb) (unicast ifacea) (reply_header (echo_header ident sn) []))"
  let ?b2 = "?b1\<lparr>ipGenId := ipGenId b + 1, written := written ?b1 @ [(0, ?g)]\<rparr>"
  note intro = introduction [OF a b]
  have mac: "length (dev_address deva) = 6" "length (dev_address devb) = 6" using a b by (simp_all add: configured_def)
  have a3: "configured intra ?a3 deva ifacea routea" "idle ?a3"
    using intro(3,4) by (simp_all add: configured_def idle_def)
  note route = configured_facts(4) [OF a(1)] configured_source [OF a(1) any(1), of "unicast ifaceb"]
    configured_facts(4) [OF intro(3)] configured_source [OF intro(3) any(1), of "unicast ifaceb"]
  have arp: "cache_select (arpCache ?b1) (route_gateway routeb) =
      Some \<lparr>protocolAddress = unicast ifacea, hardwareAddress = dev_address deva\<rparr>"
    using introduced_caches(2) [OF gw(4)] gw(3) by simp
  have "sendIcmp ident sn (unicast ifaceb) ifacea a = (Inr 0, ?a1)"
    using sendIcmp_unresolved [OF route(1,2)] gw(1,2) configured_facts(5) [OF a(1)] by (simp add: asks_def)
  moreover have "last_frame ?a1 = request_frame deva ifacea (unicast ifaceb)" by (simp add: asks_def)
  moreover have "sendIcmp ident sn (unicast ifaceb) ifacea ?a2 = (Inr 0, ?a3)"
    using sendIcmp_sent [OF route(3,4)] introduced_caches(1) [OF gw(2)] gw(1) mac(2) by simp
  moreover have "reachable intrb (frame_arrived (last_frame ?a3) ?b1) (idle_system ?b2)"
    using request_answered [OF intro(5,6) any(2) mac(2,1) safe(1,2) arp] mac(1) by simp
  moreover have "last_frame ?b2 = ?g" by (rule last_frame_append)
  moreover have "reachable intra (frame_arrived (last_frame ?b2) ?a3) (idle_system ?a3)"
    unfolding last_frame_append by (rule reply_taken [OF a3 mac safe(1,3)])
  ultimately show ?thesis using intro(1,2) by blast
qed

lemma ping_safe:
  "echo_safe 7 1" "carry_safe (header_sum (out_header0 ICMP_TYPE 8 129 0xC0000202 0xC0000201))"
  "carry_safe (header_sum (out_header0 ICMP_TYPE 8 128 0xC0000201 0xC0000202))"
  by (simp_all add: echo_safe_def carry_safe_def icmp_sum_def icmp_layout_def be16_def be32_def TYPE_ECHO_def
      TYPE_ECHO_REPLY_def header_sum_def out_header0_def ICMP_TYPE_def)

theorem ping_answered_witness:
  "\<exists>a1 b1 a2 a3 b2.
    sendIcmp 7 1 (unicast remote_interface) main_interface local_world = (Inr 0, a1) \<and>
    last_frame a1 = request_frame main_device main_interface (unicast remote_interface) \<and>
    reachable main_interrupt (frame_arrived (last_frame a1) remote_world) (idle_system b1) \<and>
    reachable main_interrupt (frame_arrived (last_frame b1) a1) (idle_system a2) \<and>
    sendIcmp 7 1 (unicast remote_interface) main_interface a2 = (Inr 0, a3) \<and>
    reachable main_interrupt (frame_arrived (last_frame a3) b1) (idle_system b2) \<and>
    last_frame b2 = ip_frame remote_device (dev_address main_device)
      (echo_packet (ipGenId remote_world) (unicast remote_interface) (unicast main_interface)
        (reply_header (echo_header 7 1) [])) \<and>
    reachable main_interrupt (frame_arrived (last_frame b2) a3) (idle_system a3)"
proof (rule ping_answered)
  show "configured main_interrupt local_world main_device main_interface main_route" "idle local_world"
    by (simp_all add: local_world_def main_configured main_idle)
  show "configured main_interrupt remote_world remote_device remote_interface remote_route" "idle remote_world"
    by (rule remote_facts)+
qed (use ping_safe in \<open>simp_all add: main_route_def remote_route_def remote_interface_def main_interface_def local_world_def
    remote_world_def main_world_def IP_ADDR_ANY_def cache_select_def\<close>)

end
