(* ===== verification/Logging.thy ===== *)
theory Logging
  imports StdText
begin

text \<open>
  lib/Logger.h and lib/Logger.cpp: one line per message on \<open>std::clog\<close>, which is the list of the
  lines written.  The time of day, as \<open>std::format\<close> prints it, and the place of the call are
  arguments.  Nothing in the stack depends on what has been logged; the other theories keep of a
  message only that formatting it may fail, and LockScripts that writing it takes the logger's mutex.
\<close>

datatype level = Debug | Info | Warning | Error

fun level_char :: "level \<Rightarrow> char" where
  "level_char Debug = CHR ''D''"
| "level_char Info = CHR ''I''"
| "level_char Warning = CHR ''W''"
| "level_char Error = CHR ''E''"

record source_location =
  file_name :: string
  line_no :: nat

definition log_line :: "level \<Rightarrow> string \<Rightarrow> source_location \<Rightarrow> string \<Rightarrow> string" where
  "log_line l time loc message =
     (let functionInfo = file_name loc @ ''('' @ fmt_dec (line_no loc) @ '')'' in
      ''['' @ [level_char l] @ ''] '' @ time @ '' | '' @ functionInfo @ '' | '' @ message)"

definition log_message :: "level \<Rightarrow> string \<Rightarrow> string \<Rightarrow> source_location \<Rightarrow> (string list, unit) eff" where
  "log_message l time message loc = putM (\<lambda>clog. clog @ [log_line l time loc message])"

definition log_error :: "string \<Rightarrow> string \<Rightarrow> source_location \<Rightarrow> (string list, unit) eff" where
  "log_error time message loc = log_message Error time message loc"

definition log_warn :: "string \<Rightarrow> string \<Rightarrow> source_location \<Rightarrow> (string list, unit) eff" where
  "log_warn time message loc = log_message Warning time message loc"

definition log_info :: "string \<Rightarrow> string \<Rightarrow> source_location \<Rightarrow> (string list, unit) eff" where
  "log_info time message loc = log_message Info time message loc"

definition log_debug :: "string \<Rightarrow> string \<Rightarrow> source_location \<Rightarrow> (string list, unit) eff" where
  "log_debug time message loc = log_message Debug time message loc"

text \<open>A line tells its level, and ends with its message.\<close>

lemma log_line_level: "log_line l t loc m ! 1 = log_line l' t' loc' m' ! 1 \<longleftrightarrow> l = l'"
  by (cases l; cases l') (simp_all add: log_line_def Let_def)

lemma log_line_message: "\<exists>front. log_line l t loc m = front @ m"
  by (simp add: log_line_def Let_def)

text \<open>Logging never fails and keeps what was logged before.\<close>

lemma log_message_appends:
  "log_message l t m loc clog = (Inr (), clog @ [log_line l t loc m])"
  by (simp add: log_message_def)

end
