(* ===== verification/ErrorKinds.thy ===== *)
theory ErrorKinds
  imports InterruptInv
begin

unbundle bit_operations_syntax

text \<open>
  Which errors the interrupt thread can end with.  The handlers dereference shared pointers, look up
  the handler tables and walk the packets; this theory shows that in a system whose pointers are
  valid at the start they stay valid, so that whatever arrives, the thread is never ended by an empty
  pointer, a variable without a value or a bad index into the table of control blocks: only by an
  exception or by a read outside a packet.
\<close>

section \<open>Errors of packets\<close>

fun packet_error :: "error \<Rightarrow> bool" where
  "packet_error (RuntimeError m) = True"
| "packet_error (ArpResolveException m) = True"
| "packet_error LengthError = True"
| "packet_error OutOfRange = False"
| "packet_error (Undefined u) = (u = OutOfBounds)"
| "packet_error Hang = False"

named_theorems sound_intros \<open>operations that fail with errors of packets only\<close>

definition safe :: "'a result \<Rightarrow> bool" where
  "safe r \<longleftrightarrow> (\<forall>e. r = Inl e \<longrightarrow> packet_error e)"

lemma safe_Inr [sound_intros]: "safe (Inr x)"
  by (simp add: safe_def)

lemma safe_Inl: "packet_error e \<Longrightarrow> safe (Inl e)"
  by (simp add: safe_def)

lemma safe_bindE [sound_intros]: "safe m \<Longrightarrow> (\<And>x. m = Inr x \<Longrightarrow> safe (f x)) \<Longrightarrow> safe (bindE m f)"
  by (cases m) (simp_all add: safe_def)

lemma safe_if [sound_intros]: "(b \<Longrightarrow> safe m) \<Longrightarrow> (\<not> b \<Longrightarrow> safe n) \<Longrightarrow> safe (if b then m else n)"
  by simp

lemma safe_guard [sound_intros]: "packet_error e \<Longrightarrow> safe (guardE b e)"
  by (simp add: safe_def guardE_def)

lemma safe_vec [sound_intros]:
  "safe (vec_at xs i)" "safe (vec_set xs i v)" "safe (copy_from xs i n)" "safe (copy_into xs i src)"
  by (simp_all add: safe_def vec_at_def vec_set_def copy_from_def copy_into_def)

lemma safe_read_loop [sound_intros]: "safe (vec_read_loop xs i n)"
  by (induction n arbitrary: i) (auto intro!: sound_intros)

lemma safe_write_loop [sound_intros]: "safe (writeVector data vec offset)"
  by (induction data vec offset rule: writeVector.induct) (auto intro!: sound_intros)

lemma safe_payload [sound_intros]:
  "safe (readUint8 data i)" "safe (readUint16 data i)" "safe (readUint32 data i)"
  "safe (writeUint8 data a i)" "safe (writeUint16 data b i)" "safe (writeUint32 data c i)"
  "safe (readVector data i len)"
  by (auto simp: payload_op_defs readVector_def intro!: sound_intros safe_Inl)

section \<open>Packets\<close>

lemma safe_checksum_loop: "safe (checksum_loop data i stop acc)"
  by (induction data i stop acc rule: checksum_loop.induct)
    (subst checksum_loop.simps, auto intro!: sound_intros)

lemma safe_checksum [sound_intros]:
  "safe (calculateChecksum data i j)" "safe (verifyChecksum data i j)"
  unfolding verifyChecksum_def calculateChecksum_def by (intro sound_intros safe_checksum_loop)+

lemma safe_address_text [sound_intros]: "safe (addressToString a)"
  unfolding addressToString_def by (intro sound_intros)

lemma safe_frame [sound_intros]:
  "safe (EtherFrame_of d)" "safe (setDstAddr d a)" "safe (setSrcAddr d a)" "safe (setEtherType d t)"
  "safe (etherType d)" "safe (body d)" "safe (setBody d b)" "safe (EtherFrame_info d)"
  "safe (EtherDevice_getInfo dev)"
  unfolding EtherFrame_of_def setDstAddr_def setSrcAddr_def setEtherType_def etherType_def body_def Let_def
    setBody_def EtherFrame_info_def dstAddr_def srcAddr_def readEtherAddr_def writeEtherAddr_def EtherDevice_getInfo_def
  by (intro sound_intros; simp)+

lemma safe_arp_fields [sound_intros]:
  "safe (hardwareType d)" "safe (protocolType d)" "safe (hardwareAddressLength d)" "safe (protocolAddressLength d)"
  "safe (operationCode d)" "safe (setHardwareType d a)" "safe (setProtocolType d a)"
  "safe (setHardwareAddressLength d b)" "safe (setProtocolAddressLength d b)" "safe (setOperationCode d a)"
  "safe (ArpData_of d)"
  unfolding arp_accessor_defs ArpData_of_def by (intro sound_intros)+

lemma safe_arp_addresses [sound_intros]:
  "safe (senderHardwareAddress d)" "safe (senderProtocolAddress d)" "safe (targetHardwareAddress d)"
  "safe (targetProtocolAddress d)" "safe (setSenderHardwareAddress d v)" "safe (setSenderProtocolAddress d v)"
  "safe (setTargetHardwareAddress d v)" "safe (setTargetProtocolAddress d v)"
  unfolding senderHardwareAddress_def senderProtocolAddress_def targetHardwareAddress_def targetProtocolAddress_def
    setSenderHardwareAddress_def setSenderProtocolAddress_def setTargetHardwareAddress_def
    setTargetProtocolAddress_def ArpData.getAddress_def
  by (intro sound_intros)+

lemma safe_arp [sound_intros]:
  "safe (arpDataFactory a b m n c)" "safe (macAddressToString v)" "safe (ipV4ToString v)" "safe (arp_supported d)"
  "safe (quad_to_u32 v)"
  unfolding arpDataFactory_def Let_def macAddressToString_def ipV4ToString_def arp_supported_def quad_to_u32_def
  by (intro sound_intros; simp)+

lemma safe_arpDump [sound_intros]: "safe (arpDump d)"
  unfolding arpDump_def by (intro sound_intros)

lemma safe_arp_packets [sound_intros]:
  "safe (reply_packet a b d)" "safe (request_packet a b ip)"
  unfolding reply_packet_def request_packet_def by (intro sound_intros)+

lemma safe_ip_fields [sound_intros]:
  "safe (versionAndHeaderLength d)" "safe (ip_version d)" "safe (headerLength d)" "safe (headerLengthByte d)"
  "safe (typeOfService d)" "safe (totalLength d)" "safe (identification d)" "safe (flagsAndFragmentOffset d)"
  "safe (timeToLive d)" "safe (ip_protocol d)" "safe (ip_checksum d)" "safe (ip_src d)" "safe (ip_dst d)"
  "safe (Ipv4Data_of d)"
  unfolding versionAndHeaderLength_def ip_version_def headerLength_def headerLengthByte_def typeOfService_def
    totalLength_def identification_def flagsAndFragmentOffset_def timeToLive_def ip_protocol_def ip_checksum_def
    ip_src_def ip_dst_def Ipv4Data_of_def
  by (intro sound_intros)+

lemma safe_ip_set [sound_intros]:
  "safe (set_ip_version d b)" "safe (set_headerLength d b)" "safe (set_typeOfService d b)" "safe (set_totalLength d a)"
  "safe (set_identification d a)" "safe (set_flagsAndFragmentOffset d a)" "safe (set_timeToLive d b)"
  "safe (set_ip_protocol d b)" "safe (set_ip_checksum d a)" "safe (set_ip_src d c)" "safe (set_ip_dst d c)"
  unfolding set_ip_version_def set_headerLength_def set_typeOfService_def set_totalLength_def set_identification_def
    set_flagsAndFragmentOffset_def set_timeToLive_def set_ip_protocol_def set_ip_checksum_def set_ip_src_def
    set_ip_dst_def
  by (intro sound_intros)+

lemma safe_ip [sound_intros]:
  "safe Ipv4Data_new" "safe (ip_payload d)" "safe (set_ip_payload d v)" "safe (verifyHeader d)" "safe (setCheckSum d)"
  "safe (Ipv4Data_info d)"
  unfolding Ipv4Data_new_def ip_payload_def set_ip_payload_def verifyHeader_def setCheckSum_def Ipv4Data_info_def Let_def
  by (intro sound_intros safe_Inl; simp)+

lemma safe_ip_packet [sound_intros]:
  "safe (ipv4_packet_start v)" "safe (ipv4_packet_finish d a b c s v)"
  unfolding ipv4_packet_start_def ipv4_packet_finish_def by (intro sound_intros)+

lemma safe_icmp [sound_intros]:
  "safe (icmp_type d)" "safe (icmp_code d)" "safe (icmp_checksum d)" "safe (icmp_identifier d)" "safe (sequenceNumber d)"
  "safe (set_icmp_type d b)" "safe (set_icmp_code d b)" "safe (set_icmp_checksum d a)" "safe (IcmpDataEcho_of d)"
  unfolding icmp_accessor_defs IcmpDataEcho_of_def IcmpData_of_def by (intro sound_intros)+

lemma safe_icmp_message [sound_intros]: "safe (IcmpDataEcho_info d)" "safe (reply_message d)"
  unfolding reply_message_def IcmpDataEcho_info_def by (intro sound_intros)+

lemma safe_udp_fields [sound_intros]:
  "safe (srcPort d)" "safe (dstPort d)" "safe (udp_length d)" "safe (udp_checksum d)" "safe (UdpData_of d)"
  "safe (ph_srcIp d)" "safe (ph_destIp d)" "safe (ph_zero d)" "safe (ph_protocol d)" "safe (ph_length d)"
  "safe (set_ph_srcIp d c)" "safe (set_ph_destIp d c)" "safe (set_ph_protocol d b)" "safe (set_ph_length d a)"
  unfolding udp_accessor_defs ph_accessor_defs UdpData_of_def by (intro sound_intros)+

lemma safe_udp [sound_intros]:
  "safe (udp_payload d)" "safe (UdpData_info d)" "safe (build_pseudo s t d)" "safe (combined_checksum p d)"
  unfolding udp_payload_def UdpData_info_def build_pseudo_def combined_checksum_def Let_def
  by (intro sound_intros safe_Inl; simp)+

section \<open>Operations\<close>

text \<open>\<open>sound I m\<close>: from a state with \<open>I\<close>, \<open>m\<close> leaves one with \<open>I\<close> and fails with errors of packets only.\<close>

definition sound :: "('s \<Rightarrow> bool) \<Rightarrow> ('s, 'a) eff \<Rightarrow> bool" where
  "sound I m \<longleftrightarrow> (\<forall>s. I s \<longrightarrow> I (snd (m s)) \<and> safe (fst (m s)))"

lemma soundD: "sound I m \<Longrightarrow> I s \<Longrightarrow> m s = (r, t) \<Longrightarrow> I t \<and> safe r"
  unfolding sound_def by (metis fst_conv snd_conv)

lemma sound_pure [sound_intros]:
  "sound I (retM x)" "sound I (getM g)" "packet_error e \<Longrightarrow> sound I (throwM e)" "safe r \<Longrightarrow> sound I (liftM r)"
  by (simp_all add: sound_def safe_def)

lemma sound_Pair [sound_intros]: "safe r \<Longrightarrow> sound I (Pair r)"
  by (simp add: sound_def)

lemma sound_put [sound_intros]: "(\<And>s. I s \<Longrightarrow> I (h s)) \<Longrightarrow> sound I (putM h)"
  by (simp add: sound_def safe_def)

lemma sound_bind [sound_intros]:
  assumes "sound I m" "\<And>s x t. I s \<Longrightarrow> m s = (Inr x, t) \<Longrightarrow> sound I (f x)"
  shows "sound I (bindM m f)"
  unfolding sound_def
proof (intro allI impI)
  fix s assume s: "I s"
  obtain r t where m: "m s = (r, t)" by (cases "m s")
  with assms(1) s have t: "I t" "safe r" by (auto dest: soundD)
  show "I (snd (bindM m f s)) \<and> safe (fst (bindM m f s))"
  proof (cases r)
    case (Inl e)
    with m t show ?thesis by (simp add: bindM_Inl safe_def)
  next
    case (Inr x)
    with m have b: "bindM m f s = f x t" by (simp add: bindM_Inr)
    have "sound I (f x)" using assms(2) s m Inr by simp
    from soundD [OF this t(1) surjective_pairing] b show ?thesis by simp
  qed
qed

lemma sound_if [sound_intros]: "(b \<Longrightarrow> sound I m) \<Longrightarrow> (\<not> b \<Longrightarrow> sound I n) \<Longrightarrow> sound I (if b then m else n)"
  by simp

lemma sound_option [sound_intros]:
  "(v = None \<Longrightarrow> sound I m) \<Longrightarrow> (\<And>x. v = Some x \<Longrightarrow> sound I (f x)) \<Longrightarrow>
    sound I (case v of None \<Rightarrow> m | Some x \<Rightarrow> f x)"
  by (cases v) simp_all

section \<open>Valid pointers\<close>

definition pointer_ok :: "EtherDevice list \<Rightarrow> device_ptr \<Rightarrow> bool" where
  "pointer_ok ds p \<longleftrightarrow> (\<exists>k < length ds. p = Some k)"

text \<open>
  What \<open>main\<close> sets up and nothing breaks: interfaces, devices and routes point to devices, hardware
  addresses have six bytes, every queue has a handler, and a queued packet names its device.
\<close>

definition world_typed :: "world \<Rightarrow> bool" where
  "world_typed w \<longleftrightarrow> world_wf w \<and> (\<forall>d \<in> set (devices w). pointer_ok (devices w) (selfPtr d)) \<and>
     (\<forall>t \<in> set (map fst (protocolQueues w)). protocolHandlers w t \<noteq> None) \<and>
     (\<forall>t. \<forall>pd \<in> set (queue_of t w). pointer_ok (devices w) (pd_devicePtr pd))"

definition typed :: "EtherDevice list \<Rightarrow> world \<Rightarrow> bool" where
  "typed ds w \<longleftrightarrow> world_typed w \<and> devices w = ds"

lemma typed_frame:
  "typed ds w \<Longrightarrow> typed ds (w\<lparr>written := x\<rparr>)" "typed ds w \<Longrightarrow> typed ds (w\<lparr>ipGenId := y\<rparr>)"
  "typed ds w \<Longrightarrow> typed ds (w\<lparr>udpPcbs := z\<rparr>)" "typed ds w \<Longrightarrow> typed ds (w\<lparr>pending := s\<rparr>)"
  by (auto simp: typed_def world_typed_def world_wf_def device_wf_def iface_wf_def queue_of_def)

lemma cache_create_set: "set (cache_create cs c) \<subseteq> insert c (set cs)"
  by (auto simp: cache_create_def split: option.split if_splits)

lemma typed_learn:
  "typed ds w \<Longrightarrow> length (hardwareAddress c) = 6 \<Longrightarrow> typed ds (w\<lparr>arpCache := cache_create (arpCache w) c\<rparr>)"
  using cache_create_set [of "arpCache w" c]
  by (auto simp: typed_def world_typed_def world_wf_def device_wf_def iface_wf_def queue_of_def)

lemma typed_pointers:
  assumes "typed ds w"
  shows "r \<in> set (routeTable w) \<Longrightarrow> pointer_ok ds (if_devicePtr (route_interface r))"
    and "d \<in> set ds \<Longrightarrow> IpInterface i \<in> set (networkInterfaces d) \<Longrightarrow> pointer_ok ds (if_devicePtr i)"
    and "d \<in> set ds \<Longrightarrow> pointer_ok ds (selfPtr d)"
  using assms by (auto simp: typed_def world_typed_def world_wf_def device_wf_def iface_wf_def pointer_ok_def)

lemma deref_typed:
  "pointer_ok ds p \<Longrightarrow> typed ds w \<Longrightarrow> \<exists>d \<in> set ds. deref_device p w = Inr d"
  by (auto simp: pointer_ok_def typed_def deref_device_def)

lemma sound_deref [sound_intros]: "pointer_ok ds p \<Longrightarrow> sound (typed ds) (\<lambda>w. (deref_device p w, w))"
  by (auto simp: sound_def safe_def dest: deref_typed)

lemma sound_transmit [sound_intros]:
  assumes "pointer_ok ds p"
  shows "sound (typed ds) (transmit p data dst type)"
proof -
  have "safe (transmit_frame dev data dst type)" for dev
    unfolding transmit_frame_def by (intro sound_intros) simp
  with assms show ?thesis unfolding transmit_def by (intro sound_intros typed_frame)
qed

lemma sound_arpRequest [sound_intros]:
  "pointer_ok ds (if_devicePtr iface) \<Longrightarrow> sound (typed ds) (arpRequest iface ip)"
  unfolding arpRequest_def by (intro sound_intros)

lemma sound_arpResolve [sound_intros]:
  "pointer_ok ds (if_devicePtr iface) \<Longrightarrow> sound (typed ds) (arpResolve iface ip)"
  unfolding arpResolve_def by (intro sound_intros) simp_all

lemma sound_arp_reply [sound_intros]:
  "pointer_ok ds (if_devicePtr iface) \<Longrightarrow> sound (typed ds) (arp_reply iface d)"
  unfolding arp_reply_def by (intro sound_intros)

lemma target_interface:
  assumes "pointer_ok ds p" "typed ds w" "deref_device p w = Inr dev" "getTargetInterface dev f = Inr i"
  shows "cast_to_ip i = Some iface \<Longrightarrow> pointer_ok ds (if_devicePtr iface)"
proof -
  assume c: "cast_to_ip i = Some iface"
  have "target_loop is f = Inr i \<Longrightarrow> i \<in> set is" for "is" by (induction "is") (auto split: if_splits)
  then have "i \<in> set (networkInterfaces dev)" using assms(4) by (simp add: getTargetInterface_def)
  moreover have "i = IpInterface iface" using c by (cases i) simp_all
  moreover have "dev \<in> set ds" using deref_typed [OF assms(1,2)] assms(3) by auto
  ultimately show ?thesis using typed_pointers(2) [OF assms(2)] by simp
qed

text \<open>A packet that was dumped has a sender address of six bytes.\<close>

lemma dumped_address:
  "arpDump d = Inr ms \<Longrightarrow> senderHardwareAddress d = Inr a \<Longrightarrow> length a = 6"
  by (auto simp: arpDump_def macAddressToString_def elim!: bindE_InrE)

lemma safe_target [sound_intros]: "safe (getTargetInterface dev f)"
proof -
  have "safe (target_loop is f)" for "is" by (induction "is") (auto simp: safe_def)
  then show ?thesis by (simp add: getTargetInterface_def)
qed

lemma sound_arp_handle:
  assumes "pointer_ok ds (pd_devicePtr pd)"
  shows "sound (typed ds) (arp_handle pd)"
  unfolding arp_handle_def Let_def
  using assms by (intro sound_intros) (auto simp: bad_address_size_def intro!: typed_learn
      intro: dumped_address target_interface)

lemma sound_ipv4_output [sound_intros]: "sound (typed ds) (ipv4_output prot data s d)"
proof -
  have "sound (typed ds) ip_gen_id" unfolding ip_gen_id_def by (intro sound_intros typed_frame)
  moreover have "sound (typed ds) (\<lambda>w. (route_lookup (routeTable w) d, w))"
    by (simp add: sound_def safe_def route_lookup_def vec_at_def)
  moreover have "pointer_ok ds (if_devicePtr (route_interface r))"
    if "typed ds w" "(route_lookup (routeTable w) d, w) = (Inr r, t)" for w r t
    using typed_pointers(1) [OF that(1), of r] that(2)
    by (auto simp: route_lookup_def vec_at_def split: if_splits)
  ultimately show ?thesis
    unfolding ipv4_output_def by (intro sound_intros) simp_all
qed

lemma sound_icmp_handle [sound_intros]: "sound (typed ds) (icmp_handle pd)"
  unfolding icmp_handle_def replyIcmp_def by (intro sound_intros) simp

lemma sound_udp_handle [sound_intros]: "sound (typed ds) (udp_handle pd)"
  unfolding udp_handle_def by (intro sound_intros typed_frame) simp

lemma sound_ip_run [sound_intros]: "sound (typed ds) (ip_run h pd)"
  by (cases h) (simp_all add: sound_intros)

lemma sound_ip_handle:
  assumes "pointer_ok ds (pd_devicePtr pd)"
  shows "sound (typed ds) (ip_handle pd)"
  unfolding ip_handle_def using assms by (intro sound_intros) auto

lemma sound_proto_run: "pointer_ok ds (pd_devicePtr pd) \<Longrightarrow> sound (typed ds) (proto_run h pd)"
  by (cases h) (simp_all add: sound_arp_handle sound_ip_handle)

section \<open>The signal loop\<close>

lemma typed_queues:
  assumes w: "typed ds w" and keys: "map fst q = map fst (protocolQueues w)"
    and ok: "\<And>t pd. pd \<in> set (queue_of t (set_queues q w)) \<Longrightarrow> pointer_ok ds (pd_devicePtr pd)"
  shows "typed ds (set_queues q w)"
proof -
  have "world_wf (set_queues q w) = world_wf w"
    by (simp add: set_queues_def world_wf_def device_wf_def iface_wf_def)
  with assms show ?thesis unfolding typed_def world_typed_def by (simp only: set_queues_frame set_queues_get) blast
qed

lemma typed_queued: "typed ds w \<Longrightarrow> pd \<in> set (queue_of t w) \<Longrightarrow> pointer_ok ds (pd_devicePtr pd)"
  by (auto simp: typed_def world_typed_def)

lemma queue_of_update:
  "queue_of t (set_queues (map_update k f (protocolQueues w)) w) =
     (if t = k \<and> map_of (protocolQueues w) k \<noteq> None then f (queue_of t w) else queue_of t w)"
  by (auto simp: queue_of_def split: option.split)

lemma typed_pop:
  assumes w: "typed ds w" and q: "map_of (protocolQueues w) type = Some (d # q)"
  shows "typed ds (set_queues (map_update type (\<lambda>_. q) (protocolQueues w)) w)" "pointer_ok ds (pd_devicePtr d)"
proof -
  have s: "set (queue_of type w) = insert d (set q)" using q by (simp add: queue_of_def)
  then show "pointer_ok ds (pd_devicePtr d)" using typed_queued [OF w] by blast
  have "pd \<in> set (queue_of t w)"
    if "pd \<in> set (queue_of t (set_queues (map_update type (\<lambda>_. q) (protocolQueues w)) w))" for t pd
    using that s by (auto simp: queue_of_update split: if_splits)
  then show "typed ds (set_queues (map_update type (\<lambda>_. q) (protocolQueues w)) w)"
    by (intro typed_queues [OF w] typed_queued [OF w]) simp_all
qed

lemma drain_sound:
  "drain_queue type w = (r, w') \<Longrightarrow> typed ds w \<Longrightarrow> typed ds w' \<and> safe r"
proof (induction "length (queue_of type w)" arbitrary: w r w' rule: less_induct)
  case less
  show ?case
  proof (cases "queue_of type w")
    case Nil
    with less.prems show ?thesis by (auto simp: drain_queue_empty safe_def)
  next
    case (Cons d q)
    then have q: "map_of (protocolQueues w) type = Some (d # q)" by (simp add: queue_of_def split: option.splits)
    have "type \<in> set (map fst (protocolQueues w))" using Cons by (intro queue_of_key) simp
    then obtain h where h: "protocolHandlers w type = Some h"
      using less.prems(2) by (auto simp: typed_def world_typed_def)
    let ?w = "set_queues (map_update type (\<lambda>_. q) (protocolQueues w)) w"
    obtain v w1 where run: "proto_run h d ?w = (v, w1)" by (cases "proto_run h d ?w")
    have w1: "typed ds w1" "safe v"
      using soundD [OF sound_proto_run [OF typed_pop(2) [OF less.prems(2) q]] typed_pop(1) [OF less.prems(2) q] run] by simp_all
    show ?thesis
    proof (cases v)
      case (Inl e)
      then show ?thesis using w1 less.prems(1) drain_queue_step [OF q h] run by (auto simp: bindM_Inl safe_def)
    next
      case (Inr u)
      have "drain_queue type w1 = (r, w')"
        using less.prems(1) drain_queue_step [OF q h] run Inr by (simp add: bindM_Inr)
      then show ?thesis using less.hyps drain_round_shorter [OF q run] w1(1) by blast
    qed
  qed
qed

lemma sound_drain_all: "sound (typed ds) (drain_all types)"
proof (induction types)
  case (Cons type types)
  have "sound (typed ds) (drain_queue type)"
    unfolding sound_def using drain_sound [OF surjective_pairing] by blast
  with Cons show ?case by (simp add: sound_intros)
qed (simp add: sound_intros)

lemma sound_protocol_signal: "sound (typed ds) handleProtocolSignal"
  using sound_drain_all by (simp add: sound_def handleProtocolSignal_def)

lemma sound_event_signal: "sound (typed ds) handleEventSignal"
proof -
  have "sound (typed ds) (event_loop es)" for es
  proof (induction es)
    case (Cons e es)
    have "sound (typed ds) (run_event e)"
      by (cases e) (simp add: udp_event_handle_def sound_intros typed_frame)
    with Cons show ?case by (simp add: sound_intros)
  qed (simp add: sound_intros)
  then show ?thesis unfolding handleEventSignal_def by (intro sound_intros)
qed

lemma sound_device_handler:
  assumes "dev \<in> set ds"
  shows "sound (typed ds) (EtherDevice_handler dev rd)"
proof -
  have queue: "typed ds (set_queues (map_update type (\<lambda>q. q @ [pd]) (protocolQueues w)) w)"
    if w: "typed ds w" and pd: "pd_devicePtr pd = selfPtr dev" for w type pd
  proof (rule typed_queues [OF w])
    fix t p assume "p \<in> set (queue_of t (set_queues (map_update type (\<lambda>q. q @ [pd]) (protocolQueues w)) w))"
    then have "p \<in> set (queue_of t w) \<or> p = pd" by (auto simp: queue_of_update split: if_splits)
    then show "pointer_ok ds (pd_devicePtr p)"
      using typed_queued [OF w] typed_pointers(3) [OF w assms] pd by auto
  qed simp
  show ?thesis
    unfolding EtherDevice_handler_def Let_def
    by (intro sound_intros typed_frame) (simp_all add: queue [unfolded set_queues_def] getSelfPtr_def)
qed

lemma signal_loop_typed:
  assumes "\<forall>p \<in> set ps. p < length ds" "typed ds w" "signal_loop ps sg (w, rx) = (r, (w', rx'))"
  shows "typed ds w' \<and> (safe r \<or> r = Inl Hang)"
  using assms
proof (induction ps arbitrary: w rx)
  case (Cons p ps)
  have "pointer_ok ds (Some p)" using Cons.prems(1) by (simp add: pointer_ok_def)
  with Cons.prems(2) obtain d where d: "d \<in> set ds" "deref_device (Some p) w = Inr d" using deref_typed by blast
  have info: "safe (EtherDevice_getInfo d)" by (rule sound_intros)
  note h = soundD [OF sound_device_handler [OF d(1)] Cons.prems(2)]
  show ?case
    using Cons.prems d(2) info
    by (auto simp: on_world_def bindM_apply read_device_def safe_def split: sum.splits prod.splits list.splits if_splits
        dest!: h dest: Cons.IH [rotated])
qed (auto simp: safe_def)

lemma typed_take_signal: "typed ds w \<Longrightarrow> typed ds (take_signal sg w)"
  by (simp add: take_signal_def typed_frame)

lemma dispatch_typed:
  assumes d: "dispatch intr sg (w, rx) = (r, (w', rx'))" and w: "typed ds w"
    and p: "\<forall>p \<in> set (inputDevices intr). p < length ds"
  shows "typed ds w' \<and> (safe r \<or> r = Inl Hang)"
proof (cases sg)
  case SIGHUP
  with d w show ?thesis by (auto simp: safe_def)
next
  case SIGUSR1
  with d w show ?thesis
    using soundD [OF sound_protocol_signal w]
    by (auto simp: on_world_def bindM_apply safe_def split: prod.splits sum.splits)
next
  case SIGUSR2
  with d w show ?thesis
    using soundD [OF sound_event_signal w]
    by (auto simp: on_world_def bindM_apply safe_def split: prod.splits sum.splits)
next
  case (SIGRT n)
  obtain v w1 rx1 where l: "signal_loop (inputDevices intr) sg (w, rx) = (v, (w1, rx1))"
    using prod_cases3 by blast
  from signal_loop_typed [OF p w this] d SIGRT l show ?thesis
    by (cases v) (auto simp: handleSignal_def bindM_apply safe_def)
qed

section \<open>Property\<close>

definition inputs_ok :: "Interrupt \<Rightarrow> world \<Rightarrow> bool" where
  "inputs_ok intr w \<longleftrightarrow> (\<forall>p \<in> set (inputDevices intr). p < length (devices w))"

lemma typed_arrival: "typed ds (sys_world s) \<Longrightarrow> typed ds (sys_world (arrival k rd s))"
  by (simp add: arrival_def typed_frame)

lemma typed_socket_call: "socket_call w w' \<Longrightarrow> typed ds w \<Longrightarrow> typed ds w'"
  by (rule quiet_socket_call) (simp_all add: quiet_def typed_frame)

text \<open>What a crash can be: an error of a packet, or a read of a device that has nothing to give.\<close>

definition crash_ok :: "thread_state \<Rightarrow> bool" where
  "crash_ok th \<longleftrightarrow> (\<forall>e. th = Crashed e \<longrightarrow> packet_error e \<or> e = Hang)"

lemma typed_step:
  assumes "step intr s t" "typed ds (sys_world s)" "crash_ok (sys_thread s)"
    and p: "\<forall>p \<in> set (inputDevices intr). p < length ds"
  shows "typed ds (sys_world t) \<and> crash_ok (sys_thread t)"
  using assms(1)
proof (cases rule: step.cases)
  case (wake sg r w' rx')
  from dispatch_typed [OF wake(5) typed_take_signal [OF assms(2)] p] wake(1) show ?thesis
    by (cases r; cases "projr r") (auto simp: crash_ok_def safe_def)
next
  case (frame k rd)
  with assms(2,3) show ?thesis by (simp add: typed_arrival) (simp add: arrival_def)
next
  case (signal sg)
  with assms(2,3) show ?thesis by (simp add: typed_frame)
next
  case (socket w')
  with assms(2,3) show ?thesis by (simp add: typed_socket_call)
qed

lemma typed_reachable:
  assumes "reachable intr s0 s" "typed ds (sys_world s0)" "crash_ok (sys_thread s0)"
    and "\<forall>p \<in> set (inputDevices intr). p < length ds"
  shows "typed ds (sys_world s) \<and> crash_ok (sys_thread s)"
  using assms by (induction rule: reachable.induct) (auto dest: typed_step)

text \<open>
  C14. The system is well typed in every reachable state, whatever frames and signals arrive and
  whatever calls other threads make: every pointer in an interface, a route, a device or a queued
  packet points to a device, every cached hardware address has six bytes and every queue has its
  handler.  Therefore a crash of the interrupt thread is an exception or a read outside a packet,
  never the dereference of an empty pointer, a read of a variable that has no value, or a bad index
  into the table of control blocks.
\<close>

theorem pointers_stay_valid:
  assumes "reachable intr s0 s" "world_typed (sys_world s0)" "inputs_ok intr (sys_world s0)"
    and "sys_thread s0 = Waiting"
  shows "world_typed (sys_world s) \<and> devices (sys_world s) = devices (sys_world s0) \<and>
    (\<forall>e. sys_thread s = Crashed e \<longrightarrow>
       e \<noteq> Undefined NullDereference \<and> e \<noteq> Undefined IndeterminateRead \<and> e \<noteq> OutOfRange)"
proof -
  have "typed (devices (sys_world s0)) (sys_world s0)" "crash_ok (sys_thread s0)"
    using assms(2,4) by (simp_all add: typed_def crash_ok_def)
  from typed_reachable [OF assms(1) this] assms(3) show ?thesis
    by (auto simp: inputs_ok_def typed_def crash_ok_def)
qed

text \<open>A system with one device, on which a read fails.\<close>

definition typed_world :: world where
  "typed_world = iface_world\<lparr>protocolHandlers := [ipType \<mapsto> Ipv4ProtocolHandler, arpType \<mapsto> ArpProtocolHandler]\<rparr>"

lemma typed_world_typed: "world_typed typed_world"
  by (simp add: world_typed_def world_wf_def device_wf_def iface_wf_def pointer_ok_def typed_world_def iface_world_def
      one_device_world_def one_device_def one_iface_def queue_of_def)

theorem pointers_stay_valid_witness:
  "\<exists>s. reachable (addDevice Interrupt_init typed_world 0)
       \<lparr>sys_world = typed_world, sys_rx = (\<lambda>_. []), sys_thread = Waiting\<rparr> s \<and>
     sys_thread s = Crashed LengthError \<and> world_typed (sys_world s)"
proof -
  let ?i = "addDevice Interrupt_init typed_world 0"
  let ?s = "\<lparr>sys_world = typed_world, sys_rx = (\<lambda>_. []), sys_thread = Waiting\<rparr>"
  let ?a = "arrival 0 None ?s"
  let ?t = "\<lparr>sys_world = typed_world, sys_rx = (\<lambda>_. [])(0 := []), sys_thread = Crashed LengthError\<rparr>"
  have p: "pending typed_world = []" "devices typed_world = [one_device]"
    by (simp_all add: typed_world_def iface_world_def one_device_world_def)
  then have a: "sys_world ?a = typed_world\<lparr>pending := [ETHER_TAN_IRQ]\<rparr>" "sys_rx ?a = (\<lambda>_. [])(0 := [None])"
    by (simp_all add: arrival_def raise_signal_def)
  have t: "take_signal ETHER_TAN_IRQ (typed_world\<lparr>pending := [ETHER_TAN_IRQ]\<rparr>) = typed_world"
    using p by (simp add: take_signal_def)
  obtain i where "EtherDevice_getInfo one_device = Inr i"
    by (auto simp: EtherDevice_getInfo_def addressToString_def vec_at_def one_device_def)
  then have d: "dispatch ?i ETHER_TAN_IRQ (typed_world, (\<lambda>_. [])(0 := [None])) =
      (Inl LengthError, (typed_world, (\<lambda>_. [])(0 := [])))"
    using p by (simp add: ETHER_TAN_IRQ_def handleSignal_def addDevice_def Interrupt_init_def deref_device_def on_world_def
        bindM_apply getIrq_def read_device_def EtherDevice_handler_def)
  have "step ?i ?s ?a" by (rule frame) simp
  moreover have "step ?i ?a ?t"
    using wake [of ?a ETHER_TAN_IRQ ?i "Inl LengthError" typed_world "(\<lambda>_. [])(0 := [])"] a t d
    by (simp add: arrival_def addDevice_def getIrq_def)
  ultimately have "reachable ?i ?s ?t" by (meson reachable.intros)
  then show ?thesis
    using pointers_stay_valid [of ?i ?s ?t] typed_world_typed p
    by (intro exI [of _ ?t]) (auto simp: inputs_ok_def addDevice_def Interrupt_init_def)
qed

end
