(* ===== verification/CalmTraffic.thy ===== *)
theory CalmTraffic
  imports Pipeline
begin

unbundle bit_operations_syntax

text \<open>
  The traffic the program survives.  Many packets end the interrupt thread with an exception nobody
  catches; this theory states for which frames that cannot happen, in any number and any order, with
  signals and socket calls in between: those of other protocols, ARP packets for the interface, and
  IPv4 packets for it that are what their headers say.
\<close>

section \<open>Benign frames\<close>

definition good_arp :: "IpNetworkInterface \<Rightarrow> bytes \<Rightarrow> bool" where
  "good_arp iface b \<longleftrightarrow> (\<exists>ht op sha sip tha rest. length sha = 6 \<and> length tha = 6 \<and>
     b = arp_layout ht 0x0800 op sha (be32 sip) tha (be32 (unicast iface)) rest)"

definition good_icmp :: "bytes \<Rightarrow> bool" where
  "good_icmp p \<longleftrightarrow> (\<exists>h r. p = icmp_layout h r \<and> even (length r) \<and> 0 < icmp_sum h r \<and> 65535 dvd icmp_sum h r)"

definition good_udp :: "u32 \<Rightarrow> u32 \<Rightarrow> bytes \<Rightarrow> bool" where
  "good_udp s d p \<longleftrightarrow> (\<exists>h r. p = udp_layout h r \<and> even (length r) \<and> length r \<le> unat (u_len h) \<and> udp_accepts s d p)"

text \<open>A packet of any header length, and what it carries.\<close>

definition ip_body :: "ip_header \<Rightarrow> bytes \<Rightarrow> bytes" where
  "ip_body h b = take (unat (h_total h) - header_bytes h) (drop (header_bytes h) b)"

definition good_ip :: "IpNetworkInterface \<Rightarrow> bytes \<Rightarrow> bool" where
  "good_ip iface b \<longleftrightarrow> (\<exists>h r. b = ip_layout h r \<and> sums_to_ones (take (header_bytes h) b) \<and>
     header_bytes h \<le> unat (h_total h) \<and> unat (h_total h) \<le> 20 + length r \<and> h_dst h = unicast iface \<and>
     (h_proto h = ICMP_TYPE \<longrightarrow> good_icmp (ip_body h b)) \<and>
     (h_proto h = UDP_TYPE \<longrightarrow> good_udp (h_src h) (h_dst h) (ip_body h b)))"

lemma good_ip_no_options:
  assumes "no_options h" "header_valid h" "h_dst h = unicast iface" "unat (h_total h) = 20 + length p"
    and "h_proto h = ICMP_TYPE \<Longrightarrow> good_icmp p" "h_proto h = UDP_TYPE \<Longrightarrow> good_udp (h_src h) (h_dst h) p"
  shows "good_ip iface (ip_layout h (p @ trailer))"
proof -
  have "drop 20 (ip_layout h (p @ trailer)) = p @ trailer" by (simp add: ip_layout_def be16_def be32_def)
  then have "ip_body h (ip_layout h (p @ trailer)) = p"
    using assms(4) by (simp add: ip_body_def header_bytes_no_options [OF assms(1)])
  then show ?thesis
    unfolding good_ip_def using assms header_valid_sum [OF assms(1), of "p @ trailer"]
    by (intro exI [of _ h] exI [of _ "p @ trailer"]) (simp add: header_bytes_no_options)
qed

definition benign_body :: "IpNetworkInterface \<Rightarrow> u16 \<Rightarrow> bytes \<Rightarrow> bool" where
  "benign_body iface type b \<longleftrightarrow> length b \<le> 1500 \<and>
     (type = ipType \<longrightarrow> good_ip iface b) \<and> (type = arpType \<longrightarrow> good_arp iface b)"

definition benign_frame :: "IpNetworkInterface \<Rightarrow> bytes \<Rightarrow> bool" where
  "benign_frame iface f \<longleftrightarrow> (\<exists>d s type b. f = ether_layout d s type b \<and> length d = 6 \<and> length s = 6 \<and>
     benign_body iface type b)"

definition benign_packet :: "IpNetworkInterface \<Rightarrow> ProtocolData \<Rightarrow> bool" where
  "benign_packet iface pd \<longleftrightarrow> pd_devicePtr pd = Some 0 \<and> benign_body iface (pd_type pd) (pd_data pd)"

section \<open>The handlers succeed\<close>

definition gateway_known :: "u32 \<Rightarrow> world \<Rightarrow> bool" where
  "gateway_known g w \<longleftrightarrow> (\<exists>c. cache_select (arpCache w) g = Some c \<and> length (hardwareAddress c) = 6)"

lemma gateway_frame [simp]:
  "gateway_known g (w\<lparr>written := x\<rparr>) = gateway_known g w" "gateway_known g (w\<lparr>ipGenId := y\<rparr>) = gateway_known g w"
  "gateway_known g (w\<lparr>udpPcbs := z\<rparr>) = gateway_known g w" "gateway_known g (w\<lparr>pending := p\<rparr>) = gateway_known g w"
  "gateway_known g (w\<lparr>protocolQueues := q\<rparr>) = gateway_known g w" "gateway_known g (set_queues q w) = gateway_known g w"
  by (simp_all add: gateway_known_def set_queues_def)

text \<open>What is learned later never replaces the gateway's entry.\<close>

lemma gateway_stays: "gateway_known g w \<Longrightarrow> gateway_known g (w\<lparr>arpCache := cache_create (arpCache w) c\<rparr>)"
  by (auto simp: gateway_known_def dest: arp.create_keeps)

lemma gateway_kept: "keeps (gateway_known g) (proto_run h pd)"
proof (cases h)
  case ArpProtocolHandler
  have "keeps (gateway_known g) (arp_handle pd)" by (rule arp_handle_keeps) (simp_all add: gateway_stays)
  with ArpProtocolHandler show ?thesis by simp
next
  case Ipv4ProtocolHandler
  have "keeps (gateway_known g) (ip_handle pd)" by (rule ip_handle_keeps) simp_all
  with Ipv4ProtocolHandler show ?thesis by simp
qed

text \<open>The system as far as the handlers are concerned.\<close>

definition settled :: "Interrupt \<Rightarrow> EtherDevice \<Rightarrow> IpNetworkInterface \<Rightarrow> Route \<Rightarrow> world \<Rightarrow> bool" where
  "settled intr dev iface route w \<longleftrightarrow>
     configured intr w dev iface route \<and> unicast iface \<noteq> IP_ADDR_ANY \<and> gateway_known (route_gateway route) w"

lemma icmp_succeeds:
  assumes w: "settled intr dev iface route w" and pd: "ip_interface pd = iface" "good_icmp (ip_data pd)"
    and len: "length (ip_data pd) \<le> 1500"
  shows "\<exists>w'. icmp_handle pd w = (Inr 0, w')"
proof -
  obtain h r where l: "ip_data pd = icmp_layout h r" "even (length r)" "0 < icmp_sum h r" "65535 dvd icmp_sum h r"
    using pd(2) by (auto simp: good_icmp_def)
  then have n: "length r \<le> 1492" using len by simp
  have cfg: "configured intr w dev iface route" using w by (simp add: settled_def)
  have src: "source_allowed (unicast iface) (ip_src_addr pd) route"
    using w by (intro configured_source [OF cfg]) (simp add: settled_def)
  obtain c where c: "cache_select (arpCache w) (route_gateway route) = Some c" "length (hardwareAddress c) = 6"
    using w by (auto simp: settled_def gateway_known_def)
  have "length (icmp_layout (reply_header h r) r) \<le> 65515" using n by simp
  from ipv4_output_sent [OF configured_facts(4) [OF cfg] src this c, of ICMP_TYPE]
  have "\<exists>w'. bindM (ipv4_output ICMP_TYPE (icmp_layout (reply_header h r) r) (unicast (ip_interface pd)) (ip_src_addr pd))
      (\<lambda>_. retM 0) w = (Inr 0, w')"
    using pd(1) by (simp add: bindM_apply)
  moreover have "length r \<le> 65507" using n by simp
  ultimately show ?thesis using l icmp_handle_layout [OF l(1,2)] by auto
qed

lemma udp_succeeds:
  assumes "good_udp (ip_src_addr pd) (ip_dst_addr pd) (ip_data pd)"
  shows "\<exists>v w'. udp_handle pd w = (Inr v, w')"
proof -
  obtain h r where "ip_data pd = udp_layout h r" "even (length r)" "length r \<le> unat (u_len h)"
    "udp_accepts (ip_src_addr pd) (ip_dst_addr pd) (udp_layout h r)"
    using assms by (auto simp: good_udp_def)
  then show ?thesis by (simp add: udp_handle_layout split: option.split)
qed

lemma packet_succeeds:
  assumes w: "settled intr dev iface route w" and pd: "benign_packet iface pd"
    and h: "protocolHandlers w (pd_type pd) = Some hdl"
  shows "\<exists>v w'. proto_run hdl pd w = (Inr v, w')"
proof -
  have cfg: "configured intr w dev iface route" using w by (simp add: settled_def)
  note c = configured_facts [OF cfg]
  have ptr: "pd_devicePtr pd = Some 0" using pd by (simp add: benign_packet_def)
  consider "pd_type pd = arpType" "hdl = ArpProtocolHandler" | "pd_type pd = ipType" "hdl = Ipv4ProtocolHandler"
    using cfg h by (auto simp: configured_def split: if_splits)
  then show ?thesis
  proof cases
    case 1
    obtain ht op sha sip tha rest where "length sha = 6" "length tha = 6"
      "pd_data pd = arp_layout ht 0x0800 op sha (be32 sip) tha (be32 (unicast iface)) rest"
      using pd 1 by (auto simp: benign_packet_def benign_body_def good_arp_def)
    with arp_handle_layout [OF c(1) ptr c(2,3)] 1 show ?thesis by auto
  next
    case 2
    obtain h r where l: "pd_data pd = ip_layout h r"
      and v: "sums_to_ones (take (header_bytes h) (ip_layout h r))" "header_bytes h \<le> unat (h_total h)"
        "unat (h_total h) \<le> 20 + length r" "h_dst h = unicast iface"
      and g: "h_proto h = ICMP_TYPE \<Longrightarrow> good_icmp (ip_body h (ip_layout h r))"
        "h_proto h = UDP_TYPE \<Longrightarrow> good_udp (h_src h) (h_dst h) (ip_body h (ip_layout h r))"
      using pd 2 by (auto simp: benign_packet_def benign_body_def good_ip_def)
    let ?b = "ip_body h (ip_layout h r)"
    let ?d = "\<lparr>ip_type = h_proto h, ip_data = ?b, ip_src_addr = h_src h, ip_dst_addr = h_dst h, ip_interface = iface\<rparr>"
    have "length r \<le> 1480" using pd l by (simp add: benign_packet_def benign_body_def)
    then have n: "length ?b \<le> 1500" by (simp add: ip_body_def)
    have "\<exists>v w'. ip_run k ?d w = (Inr v, w')" if "ipHandlers w (h_proto h) = Some k" for k
    proof (cases k)
      case IcmpHandler
      then have "h_proto h = ICMP_TYPE" using that cfg by (auto simp: configured_def split: if_splits)
      then show ?thesis using icmp_succeeds [OF w, of ?d] g(1) n IcmpHandler by auto
    next
      case UdpHandler
      then have "h_proto h = UDP_TYPE" using that cfg by (auto simp: configured_def split: if_splits)
      then show ?thesis using udp_succeeds [of ?d w] g(2) UdpHandler by simp
    qed
    moreover have "\<not> 20 + length r < header_bytes h" "\<not> 20 + length r < unat (h_total h)" "\<not> unat (h_total h) < header_bytes h"
      using v(2,3) by auto
    ultimately show ?thesis
      using 2 v(1,4) by (auto simp: ip_handle_any [OF c(1) ptr c(2) l] ip_body_def bindM_apply split: option.split)
  qed
qed

lemma settled_run:
  assumes "settled intr dev iface route w" "proto_run hdl pd w = (r, w')"
  shows "settled intr dev iface route w'"
proof -
  have "config w' = config w" using proto.config_same [of hdl pd w] assms(2) by simp
  then show ?thesis
    using assms keepsD' [OF gateway_kept _ assms(2)] configured_config [of w' w intr dev iface route]
    by (simp add: settled_def)
qed

lemma settled_frame:
  "settled intr dev iface route w \<Longrightarrow> settled intr dev iface route (w\<lparr>pending := p\<rparr>)"
  "settled intr dev iface route w \<Longrightarrow> settled intr dev iface route (set_queues q w)"
  by (simp_all add: settled_def configured_def set_queues_def)

lemma settled_same:
  "settled intr dev iface route w \<Longrightarrow> config w' = config w \<Longrightarrow> arpCache w' = arpCache w \<Longrightarrow>
    settled intr dev iface route w'"
  using configured_config [of w' w intr dev iface route] by (simp add: settled_def gateway_known_def)

section \<open>One round of the loop\<close>

definition queues_benign :: "IpNetworkInterface \<Rightarrow> world \<Rightarrow> bool" where
  "queues_benign iface w \<longleftrightarrow> map fst (protocolQueues w) = [ipType, arpType] \<and>
     (\<forall>t. \<forall>pd \<in> set (queue_of t w). pd_type pd = t \<and> benign_packet iface pd)"

lemma run_all_succeeds:
  assumes "settled intr dev iface route w" "protocolHandlers w type = Some hdl"
    and "\<forall>pd \<in> set q. pd_type pd = type \<and> benign_packet iface pd"
  shows "\<exists>w'. run_all (proto_run hdl) q w = (Inr (), w') \<and> settled intr dev iface route w'"
  using assms
proof (induction q arbitrary: w)
  case (Cons d q)
  obtain v w1 where d: "proto_run hdl d w = (Inr v, w1)" using packet_succeeds [OF Cons.prems(1)] Cons.prems(2,3) by force
  have "settled intr dev iface route w1" using settled_run [OF Cons.prems(1) d] .
  moreover have "protocolHandlers w1 type = Some hdl"
    using proto.config_same [of hdl d w] d Cons.prems(2) by (simp add: config_def)
  ultimately show ?case using Cons.IH [of w1] Cons.prems(3) d by (simp add: bindM_Inr)
qed simp

lemma drain_succeeds:
  assumes w: "settled intr dev iface route w" and q: "queues_benign iface w" and t: "type \<in> {ipType, arpType}"
  shows "\<exists>w'. drain_queue type w = (Inr (), w') \<and> settled intr dev iface route w' \<and> queues_benign iface w'"
proof -
  have keys: "map fst (protocolQueues w) = [ipType, arpType]" using q by (simp add: queues_benign_def)
  obtain hdl where h: "protocolHandlers w type = Some hdl" using w t by (auto simp: settled_def configured_def)
  obtain ds where m: "map_of (protocolQueues w) type = Some ds"
    using keys t by (cases "map_of (protocolQueues w) type") (auto simp: map_of_eq_None_iff simp flip: set_map)
  have "queue_of type w = ds" using m by (simp add: queue_of_def)
  then have "\<forall>pd \<in> set ds. pd_type pd = type \<and> benign_packet iface pd"
    using q unfolding queues_benign_def by blast
  then obtain w1 where w1: "run_all (proto_run hdl) ds w = (Inr (), w1)" "settled intr dev iface route w1"
    using run_all_succeeds [OF w h] by blast
  have "distinct (map fst (protocolQueues w))" by (simp add: keys)
  from drain_queue_run_all [OF this h m w1(1)] have d: "drain_queue type w = (Inr (), drained type w1)" .
  have "protocolQueues w1 = protocolQueues w" using proto.run_all_queues [of hdl ds w] w1(1) by simp
  then have "set (queue_of t (drained type w1)) \<subseteq> set (queue_of t w)" for t
    by (cases "map_of (protocolQueues w) type") (auto simp: queue_of_def drained_def)
  then have "queues_benign iface (drained type w1)"
    using q \<open>protocolQueues w1 = protocolQueues w\<close> by (fastforce simp: queues_benign_def drained_def)
  moreover have "settled intr dev iface route (drained type w1)"
    using w1(2) by (simp add: drained_def settled_frame)
  ultimately show ?thesis using d by blast
qed

lemma protocol_signal_succeeds:
  assumes "settled intr dev iface route w" "queues_benign iface w"
  shows "\<exists>w'. handleProtocolSignal w = (Inr (), w') \<and> settled intr dev iface route w' \<and> queues_benign iface w'"
proof -
  obtain w1 where 1: "drain_queue ipType w = (Inr (), w1)" "settled intr dev iface route w1" "queues_benign iface w1"
    using drain_succeeds [OF assms, of ipType] by auto
  obtain w2 where "drain_queue arpType w1 = (Inr (), w2)" "settled intr dev iface route w2" "queues_benign iface w2"
    using drain_succeeds [OF 1(2,3), of arpType] by auto
  with 1 assms(2) show ?thesis
    by (simp add: handleProtocolSignal_def queues_benign_def bindM_Inr)
qed

lemma event_loop_cache: "arpCache (snd (event_loop es w)) = arpCache w \<and> fst (event_loop es w) = Inr ()"
proof (induction es arbitrary: w)
  case (Cons e es)
  then show ?case by (cases e) (simp add: udp_event_handle_def bindM_def)
qed simp

text \<open>A benign frame is read whole and queued, or dropped if nothing handles its type.\<close>

lemma benign_handler:
  assumes w: "settled intr dev iface route w" and q: "queues_benign iface w" and f: "benign_frame iface f"
  shows "length f \<le> 1514"
    and "\<exists>w'. EtherDevice_handler dev (Some f) w = (Inr 0, w') \<and> settled intr dev iface route w' \<and> queues_benign iface w' \<and>
      count_list (pending w') ETHER_TAN_IRQ = count_list (pending w) ETHER_TAN_IRQ"
proof -
  obtain d s type b where l: "f = ether_layout d s type b" "length d = 6" "length s = 6" "benign_body iface type b"
    using f by (auto simp: benign_frame_def)
  then show "length f \<le> 1514" by (simp add: benign_body_def)
  show "\<exists>w'. EtherDevice_handler dev (Some f) w = (Inr 0, w') \<and> settled intr dev iface route w' \<and> queues_benign iface w' \<and>
      count_list (pending w') ETHER_TAN_IRQ = count_list (pending w) ETHER_TAN_IRQ"
  proof (cases "map_of (protocolQueues w) type")
    case None
    have "etherType f = Inr type" using l by (simp add: wire)
    from handler_unknown [OF this None] w q show ?thesis by blast
  next
    case (Some ds)
    let ?pd = "\<lparr>pd_type = type, pd_data = b, pd_devicePtr = selfPtr dev\<rparr>"
    let ?w = "w\<lparr>protocolQueues := map_update type (\<lambda>q. q @ [?pd]) (protocolQueues w), pending := raise_signal SIGUSR1 (pending w)\<rparr>"
    have "selfPtr dev = Some 0" using w by (simp add: settled_def configured_def)
    then have pd: "benign_packet iface ?pd" using l(4) by (simp add: benign_packet_def)
    have "queue_of t ?w = (if t = type then queue_of t w @ [?pd] else queue_of t w)" for t
      using Some by (simp add: queue_of_def)
    then have "queues_benign iface ?w" using q pd by (auto simp: queues_benign_def)
    moreover have "settled intr dev iface route ?w"
      using settled_frame(1) [OF settled_frame(2) [OF w]] by (simp add: set_queues_def)
    moreover have "count_list (pending ?w) ETHER_TAN_IRQ = count_list (pending w) ETHER_TAN_IRQ"
      by (simp add: raise_signal_def ETHER_TAN_IRQ_def)
    moreover have "EtherDevice_handler dev (Some f) w = (Inr 0, ?w)"
      using handler_queues [OF l(2,3) Some, of dev b] l(1) by simp
    ultimately show ?thesis by blast
  qed
qed

section \<open>Runs with benign traffic\<close>

text \<open>Steps of the system in which the only frames that arrive are benign ones, for the one device.\<close>

inductive calm_step :: "Interrupt \<Rightarrow> IpNetworkInterface \<Rightarrow> system \<Rightarrow> system \<Rightarrow> bool" for intr iface where
  benign_arrival: "benign_frame iface f \<Longrightarrow> step intr s (arrival 0 (Some f) s) \<Longrightarrow>
    calm_step intr iface s (arrival 0 (Some f) s)"
| no_arrival: "step intr s t \<Longrightarrow> \<forall>k rd. t \<noteq> arrival k rd s \<Longrightarrow> calm_step intr iface s t"

inductive calm_reachable :: "Interrupt \<Rightarrow> IpNetworkInterface \<Rightarrow> system \<Rightarrow> system \<Rightarrow> bool" for intr iface s0 where
  calm_start: "calm_reachable intr iface s0 s0"
| calm_next: "calm_reachable intr iface s0 s \<Longrightarrow> calm_step intr iface s t \<Longrightarrow> calm_reachable intr iface s0 t"

lemma calm_is_reachable: "calm_reachable intr iface s0 s \<Longrightarrow> reachable intr s0 s"
  by (induction rule: calm_reachable.induct) (auto elim: calm_step.cases intro: reachable.intros)

text \<open>
  What such a run keeps: the frames that wait are benign, one device signal is pending for each of
  them, so a read never blocks, and everything queued is benign.
\<close>

definition calm :: "Interrupt \<Rightarrow> EtherDevice \<Rightarrow> IpNetworkInterface \<Rightarrow> Route \<Rightarrow> world \<Rightarrow> reads \<Rightarrow> bool" where
  "calm intr dev iface route w rx \<longleftrightarrow>
     settled intr dev iface route w \<and> queues_benign iface w \<and>
     count_list (pending w) ETHER_TAN_IRQ = length (rx 0) \<and>
     (\<forall>rd \<in> set (rx 0). \<exists>f. rd = Some f \<and> benign_frame iface f)"

lemma count_take_signal:
  "count_list (pending (take_signal sg w)) x =
     (if sg = x \<and> sg \<in> set (pending w) then count_list (pending w) x - 1 else count_list (pending w) x)"
proof -
  have "count_list (remove1 a xs) b = (if a = b \<and> a \<in> set xs then count_list xs b - 1 else count_list xs b)" for a b and xs :: "signal list"
  proof (induction xs)
    case (Cons y xs)
    have "b \<in> set xs \<Longrightarrow> 0 < count_list xs b" by (metis count_list_0_iff gr0I)
    with Cons show ?case by auto
  qed simp
  then show ?thesis by simp
qed

lemma calm_frame:
  assumes "settled intr dev iface route w" "queues_benign iface w"
  shows "settled intr dev iface route (take_signal sg w)" "queues_benign iface (take_signal sg w)"
  using assms settled_frame(1) [of intr dev iface route w] by (simp_all add: take_signal_def queues_benign_def queue_of_def)

text \<open>The signal of the device takes one benign frame; other real-time signals concern nobody.\<close>

lemma calm_device_signal:
  assumes w: "settled intr dev iface route w" "queues_benign iface w" and rx: "rx 0 = Some f # rest" "benign_frame iface f"
  shows "\<exists>w'. dispatch intr ETHER_TAN_IRQ (w, rx) = (Inr False, (w', rx(0 := rest))) \<and>
    settled intr dev iface route w' \<and> queues_benign iface w' \<and>
    count_list (pending w') ETHER_TAN_IRQ = count_list (pending w) ETHER_TAN_IRQ"
proof -
  note b = benign_handler [OF w rx(2)]
  obtain w' where h: "EtherDevice_handler dev (Some f) w = (Inr 0, w')" "settled intr dev iface route w'" "queues_benign iface w'"
    "count_list (pending w') ETHER_TAN_IRQ = count_list (pending w) ETHER_TAN_IRQ" using b(2) by blast
  have i: "inputDevices intr = [0]" "devices w = [dev]" "length (dev_address dev) = 6"
    using w(1) by (simp_all add: settled_def configured_def)
  obtain s where "EtherDevice_getInfo dev = Inr s"
    using i(3) by (auto simp: EtherDevice_getInfo_def addressToString_def vec_at_def)
  then have "dispatch intr ETHER_TAN_IRQ (w, rx) = (Inr False, (w', rx(0 := rest)))"
    using i h(1) rx(1) b(1)
    by (simp add: ETHER_TAN_IRQ_def handleSignal_def on_world_def bindM_apply getIrq_def read_device_def deref_device_def)
  with h(2-4) show ?thesis by blast
qed

lemma other_device_signal:
  assumes "settled intr dev iface route w" "SIGRT k \<noteq> ETHER_TAN_IRQ"
  shows "dispatch intr (SIGRT k) (w, rx) = (Inr False, (w, rx))"
  using assms
  by (simp add: settled_def configured_def handleSignal_def on_world_def bindM_apply getIrq_def deref_device_def)

lemma calm_dispatch:
  assumes c: "calm intr dev iface route w rx" and sg: "sg \<in> set (pending w)"
    and d: "dispatch intr sg (take_signal sg w, rx) = (r, (w', rx'))"
  shows "r = Inr (sg = SIGHUP) \<and> calm intr dev iface route w' rx' \<and> (sg = ETHER_TAN_IRQ \<longrightarrow> rx' = rx(0 := tl (rx 0)))"
proof -
  let ?w = "take_signal sg w"
  have w: "settled intr dev iface route ?w" "queues_benign iface ?w"
    using c calm_frame [of intr dev iface route w] by (simp_all add: calm_def)
  have n: "count_list (pending ?w) ETHER_TAN_IRQ = (if sg = ETHER_TAN_IRQ then length (rx 0) - 1 else length (rx 0))"
    using c sg count_take_signal [of sg w ETHER_TAN_IRQ] by (simp add: calm_def)
  show ?thesis
  proof (cases sg)
    case SIGHUP
    moreover have "SIGHUP \<noteq> ETHER_TAN_IRQ" by (simp add: ETHER_TAN_IRQ_def)
    ultimately show ?thesis using d c w n by (auto simp: calm_def simp del: take_signal_frame)
  next
    case SIGUSR1
    obtain w1 where h: "handleProtocolSignal ?w = (Inr (), w1)" "settled intr dev iface route w1" "queues_benign iface w1"
      using protocol_signal_succeeds [OF w] by auto
    with d SIGUSR1 have "r = Inr False" "w' = w1" "rx' = rx" by (simp_all add: on_world_def bindM_apply)
    moreover have "pending w1 = pending ?w" using handleProtocolSignal_frame(2) [OF h(1)] .
    ultimately show ?thesis using c h n SIGUSR1 by (auto simp: calm_def ETHER_TAN_IRQ_def)
  next
    case SIGUSR2
    let ?e = "event_loop (eventHandlers ?w) ?w"
    obtain u w1 where e: "?e = (u, w1)" by (cases ?e)
    then have u: "u = Inr ()" and a: "arpCache w1 = arpCache ?w"
      using event_loop_cache [of "eventHandlers ?w" ?w] by simp_all
    from e u d SIGUSR2 have "r = Inr False" "w' = w1" "rx' = rx"
      by (simp_all add: on_world_def bindM_apply handleEventSignal_def)
    moreover have f: "protocolQueues w1 = protocolQueues ?w" "pending w1 = pending ?w" "config w1 = config ?w"
      using event_loop_frame [of "eventHandlers ?w" ?w] e by simp_all
    moreover have "queues_benign iface w1" using w(2) f(1) by (simp add: queues_benign_def queue_of_def)
    ultimately show ?thesis
      using c n SIGUSR2 settled_same [OF w(1) f(3) a] by (auto simp: calm_def ETHER_TAN_IRQ_def)
  next
    case (SIGRT k)
    show ?thesis
    proof (cases "sg = ETHER_TAN_IRQ")
      case False
      have "(r, (w', rx')) = (Inr False, (?w, rx))"
        using d other_device_signal [OF w(1), of k rx] False unfolding SIGRT by (simp only: not_False_eq_True)
      then have "r = Inr False" "w' = ?w" "rx' = rx" by simp_all
      then show ?thesis using c w n False by (auto simp: calm_def SIGRT)
    next
      case True
      then have "rx 0 \<noteq> []" using c sg by (auto simp: calm_def count_list_0_iff)
      then obtain f rest where rx: "rx 0 = Some f # rest" "benign_frame iface f"
        using c by (cases "rx 0") (auto simp: calm_def)
      from calm_device_signal [OF w, of rx f rest] rx obtain w1 where "dispatch intr ETHER_TAN_IRQ (?w, rx) = (Inr False, (w1, rx(0 := rest)))"
        and h: "settled intr dev iface route w1" "queues_benign iface w1"
        "count_list (pending w1) ETHER_TAN_IRQ = count_list (pending ?w) ETHER_TAN_IRQ" by blast
      with d True have "r = Inr False" "w' = w1" "rx' = rx(0 := rest)" by (simp_all only: prod.inject)
      moreover have "sg \<noteq> SIGHUP" by (simp add: SIGRT)
      ultimately show ?thesis using c n True h rx(1) by (auto simp: calm_def)
    qed
  qed
qed

definition calm_system :: "Interrupt \<Rightarrow> EtherDevice \<Rightarrow> IpNetworkInterface \<Rightarrow> Route \<Rightarrow> system \<Rightarrow> bool" where
  "calm_system intr dev iface route s \<longleftrightarrow>
     (sys_thread s = Waiting \<or> sys_thread s = Exited) \<and> calm intr dev iface route (sys_world s) (sys_rx s)"

lemma calm_pending:
  assumes "calm intr dev iface route w rx" "sg \<noteq> ETHER_TAN_IRQ"
  shows "calm intr dev iface route (w\<lparr>pending := raise_signal sg (pending w)\<rparr>) rx"
  using assms settled_frame(1) [of intr dev iface route w]
  by (auto simp: calm_def queues_benign_def queue_of_def raise_signal_def)

lemma calm_arrival:
  assumes "calm intr dev iface route (sys_world s) (sys_rx s)" "benign_frame iface f"
  shows "calm intr dev iface route (sys_world (arrival 0 (Some f) s)) (sys_rx (arrival 0 (Some f) s))"
proof -
  let ?p = "pending (sys_world s) @ [ETHER_TAN_IRQ]"
  have a: "sys_world (arrival 0 (Some f) s) = (sys_world s)\<lparr>pending := ?p\<rparr>"
    "sys_rx (arrival 0 (Some f) s) 0 = sys_rx s 0 @ [Some f]"
    by (simp_all add: arrival_def raise_signal_def ETHER_TAN_IRQ_def)
  have "settled intr dev iface route ((sys_world s)\<lparr>pending := ?p\<rparr>)" "queues_benign iface ((sys_world s)\<lparr>pending := ?p\<rparr>)"
    using assms(1) settled_frame(1) by (simp_all add: calm_def queues_benign_def queue_of_def)
  then show ?thesis using assms by (auto simp: calm_def a)
qed

lemma calm_socket_call:
  assumes "calm intr dev iface route w rx" "socket_call w w'"
  shows "calm intr dev iface route w' rx"
proof -
  note f = socket_call_frame [OF assms(2)]
  have "settled intr dev iface route w'"
    by (rule settled_same [of intr dev iface route w]) (use assms(1) f(3,4) in \<open>simp_all add: calm_def\<close>)
  with assms(1) f show ?thesis by (simp add: calm_def queues_benign_def queue_of_def)
qed

lemma calm_wake:
  assumes "calm intr dev iface route (sys_world s) (sys_rx s)" "sys_thread s = Waiting" "sg \<in> set (pending (sys_world s))"
    and "{SIGHUP, SIGUSR1, SIGUSR2, ETHER_TAN_IRQ} \<subseteq> sigmask intr" "sg \<in> {SIGUSR1, ETHER_TAN_IRQ}"
  shows "\<exists>w' rx'. step intr s \<lparr>sys_world = w', sys_rx = rx', sys_thread = Waiting\<rparr> \<and>
    dispatch intr sg (take_signal sg (sys_world s), sys_rx s) = (Inr False, (w', rx')) \<and>
    (sg = ETHER_TAN_IRQ \<longrightarrow> rx' = (sys_rx s)(0 := tl (sys_rx s 0)))"
proof -
  obtain r w' rx' where d: "dispatch intr sg (take_signal sg (sys_world s), sys_rx s) = (r, (w', rx'))"
    using prod_cases3 by blast
  have "r = Inr (sg = SIGHUP) \<and> (sg = ETHER_TAN_IRQ \<longrightarrow> rx' = (sys_rx s)(0 := tl (sys_rx s 0)))"
    using calm_dispatch [OF assms(1,3) d] by simp
  moreover have "sg \<noteq> SIGHUP" using assms(5) by (auto simp: ETHER_TAN_IRQ_def)
  moreover have "sg \<in> sigmask intr" using assms(4,5) by auto
  ultimately show ?thesis using wake [OF assms(2,3) _ d] d by auto
qed

lemma calm_system_step:
  assumes "calm_step intr iface s t" "calm_system intr dev iface route s"
  shows "calm_system intr dev iface route t"
  using assms(1)
proof cases
  case (benign_arrival f)
  with assms(2) calm_arrival [of intr dev iface route s f] show ?thesis by (simp add: calm_system_def) (simp add: arrival_def)
next
  case no_arrival
  have c: "calm intr dev iface route (sys_world s) (sys_rx s)" using assms(2) by (simp add: calm_system_def)
  from no_arrival(1) show ?thesis
  proof (cases rule: step.cases)
    case (wake sg r w' rx')
    with calm_dispatch [OF c wake(3,5)] show ?thesis by (cases "sg = SIGHUP") (simp_all add: calm_system_def)
  next
    case (frame k rd)
    with no_arrival(2) show ?thesis by blast
  next
    case (signal sg)
    then have "sg \<noteq> ETHER_TAN_IRQ" by (auto simp: ETHER_TAN_IRQ_def)
    with signal calm_pending [OF c] assms(2) show ?thesis by (simp add: calm_system_def)
  next
    case (socket w')
    with calm_socket_call [OF c] assms(2) show ?thesis by (simp add: calm_system_def)
  qed
qed

lemma calm_system_reachable:
  "calm_reachable intr iface s0 s \<Longrightarrow> calm_system intr dev iface route s0 \<Longrightarrow> calm_system intr dev iface route s"
  by (induction rule: calm_reachable.induct) (auto intro: calm_system_step)

lemma idle_calm:
  assumes "configured intr w dev iface route" "idle w" "unicast iface \<noteq> IP_ADDR_ANY" "gateway_known (route_gateway route) w"
  shows "calm_system intr dev iface route (idle_system w)"
proof -
  have "queue_of t w = []" for t using assms(2) by (simp add: idle_def queue_of_def)
  then show ?thesis
    using assms by (simp add: calm_system_def idle_system_def calm_def settled_def queues_benign_def idle_def)
qed

section \<open>Coming to rest\<close>

text \<open>Left alone, the thread handles everything that waits, in a bounded number of steps.\<close>

lemma calm_thread_step:
  assumes "thread_step intr s t" "calm_system intr dev iface route s"
  shows "calm_system intr dev iface route t"
  using assms(1)
proof cases
  case (thread_wakes sg r w' rx')
  have "calm intr dev iface route (sys_world s) (sys_rx s)" using assms(2) by (simp add: calm_system_def)
  from calm_dispatch [OF this thread_wakes(3,5)] thread_wakes(1) show ?thesis
    by (cases "sg = SIGHUP") (simp_all add: calm_system_def)
qed

lemma calm_thread_steps:
  "(thread_step intr ^^ n) s t \<Longrightarrow> calm_system intr dev iface route s \<Longrightarrow> calm_system intr dev iface route t"
  by (induction n arbitrary: t) (auto intro: calm_thread_step)

lemma thread_steps_reachable: "(thread_step intr ^^ n) s t \<Longrightarrow> reachable intr s0 s \<Longrightarrow> reachable intr s0 t"
  by (induction n arbitrary: t) (auto intro: reachable.intros thread_step_step)

lemma calm_steps_bounded:
  assumes "calm_system intr dev iface route s" "(thread_step intr ^^ n) s t"
  shows "n \<le> 2 * length (pending (sys_world s))"
proof -
  have "n + pending_work (pending (sys_world t)) \<le> pending_work (pending (sys_world s))"
  proof (rule thread_steps_bounded [OF assms(2)])
    fix k u e
    assume "(thread_step intr ^^ k) s u"
    from calm_thread_steps [OF this assms(1)] show "sys_thread u \<noteq> Crashed e" by (auto simp: calm_system_def)
  qed
  with pending_work_le [of "pending (sys_world s)"] show ?thesis by simp
qed

text \<open>Where it stops, nothing it waits for is pending, so no frame is unread and no packet queued.\<close>

lemma calm_at_rest:
  assumes c: "calm_system intr dev iface route t" and stop: "\<nexists>u. thread_step intr t u" "sys_thread t = Waiting"
    and mask: "{SIGHUP, SIGUSR1, SIGUSR2, ETHER_TAN_IRQ} \<subseteq> sigmask intr"
  shows "SIGUSR1 \<notin> set (pending (sys_world t)) \<and> sys_rx t 0 = []"
proof -
  have "sg \<notin> set (pending (sys_world t))" if "sg \<in> sigmask intr" for sg
    using stop that thread_wakes [of t sg intr] by (metis prod_cases3)
  then have "ETHER_TAN_IRQ \<notin> set (pending (sys_world t))" "SIGUSR1 \<notin> set (pending (sys_world t))" using mask by auto
  with c show ?thesis by (simp add: calm_system_def calm_def count_list_0_iff)
qed

end
