(* ===== verification/CvRefine.thy ===== *)
theory CvRefine
  imports CvWait
begin

text \<open>
  Why the rest of the development may take an operation on a control block as one step.  The runs of
  theory CvWait, in which a receiver, a delivery and an interrupt interleave, are shown to do to the
  block what the operations of theory PcbTable do in some order: the order of the single moments at
  which each of them takes effect.
\<close>

section \<open>Events\<close>

text \<open>The moments that count: a push, the return of a receiver with or without a datagram, the flag.\<close>

datatype cv_event = Put UdpPcbPayload | Got UdpPcbPayload | Refused | Flagged

definition cv_events :: "cv_state \<Rightarrow> cv_state \<Rightarrow> cv_event list" where
  "cv_events s t =
     (if dpc s = DLocked \<and> dpc t = DPushed then [Put (last (que (block t)))]
      else if rpc s = RLocked \<and> rpc t = RDone then
        (if interrupted (block s) = 1 then [Refused] else [Got (hd (que (block s)))])
      else if ipc s = IPassed \<and> ipc t = ISet then [Flagged] else [])"

inductive cv_run :: "cv_state \<Rightarrow> cv_event list \<Rightarrow> cv_state \<Rightarrow> bool" for s0 where
  run_start: "cv_run s0 [] s0"
| run_step: "cv_run s0 es s \<Longrightarrow> cv_step s t \<Longrightarrow> cv_run s0 (es @ cv_events s t) t"

lemma run_reachable: "cv_run s0 es s \<Longrightarrow> cv_reachable s0 s"
  by (induction rule: cv_run.induct) (auto intro: cv_reachable.intros)

section \<open>The atomic operations\<close>

text \<open>
  The specification: a table with one open block, on which \<open>UdpHandler::handle\<close> pushes,
  \<open>recvFrom\<close> returns the first datagram or, once the flag is set, nothing, and \<open>interruptAll\<close> sets
  the flag.  \<open>None\<close> is an event the operations do not allow.
\<close>

fun atomic :: "cv_event \<Rightarrow> pcb_table \<Rightarrow> pcb_table option" where
  "atomic (Put pl) pcbs = Some (pcb_push pcbs 0 pl)"
| "atomic (Got pl) pcbs =
     (if interrupted (pcbs ! 0) \<noteq> 1 \<and> que (pcbs ! 0) \<noteq> [] \<and> hd (que (pcbs ! 0)) = pl
      then Some (pcb_pop pcbs 0) else None)"
| "atomic Refused pcbs = (if interrupted (pcbs ! 0) = 1 then Some pcbs else None)"
| "atomic Flagged pcbs = Some (interruptAll pcbs)"

fun replay :: "cv_event list \<Rightarrow> pcb_table \<Rightarrow> pcb_table option" where
  "replay [] pcbs = Some pcbs"
| "replay (e # es) pcbs = Option.bind (atomic e pcbs) (replay es)"

lemma replay_append: "replay (es @ fs) pcbs = Option.bind (replay es pcbs) (replay fs)"
  by (induction es arbitrary: pcbs) (auto split: bind_splits)

text \<open>Every step is the operation of its event, or changes nothing of the block.\<close>

lemma step_atomic:
  assumes "cv_step s t" "cv_inv s" "state (block s) = OPEN"
  shows "replay (cv_events s t) [block s] = Some [block t] \<and> state (block t) = OPEN"
  using assms
  by cases (auto simp: cv_events_def pcb_push_def pcb_pop_def interruptAll_def received_def ready_def notify_def
      cv_inv_def split: if_splits)

lemma run_atomic:
  assumes "cv_run s0 es s" "cv_inv s0" "state (block s0) = OPEN"
  shows "cv_inv s \<and> state (block s) = OPEN \<and> replay es [block s0] = Some [block s]"
  using assms
proof (induction rule: cv_run.induct)
  case (run_step es s t)
  then show ?case using cv_inv_step step_atomic [of s t] by (simp add: replay_append)
qed simp

section \<open>What receivers get\<close>

fun puts :: "cv_event list \<Rightarrow> UdpPcbPayload list" where
  "puts [] = []"
| "puts (Put pl # es) = pl # puts es"
| "puts (_ # es) = puts es"

fun gots :: "cv_event list \<Rightarrow> UdpPcbPayload list" where
  "gots [] = []"
| "gots (Got pl # es) = pl # gots es"
| "gots (_ # es) = gots es"

text \<open>The atomic operations are those of a queue: what came in is what went out and what is still there.\<close>

lemma replay_fifo: "replay es [b] = Some [b'] \<Longrightarrow> que b @ puts es = gots es @ que b'"
proof (induction es arbitrary: b)
  case (Cons e es)
  obtain b1 where b1: "atomic e [b] = Some [b1]" "replay es [b1] = Some [b']"
    using Cons.prems by (cases e) (auto simp: pcb_push_def pcb_pop_def interruptAll_def split: bind_splits if_splits)
  note ih = Cons.IH [OF b1(2)]
  from b1(1) ih show ?case
    by (cases e; cases "que b") (auto simp: pcb_push_def pcb_pop_def interruptAll_def split: if_splits)
qed simp



end
