(* ===== verification/ThreadStart.thy ===== *)
theory ThreadStart
  imports InterruptThread
begin

text \<open>
  The start of the interrupt thread (\<open>Interrupt::run\<close> and the head of \<open>interruptThread\<close>,
  lib/Interrupt.h): the signals are blocked, the thread is created and inherits the mask, and both
  threads meet at a barrier.  Signals that are sent in the meantime wait, or end the process: until
  they are blocked nothing handles them, and their default action is to terminate.
\<close>

section \<open>Steps\<close>

text \<open>\<open>init\<close> sets the barrier up for two threads.\<close>

definition barrier_count :: nat where "barrier_count = 2"

datatype main_pc = BeforeMask | Masked | Created | MainAtBarrier | RunReturned | RunThrew
datatype thread_pc = NoThread | Started | ThreadAtBarrier | InLoop

record startup =
  s_main :: main_pc
  s_thread :: thread_pc
  s_main_mask :: "signal set"
  s_thread_mask :: "signal set"
  s_arrived :: nat
  s_pending :: "signal list"
  s_killed :: "signal option"

text \<open>A signal for the process waits only if every thread blocks it.\<close>

definition blocked :: "signal \<Rightarrow> startup \<Rightarrow> bool" where
  "blocked sg s \<longleftrightarrow> sg \<in> s_main_mask s \<and> (s_thread s = NoThread \<or> sg \<in> s_thread_mask s)"

definition send_signal :: "signal \<Rightarrow> startup \<Rightarrow> startup" where
  "send_signal sg s =
     (if blocked sg s then s\<lparr>s_pending := raise_signal sg (s_pending s)\<rparr> else s\<lparr>s_killed := Some sg\<rparr>)"

text \<open>\<open>err\<close> is what \<open>pthread_sigmask\<close> returns.\<close>

inductive start_step :: "Interrupt \<Rightarrow> int \<Rightarrow> startup \<Rightarrow> startup \<Rightarrow> bool" for intr err where
  block_signals: "s_killed s = None \<Longrightarrow> s_main s = BeforeMask \<Longrightarrow> err = 0 \<Longrightarrow>
    start_step intr err s (s\<lparr>s_main := Masked, s_main_mask := s_main_mask s \<union> sigmask intr\<rparr>)"
| block_fails: "s_killed s = None \<Longrightarrow> s_main s = BeforeMask \<Longrightarrow> err \<noteq> 0 \<Longrightarrow>
    start_step intr err s (s\<lparr>s_main := RunThrew\<rparr>)"
| create_thread: "s_killed s = None \<Longrightarrow> s_main s = Masked \<Longrightarrow>
    start_step intr err s (s\<lparr>s_main := Created, s_thread := Started, s_thread_mask := s_main_mask s\<rparr>)"
| main_arrives: "s_killed s = None \<Longrightarrow> s_main s = Created \<Longrightarrow>
    start_step intr err s (s\<lparr>s_main := MainAtBarrier, s_arrived := s_arrived s + 1\<rparr>)"
| thread_arrives: "s_killed s = None \<Longrightarrow> s_thread s = Started \<Longrightarrow>
    start_step intr err s (s\<lparr>s_thread := ThreadAtBarrier, s_arrived := s_arrived s + 1\<rparr>)"
| main_passes: "s_killed s = None \<Longrightarrow> s_main s = MainAtBarrier \<Longrightarrow> s_arrived s = barrier_count \<Longrightarrow>
    start_step intr err s (s\<lparr>s_main := RunReturned\<rparr>)"
| thread_passes: "s_killed s = None \<Longrightarrow> s_thread s = ThreadAtBarrier \<Longrightarrow> s_arrived s = barrier_count \<Longrightarrow>
    start_step intr err s (s\<lparr>s_thread := InLoop\<rparr>)"
| sent: "s_killed s = None \<Longrightarrow> start_step intr err s (send_signal sg s)"

inductive_cases start_stepE: "start_step intr err s t"

definition run_called :: startup where
  "run_called = \<lparr>s_main = BeforeMask, s_thread = NoThread, s_main_mask = {}, s_thread_mask = {}, s_arrived = 0,
     s_pending = [], s_killed = None\<rparr>"

inductive start_reachable :: "Interrupt \<Rightarrow> int \<Rightarrow> startup \<Rightarrow> bool" for intr err where
  start_init: "start_reachable intr err run_called"
| start_next: "start_reachable intr err s \<Longrightarrow> start_step intr err s t \<Longrightarrow> start_reachable intr err t"

section \<open>The invariant\<close>

fun main_arrived :: "main_pc \<Rightarrow> nat" where
  "main_arrived MainAtBarrier = 1"
| "main_arrived RunReturned = 1"
| "main_arrived _ = 0"

fun thread_arrived :: "thread_pc \<Rightarrow> nat" where
  "thread_arrived ThreadAtBarrier = 1"
| "thread_arrived InLoop = 1"
| "thread_arrived _ = 0"

definition start_inv :: "Interrupt \<Rightarrow> startup \<Rightarrow> bool" where
  "start_inv intr s \<longleftrightarrow>
     s_arrived s = main_arrived (s_main s) + thread_arrived (s_thread s) \<and>
     (s_thread s = NoThread \<longleftrightarrow> s_main s \<in> {BeforeMask, RunThrew, Masked}) \<and>
     (s_main s = RunReturned \<longrightarrow> thread_arrived (s_thread s) = 1) \<and>
     (s_thread s = InLoop \<longrightarrow> main_arrived (s_main s) = 1) \<and>
     (s_main s \<in> {BeforeMask, RunThrew} \<longrightarrow> s_main_mask s = {}) \<and>
     (s_main s \<notin> {BeforeMask, RunThrew} \<longrightarrow> s_main_mask s = sigmask intr) \<and>
     (s_thread s \<noteq> NoThread \<longrightarrow> s_thread_mask s = sigmask intr) \<and>
     (\<forall>sg. s_killed s = Some sg \<longrightarrow> s_main s \<in> {BeforeMask, RunThrew} \<or> sg \<notin> sigmask intr) \<and>
     set (s_pending s) \<subseteq> sigmask intr"

lemma start_inv_send:
  assumes "start_inv intr s" "s_killed s = None"
  shows "start_inv intr (send_signal sg s)"
proof -
  have set: "set (raise_signal sg p) = insert sg (set p)" for p by (auto simp: raise_signal_def)
  show ?thesis
  proof (cases "blocked sg s")
    case True
    then have "sg \<in> sigmask intr" using assms(1) by (cases "s_main s") (simp_all add: start_inv_def blocked_def)
    with True assms(1) show ?thesis by (simp add: start_inv_def send_signal_def set)
  next
    case False
    then have "s_main s \<in> {BeforeMask, RunThrew} \<or> sg \<notin> sigmask intr"
      using assms(1) by (cases "s_thread s = NoThread") (auto simp: start_inv_def blocked_def)
    with False assms(1) show ?thesis by (simp add: start_inv_def send_signal_def)
  qed
qed

lemma start_inv_step:
  assumes "start_step intr err s t" "start_inv intr s"
  shows "start_inv intr t"
  using assms(1)
proof cases
  case main_arrives
  with assms(2) show ?thesis by (cases "s_thread s") (simp_all add: start_inv_def)
next
  case thread_arrives
  with assms(2) show ?thesis by (cases "s_main s") (simp_all add: start_inv_def)
next
  case main_passes
  with assms(2) show ?thesis by (cases "s_thread s") (simp_all add: start_inv_def barrier_count_def)
next
  case thread_passes
  with assms(2) show ?thesis by (cases "s_main s") (simp_all add: start_inv_def barrier_count_def)
next
  case (sent sg)
  with start_inv_send [OF assms(2)] show ?thesis by simp
qed (use assms(2) in \<open>simp_all add: start_inv_def\<close>)

lemma start_inv_reachable: "start_reachable intr err s \<Longrightarrow> start_inv intr s"
proof (induction rule: start_reachable.induct)
  case start_init
  show ?case by (simp add: start_inv_def run_called_def)
next
  case (start_next s t)
  then show ?case by (blast intro: start_inv_step)
qed

text \<open>How many steps of the two threads are left.\<close>

fun main_left :: "main_pc \<Rightarrow> nat" where
  "main_left BeforeMask = 4"
| "main_left Masked = 3"
| "main_left Created = 2"
| "main_left MainAtBarrier = 1"
| "main_left _ = 0"

fun thread_left :: "main_pc \<Rightarrow> thread_pc \<Rightarrow> nat" where
  "thread_left RunThrew _ = 0"
| "thread_left _ NoThread = 3"
| "thread_left _ Started = 2"
| "thread_left _ ThreadAtBarrier = 1"
| "thread_left _ InLoop = 0"

definition steps_left :: "startup \<Rightarrow> nat" where
  "steps_left s = main_left (s_main s) + thread_left (s_main s) (s_thread s)"

lemma start_progress:
  assumes inv: "start_inv intr s" and alive: "s_killed s = None" and left: "steps_left s \<noteq> 0"
  shows "\<exists>t. start_step intr err s t \<and> steps_left t < steps_left s \<and> s_killed t = None \<and> s_pending t = s_pending s"
proof (cases "s_main s")
  case BeforeMask
  with inv have "s_thread s = NoThread" by (simp add: start_inv_def)
  with BeforeMask block_signals [OF alive, of err intr] block_fails [OF alive, of err intr] alive show ?thesis
    by (cases "err = 0") (fastforce simp: steps_left_def)+
next
  case Masked
  with inv have "s_thread s = NoThread" by (simp add: start_inv_def)
  with Masked create_thread [OF alive, of intr err] alive show ?thesis by (fastforce simp: steps_left_def)
next
  case Created
  with inv have "s_thread s \<noteq> NoThread" by (simp add: start_inv_def)
  with Created main_arrives [OF alive, of intr err] alive show ?thesis
    by (cases "s_thread s") (fastforce simp: steps_left_def)+
next
  case MainAtBarrier
  show ?thesis
  proof (cases "s_thread s = Started")
    case True
    with MainAtBarrier thread_arrives [OF alive, of intr err] alive show ?thesis by (fastforce simp: steps_left_def)
  next
    case False
    with MainAtBarrier inv have "s_arrived s = barrier_count"
      by (cases "s_thread s") (simp_all add: start_inv_def barrier_count_def)
    with MainAtBarrier main_passes [OF alive, of intr err] alive show ?thesis
      by (cases "s_thread s") (fastforce simp: steps_left_def)+
  qed
next
  case RunReturned
  with inv left have "s_thread s = ThreadAtBarrier" "s_arrived s = barrier_count"
    by (cases "s_thread s"; simp add: start_inv_def barrier_count_def steps_left_def)+
  with RunReturned thread_passes [OF alive, of intr err] alive show ?thesis by (fastforce simp: steps_left_def)
next
  case RunThrew
  with left show ?thesis by (simp add: steps_left_def)
qed

section \<open>Property\<close>

text \<open>
  C37. The start of the interrupt thread.  In every state it can be in: \<open>run\<close> has returned only if the
  thread has come to the barrier, and the thread is in its loop only if \<open>run\<close> has come there and the
  thread blocks the signals it waits for, as \<open>sigwait\<close> requires; while anything is left to do, one of
  the two threads can do it, so the start ends; and a signal of the mask that is sent now waits for
  the loop if \<open>run\<close> has blocked the signals, and otherwise ends the process.  The device sends its
  signal from \<open>open\<close> on, which \<open>main\<close> calls earlier.
\<close>

theorem start_meets_at_barrier:
  assumes "start_reachable intr err s" "s_killed s = None"
  shows "(s_main s = RunReturned \<longrightarrow> s_thread s \<in> {ThreadAtBarrier, InLoop}) \<and>
    (s_thread s = InLoop \<longrightarrow> s_main s \<in> {MainAtBarrier, RunReturned} \<and> s_thread_mask s = sigmask intr) \<and>
    (steps_left s \<noteq> 0 \<longrightarrow> (\<exists>t. start_step intr err s t \<and> steps_left t < steps_left s \<and> s_killed t = None \<and>
       s_pending t = s_pending s)) \<and>
    (\<forall>sg \<in> sigmask intr.
       if s_main s \<in> {BeforeMask, RunThrew} then s_killed (send_signal sg s) = Some sg
       else s_killed (send_signal sg s) = None \<and> sg \<in> set (s_pending (send_signal sg s)))"
proof -
  note inv = start_inv_reachable [OF assms(1)]
  have "s_main s = RunReturned \<longrightarrow> s_thread s \<in> {ThreadAtBarrier, InLoop}"
    using inv by (cases "s_thread s") (auto simp: start_inv_def)
  moreover have "s_thread s = InLoop \<longrightarrow> s_main s \<in> {MainAtBarrier, RunReturned} \<and> s_thread_mask s = sigmask intr"
    using inv by (cases "s_main s") (auto simp: start_inv_def)
  moreover have "if s_main s \<in> {BeforeMask, RunThrew} then s_killed (send_signal sg s) = Some sg
       else s_killed (send_signal sg s) = None \<and> sg \<in> set (s_pending (send_signal sg s))" if "sg \<in> sigmask intr" for sg
    using inv assms(2) that by (auto simp: start_inv_def send_signal_def blocked_def raise_signal_def)
  ultimately show ?thesis using start_progress [OF inv assms(2), of err] by blast
qed

text \<open>A signal sent between the mask and the creation of the thread waits for the loop.\<close>

theorem start_meets_at_barrier_witness:
  "\<exists>s. start_reachable Interrupt_init 0 s \<and> s_main s = Masked \<and> SIGUSR1 \<in> set (s_pending (send_signal SIGUSR1 s)) \<and>
     (\<exists>t. start_step Interrupt_init 0 s t \<and> steps_left t < steps_left s)"
proof -
  let ?s = "run_called\<lparr>s_main := Masked, s_main_mask := s_main_mask run_called \<union> sigmask Interrupt_init\<rparr>"
  have "start_step Interrupt_init 0 run_called ?s" by (rule block_signals) (simp_all add: run_called_def)
  then have r: "start_reachable Interrupt_init 0 ?s" by (rule start_next [OF start_init])
  have k: "s_killed ?s = None" by (simp add: run_called_def)
  have "SIGUSR1 \<in> sigmask Interrupt_init" by (simp add: Interrupt_init_def)
  moreover have "steps_left ?s \<noteq> 0" by (simp add: steps_left_def run_called_def)
  ultimately show ?thesis
    using start_meets_at_barrier [OF r k] r by (intro exI [of _ ?s]) auto
qed

end
