(* ===== verification/Program.thy ===== *)
theory Program
  imports MainLoop
begin

text \<open>
  The whole program after its setup: the loop of \<open>main\<close> (main.cpp), the handler of the termination
  signals, the interrupt thread and the kernel as one step relation, and how the program ends.
\<close>

section \<open>Steps\<close>

text \<open>
  \<open>main\<close> before the test of its loop, inside an iteration, after \<open>shutdown\<close> has sent its signal and
  waits to join, returned, or left by an exception.
\<close>

datatype main_state = AtTest | InIteration | Joining | Finished int | Failed error

record program =
  p_sys :: system
  p_terminate :: int
  p_main :: main_state

definition set_world :: "world \<Rightarrow> program \<Rightarrow> program" where
  "set_world w p = p\<lparr>p_sys := (p_sys p)\<lparr>sys_world := w\<rparr>\<rparr>"

definition p_world :: "program \<Rightarrow> world" where
  "p_world p = sys_world (p_sys p)"

text \<open>The process is there until \<open>main\<close> returns or an exception leaves one of the two threads.\<close>

definition running :: "program \<Rightarrow> bool" where
  "running p \<longleftrightarrow> p_main p \<in> {AtTest, InIteration, Joining} \<and> sys_thread (p_sys p) \<in> {Waiting, Exited}"

text \<open>
  What the program does by itself: the interrupt thread takes a pending signal, and \<open>main\<close> goes on.
\<close>

inductive own_step :: "Interrupt \<Rightarrow> UdpSocket \<Rightarrow> (UdpPcbPayload \<Rightarrow> UdpPcbPayload) \<Rightarrow> program \<Rightarrow> program \<Rightarrow> bool"
  for intr sock stale where
  take: "running p \<Longrightarrow> sys_thread (p_sys p) = Waiting \<Longrightarrow> sg \<in> set (pending (p_world p)) \<Longrightarrow> sg \<in> sigmask intr \<Longrightarrow>
    dispatch intr sg (take_signal sg (p_world p), sys_rx (p_sys p)) = (r, (w', rx')) \<Longrightarrow>
    own_step intr sock stale p (p\<lparr>p_sys := \<lparr>sys_world = w', sys_rx = rx', sys_thread = after_dispatch r\<rparr>\<rparr>)"
| enter: "running p \<Longrightarrow> p_main p = AtTest \<Longrightarrow> p_terminate p = 0 \<Longrightarrow>
    own_step intr sock stale p (p\<lparr>p_main := InIteration\<rparr>)"
| iterate: "running p \<Longrightarrow> p_main p = InIteration \<Longrightarrow>
    main_iteration stale ip0 port0 sock (p_world p) = Some (Inr u, w) \<Longrightarrow>
    own_step intr sock stale p (set_world w p\<lparr>p_main := AtTest\<rparr>)"
| iterate_throws: "running p \<Longrightarrow> p_main p = InIteration \<Longrightarrow>
    main_iteration stale ip0 port0 sock (p_world p) = Some (Inl e, w) \<Longrightarrow>
    own_step intr sock stale p (set_world w p\<lparr>p_main := Failed e\<rparr>)"
| leave: "running p \<Longrightarrow> p_main p = AtTest \<Longrightarrow> p_terminate p \<noteq> 0 \<Longrightarrow>
    own_step intr sock stale p (set_world (shutdown (p_world p)) p\<lparr>p_main := Joining\<rparr>)"
| join: "running p \<Longrightarrow> p_main p = Joining \<Longrightarrow> sys_thread (p_sys p) = Exited \<Longrightarrow>
    own_step intr sock stale p (p\<lparr>p_main := Finished 0\<rparr>)"

text \<open>
  Beside that, the kernel announces frames, other processes send signals, and the handler of the
  termination signals runs (\<open>step\<close> also has the steps of the thread, and socket calls of any kind).
\<close>

inductive program_step :: "Interrupt \<Rightarrow> UdpSocket \<Rightarrow> (UdpPcbPayload \<Rightarrow> UdpPcbPayload) \<Rightarrow> program \<Rightarrow> program \<Rightarrow> bool"
  for intr sock stale where
  own: "own_step intr sock stale p q \<Longrightarrow> program_step intr sock stale p q"
| system_step: "running p \<Longrightarrow> step intr (p_sys p) s \<Longrightarrow> program_step intr sock stale p (p\<lparr>p_sys := s\<rparr>)"
| signal_handler: "running p \<Longrightarrow> on_signal (p_terminate p, p_world p) = (t, w) \<Longrightarrow>
    program_step intr sock stale p (set_world w p\<lparr>p_terminate := t\<rparr>)"

inductive program_reachable :: "Interrupt \<Rightarrow> UdpSocket \<Rightarrow> (UdpPcbPayload \<Rightarrow> UdpPcbPayload) \<Rightarrow> program \<Rightarrow> program \<Rightarrow> bool"
  for intr sock stale p0 where
  program_init: "program_reachable intr sock stale p0 p0"
| program_next: "program_reachable intr sock stale p0 p \<Longrightarrow> program_step intr sock stale p q \<Longrightarrow>
    program_reachable intr sock stale p0 q"

text \<open>The program comes to the end by itself.\<close>

definition can_finish :: "Interrupt \<Rightarrow> UdpSocket \<Rightarrow> (UdpPcbPayload \<Rightarrow> UdpPcbPayload) \<Rightarrow> program \<Rightarrow> bool" where
  "can_finish intr sock stale p \<longleftrightarrow> (\<exists>q. (own_step intr sock stale)\<^sup>*\<^sup>* p q \<and> p_main q = Finished 0)"

lemma finish_step: "own_step intr sock stale p q \<Longrightarrow> can_finish intr sock stale q \<Longrightarrow> can_finish intr sock stale p"
  unfolding can_finish_def by (blast intro: converse_rtranclp_into_rtranclp)

definition program_start :: "world \<Rightarrow> program" where
  "program_start w = \<lparr>p_sys = idle_system w, p_terminate = 0, p_main = AtTest\<rparr>"

lemma set_world_simps [simp]:
  "sys_world (p_sys (set_world w p)) = w" "sys_thread (p_sys (set_world w p)) = sys_thread (p_sys p)"
  "sys_rx (p_sys (set_world w p)) = sys_rx (p_sys p)" "p_terminate (set_world w p) = p_terminate p"
  "p_main (set_world w p) = p_main p" "p_world (set_world w p) = w" "p_world (p\<lparr>p_main := m\<rparr>) = p_world p"
  "p_world (p\<lparr>p_terminate := t\<rparr>) = p_world p" "p_world (p\<lparr>p_sys := s\<rparr>) = sys_world s"
  by (simp_all add: set_world_def p_world_def)

section \<open>What an iteration keeps\<close>

lemma catch_runtime_state [simp]: "snd (catch_runtime rw) = snd rw"
  by (auto simp: catch_runtime_def split: prod.split sum.split)

lemma main_iteration_cases:
  assumes "main_iteration stale ip0 port0 sock w = Some (r, w')"
  obtains x v where "recvFrom stale sock (replicate 10000 0) ip0 port0 w = Some (x, v)"
    "w' = v \<or> (\<exists>out. w' = snd (echo_body sock out v))"
proof -
  obtain x v where rec: "recvFrom stale sock (replicate 10000 0) ip0 port0 w = Some (x, v)"
    using assms by (auto simp: main_iteration_def split: option.splits)
  have "(r, w') = catch_runtime (case x of Inl e \<Rightarrow> (Inl e, v) | Inr out \<Rightarrow> echo_body sock out v)"
    using assms rec by (auto simp: main_iteration_def split: sum.splits)
  then have "w' = snd (case x of Inl e \<Rightarrow> (Inl e, v) | Inr out \<Rightarrow> echo_body sock out v)"
    by (metis catch_runtime_state snd_conv)
  then have "w' = v \<or> (\<exists>out. w' = snd (echo_body sock out v))" by (cases x) auto
  with rec show thesis by (rule that)
qed

lemma quiet_main_iteration:
  assumes q: "quiet I" and run: "main_iteration stale ip0 port0 sock w = Some (r, w')" and w: "I w"
  shows "I w'"
proof -
  have body: "keeps I (echo_body sock out)" for out
    unfolding echo_body_def Let_def by (intro frame_intros quiet_send [OF q])
  from run show ?thesis
  proof (rule main_iteration_cases)
    fix x v assume "recvFrom stale sock (replicate 10000 0) ip0 port0 w = Some (x, v)"
      "w' = v \<or> (\<exists>out. w' = snd (echo_body sock out v))"
    with quiet_recv [OF q w] keepsD [OF body] show "I w'" by blast
  qed
qed

lemma main_iteration_frame:
  assumes "main_iteration stale ip0 port0 sock w = Some (r, w')"
  shows "pending w' = pending w" "config w' = config w"
proof -
  have "quiet (\<lambda>v. pending v = pending w \<and> config v = config w)" by (simp add: quiet_def config_def)
  from quiet_main_iteration [OF this assms] show "pending w' = pending w" "config w' = config w" by simp_all
qed

context table_invariant
begin

lemma main_iteration_keeps:
  assumes run: "main_iteration stale ip0 port0 sock w = Some (r, w')" and w: "holds w"
  shows "holds w'"
proof -
  have body: "keeps holds (echo_body sock out)" for out
    unfolding echo_body_def Let_def by (intro frame_intros sendTo_keeps)
  from run show ?thesis
  proof (rule main_iteration_cases)
    fix x v assume "recvFrom stale sock (replicate 10000 0) ip0 port0 w = Some (x, v)"
      "w' = v \<or> (\<exists>out. w' = snd (echo_body sock out v))"
    with recv_keeps [OF w] keepsD [OF body] show "holds w'" by blast
  qed
qed

end

section \<open>The invariant\<close>

definition open_block :: "nat \<Rightarrow> pcb_table \<Rightarrow> bool" where
  "open_block i pcbs \<longleftrightarrow> i < length pcbs \<and> state (pcbs ! i) = OPEN"

interpretation opened: table_invariant "open_block i" for i
proof unfold_locales
  fix pcbs assume "open_block i pcbs"
  then show "open_block i (snd (pcb_alloc pcbs))"
    using first_free_is_free [of pcbs] by (auto simp: open_block_def pcb_alloc_eq nth_update_in)
qed (auto simp: open_block_def pcb_push_def pcb_pop_def pcb_set_endpoint_def interruptAll_def nth_update_in)

lemma interrupt_block: "open_block i pcbs \<Longrightarrow> interrupted_block i (interruptAll pcbs)"
  by (simp add: open_block_def interrupted_block_def interruptAll_def)

text \<open>A round of the signal loop takes the one signal and no other.\<close>

lemma dispatch_pending:
  assumes "dispatch intr sg (take_signal sg w, rx) = (Inr v, (w', rx'))"
  shows "config w' = config w \<and> set (remove1 sg (pending w)) \<subseteq> set (pending w') \<and> (v \<longleftrightarrow> sg = SIGHUP)"
proof (cases sg)
  case SIGHUP
  with assms show ?thesis by auto
next
  case SIGUSR1
  then obtain u where h: "handleProtocolSignal (take_signal sg w) = (Inr u, w')" and v: "\<not> v"
    using assms by (auto simp: bindM_eq_Inr_iff on_world_def split: prod.splits)
  from handleProtocolSignal_frame(2,3) [OF h] v SIGUSR1 show ?thesis by simp
next
  case SIGUSR2
  then obtain u where "handleEventSignal (take_signal sg w) = (Inr u, w')" and v: "\<not> v"
    using assms by (auto simp: bindM_eq_Inr_iff on_world_def split: prod.splits)
  then have "pending w' = remove1 sg (pending w)" "config w' = config w"
    using event_loop_frame [of "eventHandlers (take_signal sg w)" "take_signal sg w"]
    by (auto simp: handleEventSignal_def bindM_eq_Inr_iff)
  with v SIGUSR2 show ?thesis by simp
next
  case (SIGRT n)
  then obtain u where l: "signal_loop (inputDevices intr) sg (take_signal sg w, rx) = (Inr u, (w', rx'))" and v: "\<not> v"
    using assms by (auto simp: bindM_eq_Inr_iff handleSignal_def)
  from signal_loop_success [OF l] v SIGRT show ?thesis by (simp add: announces_def)
qed

definition stopping :: "nat \<Rightarrow> world \<Rightarrow> bool" where
  "stopping i w \<longleftrightarrow> SIGUSR2 \<in> set (pending w) \<or> interrupted_block i (udpPcbs w)"

lemma in_remaining: "x \<in> set xs \<Longrightarrow> x \<noteq> y \<Longrightarrow> set (remove1 y xs) \<subseteq> S \<Longrightarrow> x \<in> S"
  by (auto simp: in_set_remove1)

lemma events_handled:
  assumes "dispatch intr SIGUSR2 (w, rx) = (r, (w', rx'))" "eventHandlers w = [UdpEventHandler]"
  shows "r = Inr False \<and> w' = w\<lparr>udpPcbs := interruptAll (udpPcbs w)\<rparr> \<and> rx' = rx"
  using assms by (auto simp: handleEventSignal_def udp_event_handle_def on_world_def bindM_apply)

lemma system_step_stopping:
  assumes st: "step intr s t" and cfg: "eventHandlers (sys_world s) = [UdpEventHandler]"
    and b: "open_block i (udpPcbs (sys_world s))" and t: "\<forall>e. sys_thread t \<noteq> Crashed e"
  shows "config (sys_world t) = config (sys_world s) \<and> open_block i (udpPcbs (sys_world t)) \<and>
    (sys_thread t = Waiting \<longrightarrow> sys_thread s = Waiting \<and>
       (stopping i (sys_world s) \<longrightarrow> stopping i (sys_world t)) \<and>
       (SIGHUP \<in> set (pending (sys_world s)) \<longrightarrow> SIGHUP \<in> set (pending (sys_world t)))) \<and>
    (sys_thread s = Exited \<longrightarrow> sys_thread t = Exited)"
proof -
  have ob: "open_block i (udpPcbs (sys_world t))"
    using opened.step_keeps [OF st] b by (simp add: opened.holds_def)
  have ib: "interrupted_block i (udpPcbs (sys_world s)) \<Longrightarrow> interrupted_block i (udpPcbs (sys_world t))"
    using stopped.step_keeps [OF st] by (simp add: stopped.holds_def)
  from st show ?thesis
  proof (cases rule: step.cases)
    case (wake sg r w' rx')
    then obtain v where r: "r = Inr v" using t by (cases r) simp_all
    note d = dispatch_pending [OF wake(5) [unfolded r]]
    have "stopping i (sys_world s) \<longrightarrow> stopping i w'"
    proof (cases "sg = SIGUSR2")
      case True
      have "eventHandlers (take_signal sg (sys_world s)) = [UdpEventHandler]" using cfg by (simp add: take_signal_def)
      from events_handled [OF wake(5) [unfolded True] this [unfolded True]] b interrupt_block show ?thesis
        by (simp add: stopping_def take_signal_def)
    next
      case False
      then show ?thesis using d ib wake(1) in_remaining [of SIGUSR2 "pending (sys_world s)" sg "set (pending w')"]
        by (auto simp: stopping_def)
    qed
    moreover have "sys_thread t = Waiting \<Longrightarrow> SIGHUP \<in> set (pending (sys_world s)) \<Longrightarrow> SIGHUP \<in> set (pending w')"
      using d wake(1) r in_remaining [of SIGHUP "pending (sys_world s)" sg "set (pending w')"] by (cases v) auto
    ultimately show ?thesis using wake(1,2) d ob by simp
  next
    case (frame k rd)
    then show ?thesis using b by (auto simp: arrival_def config_def stopping_def raise_signal_def)
  next
    case (signal sg)
    then show ?thesis using b by (auto simp: config_def stopping_def raise_signal_def)
  next
    case (socket w')
    from socket socket_call_frame [OF socket(3)] ob ib show ?thesis by (auto simp: stopping_def)
  qed
qed

text \<open>
  What every program state keeps while the process runs: the configuration, the server's open block,
  and that a termination signal which was received is on its way to the loop of \<open>main\<close>.
\<close>

definition program_inv :: "nat \<Rightarrow> program \<Rightarrow> bool" where
  "program_inv i p \<longleftrightarrow>
     (running p \<longrightarrow> eventHandlers (p_world p) = [UdpEventHandler] \<and> open_block i (udpPcbs (p_world p)) \<and>
        (sys_thread (p_sys p) = Waiting \<longrightarrow>
           (p_terminate p \<noteq> 0 \<longrightarrow> stopping i (p_world p)) \<and>
           (p_main p = Joining \<longrightarrow> SIGHUP \<in> set (pending (p_world p))))) \<and>
     (p_main p = Joining \<longrightarrow> p_terminate p \<noteq> 0) \<and>
     (\<forall>n. p_main p = Finished n \<longrightarrow> n = 0 \<and> p_terminate p \<noteq> 0 \<and> sys_thread (p_sys p) = Exited)"

lemma running_alt: "running p \<longleftrightarrow> (p_main p = AtTest \<or> p_main p = InIteration \<or> p_main p = Joining) \<and>
    (\<forall>e. sys_thread (p_sys p) \<noteq> Crashed e)"
  by (cases "sys_thread (p_sys p)") (auto simp: running_def)

lemma program_inv_system:
  assumes "running p" "step intr (p_sys p) s" "program_inv i p"
  shows "program_inv i (p\<lparr>p_sys := s\<rparr>)"
proof -
  have p: "eventHandlers (p_world p) = [UdpEventHandler]" "open_block i (udpPcbs (p_world p))"
    using assms(1,3) by (simp_all add: program_inv_def)
  show ?thesis
  proof (cases "running (p\<lparr>p_sys := s\<rparr>)")
    case True
    then have "\<forall>e. sys_thread s \<noteq> Crashed e" by (simp add: running_alt)
    from system_step_stopping [OF assms(2) p [unfolded p_world_def] this]
    show ?thesis using assms by (auto simp: program_inv_def p_world_def config_def running_def)
  next
    case False
    with assms show ?thesis by (auto simp: program_inv_def running_def)
  qed
qed

lemma program_inv_own:
  assumes "own_step intr sock stale p q" "program_inv i p"
  shows "program_inv i q"
  using assms(1)
proof cases
  case (take sg r w' rx')
  have "step intr (p_sys p) \<lparr>sys_world = w', sys_rx = rx', sys_thread = after_dispatch r\<rparr>"
    using wake [of "p_sys p" sg intr r w' rx'] take by (simp add: p_world_def)
  from program_inv_system [OF take(2) this assms(2)] take(1) show ?thesis by simp
next
  case enter
  with assms(2) show ?thesis by (auto simp: program_inv_def running_def)
next
  case (iterate ip0 port0 u w)
  note f = main_iteration_frame [OF iterate(4)]
  have "open_block i (udpPcbs (p_world p)) \<Longrightarrow> open_block i (udpPcbs w)"
    "interrupted_block i (udpPcbs (p_world p)) \<Longrightarrow> interrupted_block i (udpPcbs w)"
    using opened.main_iteration_keeps [OF iterate(4)] stopped.main_iteration_keeps [OF iterate(4)]
    by (simp_all add: opened.holds_def stopped.holds_def)
  with f iterate(1-3) assms(2) show ?thesis
    by (auto simp: program_inv_def running_def stopping_def config_def)
next
  case (iterate_throws ip0 port0 e w)
  with assms(2) show ?thesis by (simp add: program_inv_def running_def)
next
  case leave
  with assms(2) show ?thesis
    by (auto simp: program_inv_def running_def stopping_def shutdown_def raise_signal_def)
next
  case join
  with assms(2) show ?thesis by (simp add: program_inv_def running_def)
qed

lemma program_inv_step:
  assumes "program_step intr sock stale p q" "program_inv i p"
  shows "program_inv i q"
  using assms(1)
proof cases
  case own
  then show ?thesis by (rule program_inv_own [OF _ assms(2)])
next
  case (system_step s)
  with program_inv_system [OF system_step(2,3) assms(2)] show ?thesis by simp
next
  case (signal_handler t w)
  then have w: "t = 1" "w = (p_world p)\<lparr>pending := raise_signal SIGUSR2 (pending (p_world p))\<rparr>"
    by (simp_all add: on_signal_def)
  with signal_handler(1,2) assms(2) show ?thesis
    by (auto simp: program_inv_def running_def stopping_def raise_signal_def)
qed

lemma program_inv_reachable:
  assumes "program_reachable intr sock stale p q" "program_inv i p"
  shows "program_inv i q"
  using assms by (induction rule: program_reachable.induct) (simp_all add: program_inv_step)

section \<open>The end of the program\<close>

text \<open>The ways to the end, from the last one back.\<close>

lemma joining_ends:
  assumes "running p" "p_main p = Joining" "SIGHUP \<in> sigmask intr"
    and "sys_thread (p_sys p) = Waiting \<Longrightarrow> SIGHUP \<in> set (pending (p_world p))"
  shows "can_finish intr sock stale p"
proof -
  have exited: "can_finish intr sock stale q"
    if "running q" "p_main q = Joining" "sys_thread (p_sys q) = Exited" for q
    unfolding can_finish_def
    by (intro exI [of _ "q\<lparr>p_main := Finished 0\<rparr>"] conjI r_into_rtranclp join that) simp
  show ?thesis
  proof (cases "sys_thread (p_sys p) = Waiting")
    case False
    with assms(1) have "sys_thread (p_sys p) = Exited" by (simp add: running_def)
    then show ?thesis by (rule exited [OF assms(1,2)])
  next
    case True
    let ?s = "\<lparr>sys_world = take_signal SIGHUP (p_world p), sys_rx = sys_rx (p_sys p), sys_thread = Exited\<rparr>"
    have "own_step intr sock stale p (p\<lparr>p_sys := ?s\<rparr>)"
      using take [of p SIGHUP intr "Inr True"] True assms(1,3,4) by simp
    moreover have "can_finish intr sock stale (p\<lparr>p_sys := ?s\<rparr>)"
      using assms(1,2) by (intro exited) (simp_all add: running_def)
    ultimately show ?thesis by (rule finish_step)
  qed
qed

lemma at_test_ends:
  assumes "running p" "p_main p = AtTest" "p_terminate p \<noteq> 0" "SIGHUP \<in> sigmask intr"
  shows "can_finish intr sock stale p"
proof (rule finish_step)
  let ?q = "set_world (shutdown (p_world p)) p\<lparr>p_main := Joining\<rparr>"
  show "own_step intr sock stale p ?q" using leave [OF assms(1-3)] .
  show "can_finish intr sock stale ?q"
    using assms(1) by (intro joining_ends [OF _ _ assms(4)]) (auto simp: running_def shutdown_def raise_signal_def)
qed

lemma interrupted_ends:
  assumes "running p" "p_main p = InIteration" "p_terminate p \<noteq> 0" "SIGHUP \<in> sigmask intr"
    and "sock_pcbId sock = int i" "interrupted_block i (udpPcbs (p_world p))"
  shows "can_finish intr sock stale p"
proof (rule finish_step)
  let ?q = "set_world (p_world p) p\<lparr>p_main := AtTest\<rparr>"
  have "socket_block sock (p_world p) i" "interrupted (udpPcbs (p_world p) ! i) = 1"
    using assms(5,6) by (simp_all add: socket_block_def interrupted_block_def)
  then have "main_iteration stale 0 0 sock (p_world p) = Some (Inr (), p_world p)" by (rule main_iteration_interrupted)
  from iterate [OF assms(1,2) this] show "own_step intr sock stale p ?q" .
  show "can_finish intr sock stale ?q" using assms by (intro at_test_ends) (simp_all add: running_def)
qed

lemma stopping_ends:
  assumes p: "running p" "p_terminate p \<noteq> 0" "sys_thread (p_sys p) = Waiting" and inv: "program_inv i p"
    and m: "{SIGHUP, SIGUSR2} \<subseteq> sigmask intr" and sock: "sock_pcbId sock = int i"
  shows "can_finish intr sock stale p"
proof -
  have m': "SIGHUP \<in> sigmask intr" "SIGUSR2 \<in> sigmask intr" using m by auto
  have w: "eventHandlers (p_world p) = [UdpEventHandler]" "open_block i (udpPcbs (p_world p))" "stopping i (p_world p)"
    using inv p by (simp_all add: program_inv_def)
  consider "p_main p = AtTest" | "p_main p = Joining" | "p_main p = InIteration" "interrupted_block i (udpPcbs (p_world p))"
    | "p_main p = InIteration" "SIGUSR2 \<in> set (pending (p_world p))"
    using p(1) w(3) by (auto simp: running_def stopping_def)
  then show ?thesis
  proof cases
    case 1
    with p m'(1) show ?thesis by (intro at_test_ends)
  next
    case 2
    with p inv m'(1) show ?thesis by (intro joining_ends) (simp_all add: program_inv_def)
  next
    case 3
    with p m'(1) sock show ?thesis by (intro interrupted_ends)
  next
    case 4
    let ?v = "take_signal SIGUSR2 (p_world p)"
    let ?w = "?v\<lparr>udpPcbs := interruptAll (udpPcbs ?v)\<rparr>"
    let ?s = "\<lparr>sys_world = ?w, sys_rx = sys_rx (p_sys p), sys_thread = Waiting\<rparr>"
    obtain r w' rx' where d: "dispatch intr SIGUSR2 (?v, sys_rx (p_sys p)) = (r, (w', rx'))" using prod_cases3 by blast
    have "eventHandlers ?v = [UdpEventHandler]" using w(1) by (simp add: take_signal_def)
    from events_handled [OF d this] d
    have "own_step intr sock stale p (p\<lparr>p_sys := ?s\<rparr>)"
      using take [of p SIGUSR2 intr r w' rx'] p(1,3) 4(2) m'(2) by simp
    moreover have "can_finish intr sock stale (p\<lparr>p_sys := ?s\<rparr>)"
    proof (rule interrupted_ends [OF _ _ _ m'(1) sock])
      show "interrupted_block i (udpPcbs (p_world (p\<lparr>p_sys := ?s\<rparr>)))"
        using interrupt_block [OF w(2)] by (simp add: take_signal_def)
    qed (use p 4 in \<open>simp_all add: running_def\<close>)
    ultimately show ?thesis by (rule finish_step)
  qed
qed

section \<open>The end comes\<close>

text \<open>
  How many steps the program can still make by itself once it is told to end: those the interrupt
  thread makes for the pending signals, and \<open>main\<close> finishes its iteration, leaves its loop, which sends
  one more signal, and joins.
\<close>

fun main_work :: "main_state \<Rightarrow> nat" where
  "main_work InIteration = 4"
| "main_work AtTest = 3"
| "main_work Joining = 1"
| "main_work _ = 0"

definition work :: "program \<Rightarrow> nat" where
  "work p = (if running p then Suc (main_work (p_main p) + pending_work (pending (p_world p))) else 0)"

lemma work_le: "work p \<le> 5 + 2 * length (pending (p_world p))"
proof -
  have "main_work (p_main p) \<le> 4" by (cases "p_main p") simp_all
  then show ?thesis using pending_work_le [of "pending (p_world p)"] by (simp add: work_def)
qed

lemma own_step_work:
  assumes "own_step intr sock stale p q" "p_terminate p \<noteq> 0"
  shows "work q < work p \<and> p_terminate q = p_terminate p"
  using assms(1)
proof cases
  case (take sg r w' rx')
  show ?thesis
  proof (cases r)
    case (Inl e)
    with take show ?thesis by (simp add: work_def running_def)
  next
    case (Inr v)
    have "pending_work (pending w') < pending_work (pending (p_world p))"
      using dispatch_work [OF take(4) take(6) [unfolded Inr]] .
    then show ?thesis using take(1,2) by (simp add: work_def p_world_def)
  qed
next
  case enter
  with assms(2) show ?thesis by simp
next
  case (iterate ip0 port0 u w)
  with main_iteration_frame(1) [OF iterate(4)] show ?thesis by (simp add: work_def running_def)
next
  case (iterate_throws ip0 port0 e w)
  then show ?thesis by (simp add: work_def running_def)
next
  case leave
  with pending_work_raised [of SIGHUP "pending (p_world p)"] show ?thesis
    by (simp add: work_def running_def shutdown_def)
next
  case join
  then show ?thesis by (simp add: work_def running_def)
qed

lemma own_steps_bounded:
  assumes "(own_step intr sock stale ^^ n) p q" "p_terminate p \<noteq> 0"
  shows "n + work q \<le> work p \<and> p_terminate q = p_terminate p"
  using assms
proof (induction n arbitrary: q)
  case (Suc n)
  then obtain r where "(own_step intr sock stale ^^ n) p r" "own_step intr sock stale r q" by auto
  with Suc.IH own_step_work Suc.prems(2) show ?case by fastforce
qed simp

lemma own_steps_inv:
  "(own_step intr sock stale)\<^sup>*\<^sup>* p q \<Longrightarrow> program_inv i p \<Longrightarrow> program_inv i q"
  by (induction rule: rtranclp_induct) (simp_all add: program_inv_own)

text \<open>Where the program stops by itself after a termination signal.\<close>

definition stopped_short :: "program \<Rightarrow> bool" where
  "stopped_short p \<longleftrightarrow> (\<exists>e. p_main p = Failed e \<or> sys_thread (p_sys p) = Crashed e) \<or>
     p_main p = InIteration \<and> sys_thread (p_sys p) = Exited"

lemma stuck_cases:
  assumes inv: "program_inv i p" and t: "p_terminate p \<noteq> 0" and stuck: "\<And>q. \<not> own_step intr sock stale p q"
    and m: "{SIGHUP, SIGUSR2} \<subseteq> sigmask intr" and sock: "sock_pcbId sock = int i"
  shows "p_main p = Finished 0 \<or> stopped_short p"
proof (cases "running p")
  case False
  then show ?thesis using inv
    by (cases "p_main p"; cases "sys_thread (p_sys p)") (auto simp: running_def stopped_short_def program_inv_def)
next
  case True
  have "\<not> can_finish intr sock stale p"
    unfolding can_finish_def using True stuck by (auto elim: converse_rtranclpE simp: running_def)
  then have "sys_thread (p_sys p) \<noteq> Waiting" using stopping_ends [OF True t _ inv m sock] by blast
  with True have ex: "sys_thread (p_sys p) = Exited" by (simp add: running_def)
  have "p_main p \<noteq> AtTest" "p_main p \<noteq> Joining"
    using leave [OF True _ t] join [OF True _ ex] stuck by blast+
  with True ex show ?thesis by (simp add: running_def stopped_short_def)
qed



end
