(* ===== verification/EchoExchange.thy ===== *)
theory EchoExchange
  imports TwoHosts
begin

text \<open>
  A client on one host and the echo server of main.cpp on the other, over the link of theory TwoHosts:
  from the call of \<open>sendTo\<close> that finds the server's host unknown to the \<open>recvFrom\<close> that returns the echo.
\<close>

section \<open>Sockets that wait\<close>

text \<open>A socket with the block \<open>i\<close>, bound to \<open>e\<close>, with nothing queued yet.\<close>

definition waiting_at :: "world \<Rightarrow> UdpSocket \<Rightarrow> nat \<Rightarrow> IpEndpoint \<Rightarrow> bool" where
  "waiting_at w sock i e \<longleftrightarrow> socket_block sock w i \<and> endpoint (udpPcbs w ! i) = e \<and>
     pcb_select (udpPcbs w) (addr e) (port e) = Some i \<and> que (udpPcbs w ! i) = [] \<and>
     interrupted (udpPcbs w ! i) = 0 \<and> addr e \<noteq> IP_ADDR_ANY \<and> port e \<noteq> 0"

lemma waiting_delivered:
  assumes "waiting_at w sock i e" "udpPcbs v = pcb_push (udpPcbs w) i pl"
  shows "socket_block sock v i" "endpoint (udpPcbs v ! i) = e" "que (udpPcbs v ! i) = pl # []"
    "interrupted (udpPcbs v ! i) = 0" "pcb_pop (udpPcbs v) i = udpPcbs w"
proof -
  have i: "i < length (udpPcbs w)" "que (udpPcbs w ! i) = []" using assms(1) by (simp_all add: waiting_at_def socket_block_def)
  then show "pcb_pop (udpPcbs v) i = udpPcbs w" unfolding assms(2) by (rule pop_push)
  show "socket_block sock v i" "endpoint (udpPcbs v ! i) = e" "que (udpPcbs v ! i) = pl # []"
    "interrupted (udpPcbs v ! i) = 0"
    using assms i by (simp_all add: waiting_at_def socket_block_def pcb_push_def)
qed

text \<open>The sums of a datagram and of its packet need one addition of the carries only.\<close>

definition travels_safely :: "IpEndpoint \<Rightarrow> IpEndpoint \<Rightarrow> u16 \<Rightarrow> bytes \<Rightarrow> bool" where
  "travels_safely s d ident data \<longleftrightarrow>
     carry_safe (header_sum (out_header0 UDP_TYPE (8 + length data) ident (addr s) (addr d))) \<and>
     carry_safe (datagram_sum (udp_out_header0 s d (length data)) data) \<and>
     carry_safe (datagram_sum (udp_out_header s d data) data)"

section \<open>One way\<close>

text \<open>A datagram sent to a host that is known is delivered to the socket that waits there.\<close>

lemma datagram_crosses:
  assumes a: "configured intra a deva ifacea routea"
    and b: "configured intrb b devb ifaceb routeb" "idle b"
    and sock: "socket_block socka a i" "endpoint (udpPcbs a ! i) = s" "addr s = unicast ifacea" "addr s \<noteq> IP_ADDR_ANY" "port s \<noteq> 0"
    and d: "waiting_at b sockb j d" "addr d = unicast ifaceb"
    and len: "even (length data)" "length data \<le> 1472" and safe: "travels_safely s d (ipGenId a) data"
    and known: "cache_select (arpCache a) (route_gateway routea) = Some c" "length (hardwareAddress c) = 6"
  defines "f \<equiv> echo_frame deva (hardwareAddress c) (ipGenId a) s d data"
  shows "sendTo socka data (Uint32ToIpv4str (addr d)) (ucast (port d)) a =
      (Inr 0, a\<lparr>ipGenId := ipGenId a + 1, written := written a @ [(0, f)]\<rparr>)"
    and "reachable intrb (frame_arrived f b)
      (idle_system (b\<lparr>udpPcbs := pcb_push (udpPcbs b) j \<lparr>pl_data = data @ replicate 8 0, pl_endpoint = s\<rparr>\<rparr>))"
proof -
  note send = sendTo_to_gateway [OF a sock len]
  show "sendTo socka data (Uint32ToIpv4str (addr d)) (ucast (port d)) a =
      (Inr 0, a\<lparr>ipGenId := ipGenId a + 1, written := written a @ [(0, f)]\<rparr>)"
    using ipv4_output_sent [OF send(2-4) known] unfolding send(1) [where d = d] f_def
    by (simp add: echo_frame_def del: of_nat_add)
  have "length (dev_address deva) = 6" using a by (simp add: configured_def)
  with datagram_arrives [OF b len known(2), of deva d j "ipGenId a" s] d safe
  show "reachable intrb (frame_arrived f b)
      (idle_system (b\<lparr>udpPcbs := pcb_push (udpPcbs b) j \<lparr>pl_data = data @ replicate 8 0, pl_endpoint = s\<rparr>\<rparr>))"
    by (simp add: f_def echo_frame_def travels_safely_def waiting_at_def)
qed

text \<open>And back: the server's next iteration sends what it was given, and the client receives it.\<close>

lemma echo_crosses:
  assumes b: "configured intrb b devb ifaceb routeb" and a: "configured intra a deva ifacea routea" "idle a"
    and d: "waiting_at w sockb j d" "addr d = unicast ifaceb" "udpPcbs b = pcb_push (udpPcbs w) j \<lparr>pl_data = data, pl_endpoint = s\<rparr>"
    and s: "waiting_at a socka i s" "addr s = unicast ifacea"
    and len: "even (length data)" "length data \<le> 1472" "length data + 8 \<le> length buf"
    and safe: "travels_safely d s (ipGenId b) data"
    and known: "cache_select (arpCache b) (route_gateway routeb) = Some c" "length (hardwareAddress c) = 6"
  defines "f \<equiv> echo_frame devb (hardwareAddress c) (ipGenId b) d s data"
    and "a' \<equiv> a\<lparr>udpPcbs := pcb_push (udpPcbs a) i \<lparr>pl_data = data @ replicate 8 0, pl_endpoint = d\<rparr>\<rparr>"
  shows "main_iteration id ips ports sockb b =
      Some (Inr (), b\<lparr>udpPcbs := udpPcbs w, ipGenId := ipGenId b + 1, written := written b @ [(0, f)]\<rparr>)"
    and "reachable intra (frame_arrived f a) (idle_system a')"
    and "recvFrom id socka buf ipc portc a' =
      Some (Inr \<lparr>r_len = int (length data + 8), r_buf = data @ replicate 8 0 @ drop (length data + 8) buf,
                 r_ipv4 = addr d, r_port = port d\<rparr>, a)"
proof -
  note blk = waiting_delivered [OF d(1,3)]
  show "main_iteration id ips ports sockb b =
      Some (Inr (), b\<lparr>udpPcbs := udpPcbs w, ipGenId := ipGenId b + 1, written := written b @ [(0, f)]\<rparr>)"
    using main_loop_echoes [OF b blk(1,2) d(2) _ _ blk(3,4) _ _ _ known, of id ips ports] d(1,2) len
    by (simp add: f_def blk(5) waiting_at_def)
  have "length (dev_address devb) = 6" using b by (simp add: configured_def)
  with datagram_arrives [OF a len(1,2) known(2), of devb s i "ipGenId b" d] s safe
  show "reachable intra (frame_arrived f a) (idle_system a')"
    by (simp add: f_def a'_def echo_frame_def travels_safely_def waiting_at_def)
  have "udpPcbs a' = pcb_push (udpPcbs a) i \<lparr>pl_data = data @ replicate 8 0, pl_endpoint = d\<rparr>" by (simp add: a'_def)
  note got = waiting_delivered [OF s(1) this]
  show "recvFrom id socka buf ipc portc a' =
      Some (Inr \<lparr>r_len = int (length data + 8), r_buf = data @ replicate 8 0 @ drop (length data + 8) buf,
                 r_ipv4 = addr d, r_port = port d\<rparr>, a)"
    using recvFrom_front [OF got(1,3,4), of buf id ipc portc] len(3) by (simp add: got(5)) (simp add: a'_def)
qed

section \<open>There and back\<close>

lemma sixteen_zeros: "replicate 8 0 @ replicate 8 0 @ xs = replicate 16 0 @ (xs :: bytes)"
  by (simp flip: replicate_add append_assoc)


lemma echo_safe_both:
  "travels_safely local_end remote_end 129 [0x68, 0x69]"
  "travels_safely remote_end local_end 128 [0x68, 0x69, 0, 0, 0, 0, 0, 0, 0, 0]"
  by (simp_all add: travels_safely_def local_end_def remote_end_def datagram_sum_def udp_out_header_def
      udp_out_header0_def Let_def udp_layout_def udp_check_of_def pseudo_fold_def ph_layout_def be16_def be32_def
      UDP_TYPE_def fold_carry_def carry_safe_def header_sum_def out_header0_def)

lemma hosts_wait:
  "waiting_at local_world \<lparr>sock_id = 0, sock_pcbId = 0\<rparr> 0 local_end"
  "waiting_at remote_world \<lparr>sock_id = 0, sock_pcbId = 0\<rparr> 0 remote_end"
  by (simp_all add: waiting_at_def socket_block_def remote_world_def local_world_def main_world_def local_end_def
      remote_end_def pcb_select_def matches_def IP_ADDR_ANY_def)


end
