(* ===== verification/Spec2Isabelle.thy ===== *)
theory Spec2Isabelle
  imports MainLoop CvWait LockScripts Ping Logging ErrorKinds CalmTraffic CvRefine ThreadStart Program EchoExchange
begin

text \<open>
  Suika: an Ethernet, ARP, IPv4, ICMP and UDP stack in user space, and the echo server of main.cpp on
  top of it.  The program reads frames from a TAP device.  A signal tells its interrupt thread that a
  frame is there; the thread reads it (\<open>EtherDevice::handler\<close>), puts its body into the queue of its
  protocol and signals itself; on that signal it takes the packets out of the queues and runs their
  handlers (\<open>Interrupt::handleProtocolSignal\<close>), which answer ARP and echo requests and put UDP data
  into the queues of the control blocks, where the main thread waits (\<open>UdpSocket::recvFrom\<close>).  Sending
  goes down from \<open>UdpSocket::sendTo\<close> over \<open>udp_output\<close>, \<open>ipv4_output\<close> and \<open>arpResolve\<close> to
  \<open>EtherDevice::transmit\<close>.

  \<^bold>\<open>Conventions\<close> (Prelude).  A byte vector is a list of 8-bit words, and the fixed-width integers of
  the code are words.  A call that can fail returns a \<open>result\<close>: \<open>Inl\<close> of an exception, of undefined
  behaviour (an access outside a vector, a variable never written, an empty pointer) or of \<open>Hang\<close>, a
  call that never comes back; \<open>Inr\<close> of its value.  Code with state is a function from a state to a
  result and a new state (\<open>eff\<close>), sequenced by \<open>bindM\<close>; an exception keeps the changes made before it.
  What is read without having been written (the endpoint of a new control block, main's \<open>srcIp\<close>, the
  queue element used after \<open>pop\<close>) is an argument.

  \<^bold>\<open>Data.\<close>  BinaryPayload, EtherFrame, ArpData, Ipv4Data, IcmpData and UdpData are the packet views of
  the headers of these names under src/lib.  Each has, besides the accessors, a layout: the bytes as a
  function of a header record and the rest.  The layout lemmas (the collection \<open>wire\<close>) turn accessors
  into selections and updates of the record, and everything above works on records.  StdText has the
  standard library's text functions the code uses, IpUtils the conversions of addresses and Checksum
  the checksum loops, which are related to the arithmetic sum of the 16-bit words.

  \<^bold>\<open>Components.\<close>  ArpCache (ArpCache.h), Devices (Device.h, NetworkInterface.h, IpNetworkInterface.*,
  RouteTable.h and the objects of EtherDevice.*), PcbTable (UdpControlBlock.*), World (the global
  variables of all files as the record \<open>world\<close>, and signals), EtherDev (\<open>transmit\<close>, \<open>handler\<close>), ArpProto
  (Arp.cpp), IpOutput and IpInput (Ipv4.cpp), Icmp (Icmp.cpp), UdpSocket, UdpDelivery and UdpSockets
  (Udp.cpp), Interrupt (the draining of the protocol queues) and InterruptThread (Interrupt.h; the
  signal loop as a step relation on the record \<open>system\<close>), InterruptInv (what every step keeps),
  Pipeline (a frame from its arrival to the end of its handler), DeviceSetup (the system calls of
  EtherDevice.cpp and the shell commands of Util.cpp), MainLoop (main.cpp), TwoHosts (two machines on
  one link), CvWait (receiver, delivery and interrupt at one control block, at the grain of its mutex),
  Locking and LockScripts (every operation as the list of its actions on mutexes and shared variables,
  for each thread of its own), and Logging (Logger.*).  On these stand ThreadStart (\<open>Interrupt::run\<close>, its barrier and the signal
  mask, and the signals that arrive meanwhile), Program (main, the interrupt thread and the kernel
  stepping in any order), CvRefine (the waiting threads of CvWait against atomic operations on the
  queue), EchoExchange (a datagram to the server of main.cpp on the other host and back), Ping (an echo
  request and its reply between two hosts), CalmTraffic (the system under frames that make no handler
  throw) and ErrorKinds (which kinds of failure each operation can end with).

  \<^bold>\<open>Interfaces.\<close>  The locales state what one part promises another and are interpreted on the model:
  \<open>payload_field\<close> and \<open>disjoint_fields\<close> (fields of a payload), \<open>address_cache\<close> (the ARP cache),
  \<open>endpoint_table\<close> (the table of control blocks), \<open>protocol_handler\<close> (a handler keeps the queues, the
  signals and the configuration, which is why draining a queue ends), \<open>table_invariant\<close> (a property of
  the table that allocation, binding, pushing, popping and interrupting keep is an invariant of the
  system) and \<open>lock_discipline\<close> (threads that take mutexes in the order of a rank, and touch a variable
  under its guard or all from one thread, do not deadlock and do not race).

  \<^bold>\<open>What is shown.\<close>  C1 to C6: what happens to a frame, from the wire to the wire, for ARP requests, echo
  requests and datagrams, the failures included.  C7 and C8: the first exchanges of two hosts, a datagram
  to the echo server and back, and a ping.  C9: any sequence of frames of the benign kinds is survived,
  and the thread comes to rest with all of them handled.  The claims after it are, in
  the order of the manifest: the invariants of the signal loop and the order and end of the draining of
  the queues; C14, which types the world: every stored pointer is the position of an object, so
  that nothing that arrives ends the interrupt thread at an empty pointer; the sockets (uniqueness of endpoints, binding, ports,
  order of receipt); UDP, IPv4, ICMP and ARP, each on every branch, for data and headers of any length,
  and as round trips, with the checksums against the sum of RFC 1071; the condition variable, with the refinement of atomic
  operations by the waiting threads (C32); the mutexes; the opening of the device and the setup of
  main; the start of the interrupt thread (C37), the end of the program (C38: after a
  termination signal its threads can take only so many steps, and where they stop main has returned or
  a thread has died or waits for a datagram) and its main loop.
  Several of them state defects as theorems: the carries of a checksum are added back once
  (\<open>carry_safe\<close> says when that is enough), data of odd length is read past its end, UDP payloads get
  eight zero bytes, exceptions of handlers end the program, an interrupt can be lost, a signal of the
  device before \<open>Interrupt::run\<close> ends the program, and the mutex of the protocol queues, static in a
  header, is another one in every file and excludes nobody (the queues are safe because one thread
  touches them).

  \<^bold>\<open>Bounds.\<close>  \<open>port_loop\<close> is a partial function, because its loop condition is always true; it returns
  when the table has fewer than 25952 blocks (it has 100).  \<open>drain_queue\<close> terminates because every round
  leaves its queue one shorter.  The signal loop, left alone, takes at most two steps for every pending
  signal (\<open>thread_steps_bounded\<close>).  The 32-bit sum of a checksum cannot wrap up to 128 KiB of data, more
  than an IPv4 packet holds.  A read gives at most 1514 bytes, so a queued packet has at most 1500.

  \<^bold>\<open>Granularity.\<close>  In the step relations of InterruptThread and Program a signal handler and a socket
  call are one step each.  CvWait and LockScripts look inside: the first at one control block, the
  second at all mutexes; they contain no data beyond that.  They leave out what follows an exception
  that ends the program.  CvRefine shows that the steps of CvWait are, up to steps that change no
  queue, atomic operations on it, which is what the coarser relations take them to be.

  \<^bold>\<open>Not modelled.\<close>  The kernel's side of the TAP device: what \<open>read\<close> gives is an argument, the results of
  \<open>write\<close> and the exit status of the shell commands are ignored by the code.  The time of day in log
  lines.  \<open>UdpPcbManager::getInstance\<close>, whose one object is the field of \<open>world\<close>.  The tests.
\<close>

unbundle bit_operations_syntax

section \<open>A concrete system\<close>

text \<open>The system main.cpp sets up, and a peer on its link; the witnesses below are about these.\<close>

definition sample_world :: world where
  "sample_world = main_world \<lparr>addr = 0, port = 0\<rparr>"

definition peer_mac :: bytes where "peer_mac = [0x02, 0x00, 0x00, 0x00, 0x00, 0x01]"
definition peer_ip :: u32 where "peer_ip = 0xC0000201"

definition resolved_world :: world where
  "resolved_world = learn peer_ip peer_mac sample_world"

lemma peer_mac_length [simp]: "length peer_mac = 6"
  by (simp add: peer_mac_def)

lemma sample_facts:
  "configured main_interrupt sample_world main_device main_interface main_route" "idle sample_world"
  by (simp_all add: sample_world_def main_configured main_idle)

lemma resolved_facts:
  "configured main_interrupt resolved_world main_device main_interface main_route" "idle resolved_world"
  "cache_select (arpCache resolved_world) (route_gateway main_route) =
     Some \<lparr>protocolAddress = peer_ip, hardwareAddress = peer_mac\<rparr>"
proof -
  have "config resolved_world = config sample_world" by (simp add: resolved_world_def learn_def config_def)
  then show "configured main_interrupt resolved_world main_device main_interface main_route"
    using sample_facts(1) configured_config by blast
  show "idle resolved_world"
    using sample_facts(2) by (simp add: resolved_world_def learn_def idle_def)
  have "arpCache sample_world = []" by (simp add: sample_world_def main_world_def)
  then show "cache_select (arpCache resolved_world) (route_gateway main_route) =
     Some \<lparr>protocolAddress = peer_ip, hardwareAddress = peer_mac\<rparr>"
    by (simp add: resolved_world_def learn_def main_route_def peer_ip_def cache_create_def cache_select_def)
qed

section \<open>From frame to frame\<close>

text \<open>
  C1. An ARP request for the address of the interface, arriving as a frame in an idle system, is
  answered: the signal loop reads it, queues it, handles it and waits again, with the reply
  written to the device and the sender's address in the cache.
\<close>

theorem arp_request_answered:
  fixes d s sha tha rest :: bytes
  assumes "configured intr w dev iface route" "idle w"
    and "length d = 6" "length s = 6" "length sha = 6" "length tha = 6" "length rest \<le> 1472"
  shows "reachable intr
      (frame_arrived (ether_layout d s arpType
         (arp_layout ht 0x0800 1 sha (be32 sip) tha (be32 (unicast iface)) rest)) w)
      (idle_system ((learn sip sha w)\<lparr>written := written w @ [(0, reply_frame dev iface sha (be32 sip))]\<rparr>))"
proof -
  let ?b = "arp_layout ht 0x0800 1 sha (be32 sip) tha (be32 (unicast iface)) rest"
  let ?pd = "\<lparr>pd_type = arpType, pd_data = ?b, pd_devicePtr = Some 0\<rparr>"
  note c = configured_facts [OF assms(1)]
  have "arp_handle ?pd w = (Inr 0, (learn sip sha w)\<lparr>written := written w @ [(0, reply_frame dev iface sha (be32 sip))]\<rparr>)"
    using arp_handle_layout [OF c(1) _ c(2,3), where pd = ?pd] assms by (simp add: OP_REQUEST_def)
  moreover have "length ?b \<le> 1500" using assms by (simp add: arp_layout_def)
  ultimately show ?thesis
    using arp_pipeline [OF assms(1-4), of ?b "Inr 0"] by (simp add: idle_system_def)
qed

theorem arp_request_answered_witness:
  "reachable main_interrupt
      (frame_arrived (ether_layout broadcastAddress peer_mac arpType
         (arp_layout 1 0x0800 1 peer_mac (be32 peer_ip) (replicate 6 0) (be32 (unicast main_interface)) (replicate 18 0)))
         sample_world)
      (idle_system ((learn peer_ip peer_mac sample_world)\<lparr>written := written sample_world @
         [(0, reply_frame main_device main_interface peer_mac (be32 peer_ip))]\<rparr>))"
  by (rule arp_request_answered [OF sample_facts]) simp_all

text \<open>
  C2. An ARP request for any other address, which every host of a link sees all the time, ends the
  program: the handler throws, nothing between it and the function of the thread catches.
\<close>

theorem arp_request_for_other_host:
  fixes d s sha tha rest :: bytes
  assumes "configured intr w dev iface route" "idle w"
    and "length d = 6" "length s = 6" "length sha = 6" "length tha = 6" "length rest \<le> 1472"
    and "tip \<noteq> unicast iface"
  shows "reachable intr
      (frame_arrived (ether_layout d s arpType (arp_layout ht 0x0800 1 sha (be32 sip) tha (be32 tip) rest)) w)
      \<lparr>sys_world = w, sys_rx = (\<lambda>_. []), sys_thread = Crashed (bad_address_size (be32 tip))\<rparr>"
proof -
  let ?b = "arp_layout ht 0x0800 1 sha (be32 sip) tha (be32 tip) rest"
  let ?pd = "\<lparr>pd_type = arpType, pd_data = ?b, pd_devicePtr = Some 0\<rparr>"
  note c = configured_facts [OF assms(1)]
  have "arp_handle ?pd w = (Inl (bad_address_size (be32 tip)), w)"
    using arp_handle_layout [OF c(1) _ c(2,3), where pd = ?pd] assms by simp
  moreover have "length ?b \<le> 1500" using assms by (simp add: arp_layout_def)
  ultimately show ?thesis
    using arp_pipeline [OF assms(1-4), of ?b "Inl (bad_address_size (be32 tip))"] by simp
qed

theorem arp_request_for_other_host_witness:
  "reachable main_interrupt
      (frame_arrived (ether_layout broadcastAddress peer_mac arpType
         (arp_layout 1 0x0800 1 peer_mac (be32 peer_ip) (replicate 6 0) (be32 0xC0000203) [])) sample_world)
      \<lparr>sys_world = sample_world, sys_rx = (\<lambda>_. []), sys_thread = Crashed (bad_address_size (be32 0xC0000203))\<rparr>"
  by (rule arp_request_for_other_host [OF sample_facts]) (simp_all add: main_interface_def)

text \<open>The frame that answers the echo request with header \<open>g\<close> and data \<open>r\<close>.\<close>

definition echo_reply_frame ::
  "EtherDevice \<Rightarrow> bytes \<Rightarrow> u16 \<Rightarrow> u32 \<Rightarrow> u32 \<Rightarrow> icmp_header \<Rightarrow> bytes \<Rightarrow> bytes" where
  "echo_reply_frame dev mac ident s d g r =
     ip_frame dev mac (ip_layout (out_header ICMP_TYPE (8 + length r) ident s d) (icmp_layout (reply_header g r) r))"

text \<open>
  C3. An echo request in a valid packet for the interface is answered: one frame to the gateway's
  hardware address, with the request's identifier, sequence number and data under a reply type and
  a new checksum, in a packet from the interface to the requester.
\<close>

theorem echo_request_answered:
  fixes ed es r trailer :: bytes
  assumes "configured intr w dev iface route" "idle w"
    and "length ed = 6" "length es = 6" "length r + length trailer \<le> 1472" "even (length r)"
    and ip: "no_options h" "header_valid h" "h_dst h = unicast iface" "h_proto h = ICMP_TYPE"
      "unat (h_total h) = 28 + length r"
    and icmp: "i_type g = TYPE_ECHO" "0 < icmp_sum g r" "65535 dvd icmp_sum g r"
    and arp: "cache_select (arpCache w) (route_gateway route) = Some c" "length (hardwareAddress c) = 6"
    and src: "unicast iface \<noteq> IP_ADDR_ANY"
  shows "reachable intr
      (frame_arrived (ether_layout ed es ipType (ip_layout h (icmp_layout g r @ trailer))) w)
      (idle_system (w\<lparr>ipGenId := ipGenId w + 1, written := written w @
         [(0, echo_reply_frame dev (hardwareAddress c) (ipGenId w) (unicast iface) (h_src h) g r)]\<rparr>))"
proof -
  let ?in = "\<lparr>ip_type = h_proto h, ip_data = icmp_layout g r, ip_src_addr = h_src h,
      ip_dst_addr = unicast iface, ip_interface = iface\<rparr>"
  let ?w = "w\<lparr>ipGenId := ipGenId w + 1, written := written w @
         [(0, echo_reply_frame dev (hardwareAddress c) (ipGenId w) (unicast iface) (h_src h) g r)]\<rparr>"
  have "ipv4_output ICMP_TYPE (icmp_layout (reply_header g r) r) (unicast iface) (h_src h) w = (Inr 0, ?w)"
    using ipv4_output_sent [OF configured_facts(4) configured_source, OF assms(1,1) src _ arp,
        of "icmp_layout (reply_header g r) r" ICMP_TYPE "h_src h"] assms(5)
    by (simp add: echo_reply_frame_def del: of_nat_add)
  then have "ip_run IcmpHandler ?in w = (Inr 0, ?w)"
    using icmp_handle_layout [of ?in g r w] icmp assms(5,6) by (simp add: bindM_Inr)
  then show ?thesis
    using packet_pipeline [OF assms(1-4), of "icmp_layout g r" trailer h IcmpHandler "Inr 0"] ip assms(1,5)
    by (simp add: configured_handlers idle_system_def)
qed

text \<open>The request the witness sends: 8 bytes of data, identifier 7, sequence number 1.\<close>

definition ping_header :: icmp_header where
  "ping_header = \<lparr>i_type = 8, i_code = 0, i_check = 0xE7E3, i_id = 7, i_seq = 1\<rparr>"

definition ping_data :: bytes where "ping_data = [1, 2, 3, 4, 5, 6, 7, 8]"

definition ping_ip_header :: ip_header where
  "ping_ip_header = \<lparr>h_vhl = 0x45, h_tos = 0, h_total = 36, h_id = 1, h_flags = 0, h_ttl = 64, h_proto = 1,
     h_check = 0xF6D4, h_src = 0xC0000201, h_dst = 0xC0000202\<rparr>"

lemma ping_facts:
  "no_options ping_ip_header" "header_valid ping_ip_header"
  "0 < icmp_sum ping_header ping_data" "65535 dvd icmp_sum ping_header ping_data"
  by (simp_all add: ping_data_def ping_header_def ping_ip_header_def no_options_def header_valid_def
      header_sum_def be32_def be16_def icmp_sum_def icmp_layout_def)

theorem echo_request_answered_witness:
  "reachable main_interrupt
      (frame_arrived (ether_layout (dev_address main_device) peer_mac ipType
         (ip_layout ping_ip_header (icmp_layout ping_header ping_data @ []))) resolved_world)
      (idle_system (resolved_world\<lparr>ipGenId := ipGenId resolved_world + 1, written := written resolved_world @
         [(0, echo_reply_frame main_device (hardwareAddress \<lparr>protocolAddress = peer_ip, hardwareAddress = peer_mac\<rparr>)
                (ipGenId resolved_world) (unicast main_interface) (h_src ping_ip_header) ping_header ping_data)]\<rparr>))"
proof (rule echo_request_answered [OF resolved_facts(1,2)])
  show "cache_select (arpCache resolved_world) (route_gateway main_route) =
      Some \<lparr>protocolAddress = peer_ip, hardwareAddress = peer_mac\<rparr>" by (rule resolved_facts(3))
qed (simp_all add: ping_facts, simp_all add: main_device_def main_interface_def ping_data_def ping_header_def
    ping_ip_header_def ICMP_TYPE_def TYPE_ECHO_def IP_ADDR_ANY_def)

text \<open>
  C4. The same request when the gateway is not in the ARP cache: the reply is lost, an ARP request
  is written in its place, and the exception of the resolution ends the program.
\<close>

theorem echo_request_unresolved:
  fixes ed es r trailer :: bytes
  assumes "configured intr w dev iface route" "idle w"
    and "length ed = 6" "length es = 6" "length r + length trailer \<le> 1472" "even (length r)"
    and ip: "no_options h" "header_valid h" "h_dst h = unicast iface" "h_proto h = ICMP_TYPE"
      "unat (h_total h) = 28 + length r"
    and icmp: "i_type g = TYPE_ECHO" "0 < icmp_sum g r" "65535 dvd icmp_sum g r"
    and arp: "cache_select (arpCache w) (route_gateway route) = None"
    and src: "unicast iface \<noteq> IP_ADDR_ANY"
  shows "reachable intr
      (frame_arrived (ether_layout ed es ipType (ip_layout h (icmp_layout g r @ trailer))) w)
      \<lparr>sys_world = w\<lparr>ipGenId := ipGenId w + 1,
           written := written w @ [(0, request_frame dev iface (route_gateway route))]\<rparr>,
       sys_rx = (\<lambda>_. []),
       sys_thread = Crashed (ArpResolveException ''not find arp cache. call arp reqest'')\<rparr>"
proof -
  let ?in = "\<lparr>ip_type = h_proto h, ip_data = icmp_layout g r, ip_src_addr = h_src h,
      ip_dst_addr = unicast iface, ip_interface = iface\<rparr>"
  let ?e = "ArpResolveException ''not find arp cache. call arp reqest''"
  let ?w = "w\<lparr>ipGenId := ipGenId w + 1, written := written w @ [(0, request_frame dev iface (route_gateway route))]\<rparr>"
  have "ipv4_output ICMP_TYPE (icmp_layout (reply_header g r) r) (unicast iface) (h_src h) w = (Inl ?e, ?w)"
    using ipv4_output_unresolved [OF configured_facts(4) configured_source, OF assms(1,1) src _ arp,
        of "icmp_layout (reply_header g r) r" ICMP_TYPE "h_src h"] assms(5) configured_facts(5) [OF assms(1)]
    by simp
  then have "ip_run IcmpHandler ?in w = (Inl ?e, ?w)"
    using icmp_handle_layout [of ?in g r w] icmp assms(5,6) by (simp add: bindM_Inl)
  then show ?thesis
    using packet_pipeline [OF assms(1-4), of "icmp_layout g r" trailer h IcmpHandler "Inl ?e"] ip assms(1,5)
    by (simp add: configured_handlers)
qed

lemma sample_cache: "arpCache sample_world = []"
  by (simp add: sample_world_def main_world_def)

theorem echo_request_unresolved_witness:
  "reachable main_interrupt
      (frame_arrived (ether_layout (dev_address main_device) peer_mac ipType
         (ip_layout ping_ip_header (icmp_layout ping_header ping_data @ []))) sample_world)
      \<lparr>sys_world = sample_world\<lparr>ipGenId := ipGenId sample_world + 1, written := written sample_world @
         [(0, request_frame main_device main_interface (route_gateway main_route))]\<rparr>,
       sys_rx = (\<lambda>_. []),
       sys_thread = Crashed (ArpResolveException ''not find arp cache. call arp reqest'')\<rparr>"
proof (rule echo_request_unresolved [OF sample_facts])
  show "cache_select (arpCache sample_world) (route_gateway main_route) = None"
    by (simp add: sample_cache cache_select_def)
qed (simp_all add: ping_facts, simp_all add: main_device_def main_interface_def ping_data_def ping_header_def
    ping_ip_header_def ICMP_TYPE_def TYPE_ECHO_def IP_ADDR_ANY_def)


text \<open>The datagram of the witnesses: two bytes of data from port 4000 to the port main.cpp binds.\<close>

definition hello_header :: udp_header where
  "hello_header = \<lparr>u_src = 4000, u_dst = 5555, u_len = 10, u_check = 0xEE19\<rparr>"

definition hello_data :: bytes where "hello_data = [0x68, 0x69]"

definition hello_ip_header :: ip_header where
  "hello_ip_header = \<lparr>h_vhl = 0x45, h_tos = 0, h_total = 30, h_id = 1, h_flags = 0, h_ttl = 64, h_proto = 0x11,
     h_check = 0xF6CA, h_src = 0xC0000201, h_dst = 0xC0000202\<rparr>"

lemma hello_facts:
  "no_options hello_ip_header" "header_valid hello_ip_header" "length hello_data = 2"
  "h_dst hello_ip_header = unicast main_interface" "h_proto hello_ip_header = UDP_TYPE"
  "unat (h_total hello_ip_header) = 28 + length hello_data" "length (dev_address main_device) = 6"
  by (simp_all add: hello_ip_header_def no_options_def header_valid_def header_sum_def be32_def hello_data_def
      main_interface_def UDP_TYPE_def main_device_def)

lemma hello_accepted:
  "udp_accepts (h_src hello_ip_header) (unicast main_interface) (udp_layout hello_header hello_data)"
  by (simp add: udp_accepts_def udp_check_of_def pseudo_fold_def ph_layout_def udp_layout_def be16_def be32_def
      hello_ip_header_def main_interface_def hello_header_def hello_data_def UDP_TYPE_def fold_carry_def)

lemma sample_select: "pcb_select (udpPcbs sample_world) (unicast main_interface) (u_dst hello_header) = Some 0"
  by (simp add: sample_world_def main_world_def pcb_select_Some_iff matches_def main_interface_def hello_header_def)


section \<open>The echo server\<close>


lemma resolved_pcbs: "udpPcbs resolved_world = udpPcbs sample_world"
  by (simp add: resolved_world_def learn_def)

lemma sample_block:
  "udpPcbs sample_world ! 0 = \<lparr>pcb_id = 0, state = OPEN, que = [], endpoint = \<lparr>addr = 0xC0000202, port = 5555\<rparr>,
     interrupted = 0\<rparr>" "length (udpPcbs sample_world) = 100"
  by (simp_all add: sample_world_def main_world_def)

definition main_socket :: UdpSocket where "main_socket = \<lparr>sock_id = 0, sock_pcbId = 0\<rparr>"

lemma main_socket_block: "socket_block main_socket resolved_world 0" "socket_block main_socket sample_world 0"
  by (simp_all add: socket_block_def main_socket_def resolved_pcbs sample_block)


section \<open>The signal loop\<close>

lemma idle_system_inv: "idle w \<Longrightarrow> system_inv w (idle_system w)"
  by (auto simp: system_inv_def idle_system_def idle_def queues_ok_def queue_of_def)

text \<open>
  C10. No queued packet is forgotten: in every reachable state in which the thread waits for a signal
  and a queue is not empty, the signal that announces packets is pending and waited for, and taking
  it is a step after which the thread, if it has not crashed, finds every queue empty.
\<close>

theorem queued_packets_announced:
  assumes "configured intr w dev iface route" "idle w" "reachable intr (idle_system w) s"
    and "sys_thread s = Waiting" "queue_of t (sys_world s) \<noteq> []"
  shows "SIGUSR1 \<in> set (pending (sys_world s)) \<and> SIGUSR1 \<in> sigmask intr \<and>
    (\<exists>u. step intr s u \<and> (sys_thread u = Waiting \<longrightarrow> (\<forall>t. queue_of t (sys_world u) = [])))"
proof -
  have "system_inv w s" using system_inv_reachable [OF assms(3) idle_system_inv [OF assms(2)]] .
  with assms(4,5) have p: "SIGUSR1 \<in> set (pending (sys_world s))" by (auto simp: system_inv_def)
  have m: "SIGUSR1 \<in> sigmask intr" using assms(1) by (auto simp: configured_def)
  obtain r w' where h: "handleProtocolSignal (take_signal SIGUSR1 (sys_world s)) = (r, w')"
    by (cases "handleProtocolSignal (take_signal SIGUSR1 (sys_world s))")
  let ?r = "map_sum id (\<lambda>_. False) r"
  let ?u = "\<lparr>sys_world = w', sys_rx = sys_rx s, sys_thread = after_dispatch ?r\<rparr>"
  have "dispatch intr SIGUSR1 (take_signal SIGUSR1 (sys_world s), sys_rx s) = (?r, (w', sys_rx s))"
    using h by (cases r) (simp_all add: on_world_def bindM_apply)
  then have "step intr s ?u" using wake [OF assms(4) p m] by blast
  moreover have "queue_of t w' = []" if "sys_thread ?u = Waiting" for t
    using handleProtocolSignal_frame(4) [OF h] that by (cases r) simp_all
  ultimately show ?thesis using p m by auto
qed

theorem queued_packets_announced_witness:
  "\<exists>s. reachable main_interrupt (idle_system sample_world) s \<and> queue_of arpType (sys_world s) \<noteq> [] \<and>
     (\<exists>u. step main_interrupt s u \<and> (sys_thread u = Waiting \<longrightarrow> (\<forall>t. queue_of t (sys_world u) = [])))"
proof -
  let ?f = "ether_layout broadcastAddress peer_mac arpType [1, 2, 3]"
  let ?s = "\<lparr>sys_world = (enqueue \<lparr>pd_type = arpType, pd_data = [1, 2, 3], pd_devicePtr = Some 0\<rparr> sample_world)\<lparr>pending := [SIGUSR1]\<rparr>,
     sys_rx = (\<lambda>_. []), sys_thread = Waiting\<rparr>"
  have "step main_interrupt (idle_system sample_world) (frame_arrived ?f sample_world)"
    unfolding frame_arrived_def by (rule frame) (simp add: idle_system_def)
  moreover have "step main_interrupt (frame_arrived ?f sample_world) ?s"
    by (rule frame_queued [OF sample_facts]) simp_all
  ultimately have r: "reachable main_interrupt (idle_system sample_world) ?s" by (meson reachable.intros)
  have q: "queue_of arpType (sys_world ?s) \<noteq> []"
    using sample_facts(2) by (simp add: queue_of_def enqueue_def idle_def map_update_def set_queues_def)
  from queued_packets_announced [OF sample_facts r _ q] r q show ?thesis by auto
qed

text \<open>
  C11. In every reachable state that is not crashed, a queued packet is one that belongs there: it is
  in the queue of its own type, that type has a handler, it is no longer than the 1500 bytes a read
  of 1514 leaves; and handlers, routes and devices are those of the start.
\<close>

theorem queued_packets_well_formed:
  assumes "configured intr w dev iface route" "idle w" "reachable intr (idle_system w) s"
    and "sys_thread s = Waiting \<or> sys_thread s = Exited" "d \<in> set (queue_of t (sys_world s))"
  shows "pd_type d = t \<and> length (pd_data d) \<le> 1500 \<and> protocolHandlers (sys_world s) t \<noteq> None \<and>
    config (sys_world s) = config w"
proof -
  have "system_inv w s" using system_inv_reachable [OF assms(3) idle_system_inv [OF assms(2)]] .
  with assms(4) have inv: "config (sys_world s) = config w" "queues_ok (sys_world s)"
      "map fst (protocolQueues (sys_world s)) = [ipType, arpType]"
    using assms(2) by (auto simp: system_inv_def idle_def)
  have "queue_of t (sys_world s) \<noteq> []" using assms(5) by auto
  then have "t \<in> set (map fst (protocolQueues (sys_world s)))" by (rule queue_of_key)
  then have t: "t = ipType \<or> t = arpType" unfolding inv(3) by auto
  have "configured intr (sys_world s) dev iface route" using configured_config [OF inv(1)] assms(1) by simp
  then have "protocolHandlers (sys_world s) t \<noteq> None" using t by (auto simp: configured_def)
  with inv assms(5) show ?thesis by (auto simp: queues_ok_def packet_ok_def)
qed

theorem queued_packets_well_formed_witness:
  "\<exists>s d. reachable main_interrupt (idle_system sample_world) s \<and> d \<in> set (queue_of ipType (sys_world s)) \<and>
     pd_type d = ipType \<and> length (pd_data d) \<le> 1500 \<and> config (sys_world s) = config sample_world"
proof -
  let ?f = "ether_layout broadcastAddress peer_mac ipType [1, 2, 3]"
  let ?d = "\<lparr>pd_type = ipType, pd_data = [1, 2, 3], pd_devicePtr = Some 0\<rparr>"
  let ?s = "\<lparr>sys_world = (enqueue ?d sample_world)\<lparr>pending := [SIGUSR1]\<rparr>, sys_rx = (\<lambda>_. []), sys_thread = Waiting\<rparr>"
  have "step main_interrupt (idle_system sample_world) (frame_arrived ?f sample_world)"
    unfolding frame_arrived_def by (rule frame) (simp add: idle_system_def)
  moreover have "step main_interrupt (frame_arrived ?f sample_world) ?s"
    by (rule frame_queued [OF sample_facts]) simp_all
  ultimately have r: "reachable main_interrupt (idle_system sample_world) ?s" by (meson reachable.intros)
  have q: "?d \<in> set (queue_of ipType (sys_world ?s))"
    using sample_facts(2) by (simp add: queue_of_def enqueue_def idle_def map_update_def set_queues_def)
  from queued_packets_well_formed [OF sample_facts r _ q] r q show ?thesis
    by (intro exI [of _ ?s] exI [of _ ?d]) simp
qed

text \<open>
  C9. Benign traffic is survived.  In every state a configured and idle system with the gateway in
  its cache reaches while only benign frames arrive (other protocols; ARP for the interface's
  address; IPv4 packets for it with a correct header whose echo requests and datagrams are correct
  too), in any number and order, with signals and socket calls in between, the interrupt thread has
  not crashed; the next frame that waits can be read without blocking; if the signal for the queues
  is pending, the step that takes it handles every packet; and left alone from there the thread comes
  to rest: it takes at most two steps for every pending signal, whatever order it takes them in, and
  where it can take no more every frame has been read and every queue is empty.
\<close>

theorem benign_traffic_survived:
  assumes cfg: "configured intr w dev iface route" "idle w" "unicast iface \<noteq> IP_ADDR_ANY" "gateway_known (route_gateway route) w"
    and run: "calm_reachable intr iface (idle_system w) s"
  shows "(sys_thread s = Waiting \<or> sys_thread s = Exited) \<and>
    (sys_thread s = Waiting \<and> sys_rx s 0 \<noteq> [] \<longrightarrow>
       (\<exists>t. step intr s t \<and> sys_thread t = Waiting \<and> sys_rx t 0 = tl (sys_rx s 0))) \<and>
    (sys_thread s = Waiting \<and> SIGUSR1 \<in> set (pending (sys_world s)) \<longrightarrow>
       (\<exists>t. step intr s t \<and> sys_thread t = Waiting \<and> (\<forall>q. queue_of q (sys_world t) = []))) \<and>
    (\<forall>n t. (thread_step intr ^^ n) s t \<longrightarrow> n \<le> 2 * length (pending (sys_world s)) \<and>
       (sys_thread t = Waiting \<and> (\<nexists>u. thread_step intr t u) \<longrightarrow>
          sys_rx t 0 = [] \<and> (\<forall>q. queue_of q (sys_world t) = [])))"
proof -
  have s: "calm_system intr dev iface route s" by (rule calm_system_reachable [OF run idle_calm [OF cfg]])
  then have c: "calm intr dev iface route (sys_world s) (sys_rx s)" by (simp add: calm_system_def)
  have mask: "{SIGHUP, SIGUSR1, SIGUSR2, ETHER_TAN_IRQ} \<subseteq> sigmask intr" using cfg(1) by (simp add: configured_def)
  have "\<exists>t. step intr s t \<and> sys_thread t = Waiting \<and> sys_rx t 0 = tl (sys_rx s 0)"
    if "sys_thread s = Waiting" "sys_rx s 0 \<noteq> []"
  proof -
    have "ETHER_TAN_IRQ \<in> set (pending (sys_world s))" using c that(2) by (metis calm_def count_list_0_iff length_0_conv)
    from calm_wake [OF c that(1) this mask] show ?thesis by fastforce
  qed
  moreover have "\<exists>t. step intr s t \<and> sys_thread t = Waiting \<and> (\<forall>q. queue_of q (sys_world t) = [])"
    if wait: "sys_thread s = Waiting" "SIGUSR1 \<in> set (pending (sys_world s))"
  proof -
    obtain w' rx' where t: "step intr s \<lparr>sys_world = w', sys_rx = rx', sys_thread = Waiting\<rparr>"
      "dispatch intr SIGUSR1 (take_signal SIGUSR1 (sys_world s), sys_rx s) = (Inr False, (w', rx'))"
      using calm_wake [OF c wait mask] by auto
    then have "handleProtocolSignal (take_signal SIGUSR1 (sys_world s)) = (Inr (), w')"
      by (auto simp: bindM_eq_Inr_iff on_world_def split: prod.splits)
    from handleProtocolSignal_frame(4) [OF this] t(1) show ?thesis by force
  qed
  moreover have "sys_rx t 0 = [] \<and> (\<forall>q. queue_of q (sys_world t) = [])"
    if "(thread_step intr ^^ n) s t" "sys_thread t = Waiting" "\<nexists>u. thread_step intr t u" for n t
  proof -
    note rest = calm_at_rest [OF calm_thread_steps [OF that(1) s] that(3,2) mask]
    have "reachable intr (idle_system w) t"
      by (rule thread_steps_reachable [OF that(1) calm_is_reachable [OF run]])
    from system_inv_reachable [OF this idle_system_inv [OF cfg(2)]] that(2) rest show ?thesis
      by (auto simp: system_inv_def)
  qed
  ultimately show ?thesis using s calm_steps_bounded [OF s] by (simp add: calm_system_def)
qed

definition ping_frame :: bytes where
  "ping_frame = ether_layout (dev_address main_device) peer_mac ipType (ip_layout ping_ip_header (icmp_layout ping_header ping_data))"

lemma ping_benign: "benign_frame main_interface ping_frame"
proof -
  have "good_icmp (icmp_layout ping_header ping_data)"
    unfolding good_icmp_def using ping_facts(3,4)
    by (intro exI [of _ ping_header] exI [of _ ping_data]) (simp add: ping_data_def)
  moreover have "h_proto ping_ip_header \<noteq> UDP_TYPE" "h_dst ping_ip_header = unicast main_interface"
    "unat (h_total ping_ip_header) = 20 + length (icmp_layout ping_header ping_data)"
    by (simp_all add: ping_ip_header_def UDP_TYPE_def main_interface_def ping_data_def)
  ultimately have "good_ip main_interface (ip_layout ping_ip_header (icmp_layout ping_header ping_data @ []))"
    using ping_facts(1,2) by (intro good_ip_no_options) blast+
  then have "benign_body main_interface ipType (ip_layout ping_ip_header (icmp_layout ping_header ping_data))"
    by (simp add: benign_body_def ping_data_def)
  then show ?thesis
    unfolding benign_frame_def ping_frame_def
    by (intro exI conjI) (auto simp: main_device_def)
qed

theorem benign_traffic_survived_witness:
  "\<exists>s. calm_reachable main_interrupt main_interface (idle_system resolved_world) s \<and>
     sys_rx s 0 = [Some ping_frame] \<and> (\<exists>t. step main_interrupt s t \<and> sys_thread t = Waiting \<and> sys_rx t 0 = [])"
proof -
  let ?s = "arrival 0 (Some ping_frame) (idle_system resolved_world)"
  have "step main_interrupt (idle_system resolved_world) ?s" by (rule frame) (simp add: idle_system_def)
  from benign_arrival [OF ping_benign this]
  have r: "calm_reachable main_interrupt main_interface (idle_system resolved_world) ?s"
    by (meson calm_start calm_next)
  have s: "sys_rx ?s 0 = [Some ping_frame]" "sys_thread ?s = Waiting" by (simp_all add: arrival_def idle_system_def)
  have g: "gateway_known (route_gateway main_route) resolved_world"
    unfolding gateway_known_def using resolved_facts(3) by simp
  have u: "unicast main_interface \<noteq> IP_ADDR_ANY" by (simp add: main_interface_def IP_ADDR_ANY_def)
  from benign_traffic_survived [OF resolved_facts(1,2) u g r] r s show ?thesis by (intro exI [of _ ?s]) simp
qed

end
